(* ===== verification/Prelude.thy ===== *)
theory Prelude
  imports Main "HOL-Library.Word" "HOL-Library.Sublist"
begin

text \<open>
  The vocabulary every component shares: the machine types of the Go and C code, the
  two ways a Go call can end, the theorem collections the proofs draw on, and generic
  lemmas on lists, maps and words.

  Widths. The module is built for 64-bit targets only (see \<^verbatim>\<open>README.md\<close>), where Go's
  \<^verbatim>\<open>uint\<close> and \<^verbatim>\<open>int\<close> have 64 bits; the C type \<^verbatim>\<open>CK_ULONG\<close> is modelled with the 64 bits
  it has on Linux and macOS. Theory \<^verbatim>\<open>Bridge\<close> also has the 32 bits of Windows.
\<close>

unbundle bit_operations_syntax

section \<open>Types\<close>

type_synonym byte = "8 word"
type_synonym bytes = "byte list"
type_synonym uint = "64 word"
type_synonym int64 = "64 word"
type_synonym int32 = "32 word"

text \<open>
  A call of an exported function returns, or panics; a Go panic that leaves an exported
  function terminates the host process.
\<close>

datatype 'a outcome = Returns 'a | Panics

section \<open>Theorem collections\<close>

named_theorems const_vals "values of the numeric constants of PKCS#11 and of the module"
named_theorems preserves "invariants an operation keeps"

section \<open>Lists\<close>

text \<open>Writing a list over the beginning of a buffer, as a copy loop does.\<close>

definition overwrite :: "'a list \<Rightarrow> 'a list \<Rightarrow> 'a list" where
  "overwrite xs buf = xs @ drop (length xs) buf"

lemma length_overwrite [simp]:
  "length (overwrite xs buf) = max (length xs) (length buf)"
  by (simp add: overwrite_def max_def)

lemma take_overwrite [simp]: "take (length xs) (overwrite xs buf) = xs"
  by (simp add: overwrite_def)

lemma drop_overwrite [simp]: "drop (length xs) (overwrite xs buf) = drop (length xs) buf"
  by (simp add: overwrite_def)

lemma overwrite_Nil [simp]: "overwrite [] buf = buf"
  by (simp add: overwrite_def)

section \<open>Words\<close>

lemma unat_of_nat_u64: "n < 2 ^ 64 \<Longrightarrow> unat (of_nat n :: 64 word) = n"
  by (simp add: unsigned_of_nat take_bit_nat_eq_self)

lemma unat_lt_u64: "unat (w :: 64 word) < 2 ^ 64"
  using unsigned_less [of w] by simp

lemma uint_lessI: "unat (n :: 64 word) < 2 ^ k \<Longrightarrow> uint n < 2 ^ k"
  by (metis of_nat_less_iff of_nat_numeral of_nat_power uint_nat)

lemma signed_take_bit_small: "0 \<le> (k :: int) \<Longrightarrow> k < 2 ^ n \<Longrightarrow> signed_take_bit n k = k"
  by (rule signed_take_bit_int_eq_self) (auto intro: order_trans [of _ 0])

lemma word_le_of_nat_iff: "n < 2 ^ 64 \<Longrightarrow> of_nat n \<le> (w :: 64 word) \<longleftrightarrow> n \<le> unat w"
  by (simp add: word_le_nat_alt unat_of_nat_u64)

lemma word_less_of_nat_iff: "n < 2 ^ 64 \<Longrightarrow> w < (of_nat n :: 64 word) \<longleftrightarrow> unat w < n"
  by (simp add: word_less_nat_alt unat_of_nat_u64)

text \<open>
  A conversion \<^verbatim>\<open>C.int(n)\<close> of a 64-bit count keeps the low 32 bits and reads them as a
  signed number; \<^verbatim>\<open>int(n)\<close> keeps all 64 bits.
\<close>

definition c_int :: "uint \<Rightarrow> int" where
  "c_int n = sint (ucast n :: int32)"

definition go_int :: "uint \<Rightarrow> int" where
  "go_int n = sint n"

lemma c_int_small: "unat n < 2 ^ 31 \<Longrightarrow> c_int n = int (unat n)"
proof -
  assume n: "unat n < 2 ^ 31"
  then have u: "uint n < 2 ^ 31" by (rule uint_lessI)
  have "uint (ucast n :: 32 word) = uint n"
    using u by (simp add: unsigned_ucast_eq take_bit_int_eq_self)
  then show ?thesis
    using u by (simp add: c_int_def sint_uint signed_take_bit_small [of _ 31, simplified])
qed

lemma go_int_small: "unat n < 2 ^ 63 \<Longrightarrow> go_int n = int (unat n)"
proof -
  assume "unat n < 2 ^ 63"
  then have u: "uint n < 2 ^ 63" by (rule uint_lessI)
  with signed_take_bit_small [of "uint n" 63] show ?thesis
    by (simp add: go_int_def sint_uint)
qed

lemma go_int_nonneg:
  assumes "0 \<le> go_int k"
  shows "go_int k = int (unat k)"
proof -
  have eq: "go_int k = (uint k + 2 ^ 63) mod 2 ^ 64 - 2 ^ 63"
    by (simp add: go_int_def sint_uint signed_take_bit_eq_take_bit_shift take_bit_eq_mod)
  have "uint k < 2 ^ 63"
  proof (rule ccontr)
    assume "\<not> uint k < 2 ^ 63"
    then have u: "2 ^ 63 \<le> uint k" "uint k < 2 ^ 64" using uint_bounded [of k] by auto
    have "(uint k + 2 ^ 63) mod 2 ^ 64 = (uint k - 2 ^ 63) mod 2 ^ 64"
      using mod_add_self2 [of "uint k - 2 ^ 63" "2 ^ 64"] by (simp add: add.commute)
    also have "\<dots> = uint k - 2 ^ 63" using u by (intro mod_pos_pos_trivial) auto
    finally have "0 \<le> (uint k - 2 ^ 63) - 2 ^ 63" using assms eq by (simp only:)
    then show False using u(2) by simp
  qed
  with signed_take_bit_small [of "uint k" 63] show ?thesis
    by (simp add: go_int_def sint_uint)
qed

section \<open>Maps\<close>

text \<open>Applying a function to the value of one key, and to the values of all keys.\<close>

definition map_at :: "'k \<Rightarrow> ('v \<Rightarrow> 'v) \<Rightarrow> ('k \<rightharpoonup> 'v) \<Rightarrow> ('k \<rightharpoonup> 'v)" where
  "map_at k f m = m(k := map_option f (m k))"

lemma map_at_same [simp]: "map_at k f m k = map_option f (m k)"
  by (simp add: map_at_def)

lemma map_at_other [simp]: "k' \<noteq> k \<Longrightarrow> map_at k f m k' = m k'"
  by (simp add: map_at_def)

lemma dom_map_at [simp]: "dom (map_at k f m) = dom m"
  by (auto simp: map_at_def dom_def)

lemma map_at_Some: "m k = Some v \<Longrightarrow> map_at k f m = m(k \<mapsto> f v)"
  by (simp add: map_at_def)

lemma map_at_id [simp]: "map_at k (\<lambda>x. x) m = m"
  by (auto simp: map_at_def option.map_ident)

section \<open>Invariants of a labelled system\<close>

text \<open>
  The reachable states of a system given by its start states and its steps, and the rule
  that a predicate which holds at the start and is kept by every step holds in every
  reachable state. Every state machine of the development is an interpretation.
\<close>

inductive reachable_from :: "('s \<Rightarrow> bool) \<Rightarrow> ('s \<Rightarrow> 's \<Rightarrow> bool) \<Rightarrow> 's \<Rightarrow> bool"
  for start :: "'s \<Rightarrow> bool" and move :: "'s \<Rightarrow> 's \<Rightarrow> bool" where
  reachable_start: "start s \<Longrightarrow> reachable_from start move s"
| reachable_move: "reachable_from start move s \<Longrightarrow> move s t \<Longrightarrow> reachable_from start move t"

locale invariant_system =
  fixes start :: "'s \<Rightarrow> bool" and move :: "'s \<Rightarrow> 's \<Rightarrow> bool" and inv :: "'s \<Rightarrow> bool"
  assumes start_inv: "start s \<Longrightarrow> inv s"
    and move_inv: "move s t \<Longrightarrow> inv s \<Longrightarrow> inv t"
begin

lemma reachable_inv: "reachable_from start move s \<Longrightarrow> inv s"
  by (induction rule: reachable_from.induct) (auto intro: start_inv move_inv)

lemma run_inv: "move\<^sup>*\<^sup>* s t \<Longrightarrow> inv s \<Longrightarrow> inv t"
  by (induction rule: rtranclp_induct) (auto intro: move_inv)

end

end
