(* ===== verification/Go_Strings.thy ===== *)
theory Go_Strings
  imports Prelude
begin

text \<open>
  The functions of Go's packages \<^verbatim>\<open>strings\<close>, \<^verbatim>\<open>strconv\<close> and \<^verbatim>\<open>unicode/utf8\<close> that the
  module calls. A Go string is a sequence of bytes: here a \<^typ>\<open>string\<close>, whose
  characters are bytes. \<^verbatim>\<open>strings.ToLower\<close> is modelled on the ASCII letters; the bytes of
  other letters are kept.
\<close>

section \<open>Bytes and characters\<close>

definition byte_of_char :: "char \<Rightarrow> byte" where
  "byte_of_char c = of_char c"

definition char_of_byte :: "byte \<Rightarrow> char" where
  "char_of_byte b = char_of (unat b)"

text \<open>The conversions \<^verbatim>\<open>[]byte(s)\<close> and \<^verbatim>\<open>string(b)\<close>.\<close>

definition bytes_of_string :: "string \<Rightarrow> bytes" where
  "bytes_of_string s = map byte_of_char s"

definition string_of_bytes :: "bytes \<Rightarrow> string" where
  "string_of_bytes bs = map char_of_byte bs"

lemma unat_byte_of_char [simp]: "unat (byte_of_char c) = of_char c"
proof -
  have "unat (of_nat (of_char c) :: byte) = of_char c"
    using nat_of_char_less_256 [of c] by (simp add: unat_of_nat)
  then show ?thesis unfolding byte_of_char_def by (simp only: of_nat_of_char)
qed

lemma char_of_byte_of_char [simp]: "char_of_byte (byte_of_char c) = c"
  by (simp add: char_of_byte_def)

lemma byte_of_char_of_byte [simp]: "byte_of_char (char_of_byte b) = b"
proof -
  have "unat b < 256" using unsigned_less [of b] by simp
  then show ?thesis
    by (intro word_unat_eq_iff [THEN iffD2]) (simp add: char_of_byte_def)
qed

lemma string_of_bytes_of_string [simp]: "string_of_bytes (bytes_of_string s) = s"
  by (simp add: string_of_bytes_def bytes_of_string_def comp_def)

lemma bytes_of_string_of_bytes [simp]: "bytes_of_string (string_of_bytes b) = b"
  by (simp add: string_of_bytes_def bytes_of_string_def comp_def)

lemma length_bytes_of_string [simp]: "length (bytes_of_string s) = length s"
  by (simp add: bytes_of_string_def)

lemma length_string_of_bytes [simp]: "length (string_of_bytes b) = length b"
  by (simp add: string_of_bytes_def)

text \<open>The code of a character, for range tests such as \<^verbatim>\<open>'0' <= c\<close>.\<close>

abbreviation code :: "char \<Rightarrow> nat" where
  "code c \<equiv> of_char c"

section \<open>Package strings\<close>

definition hasPrefix :: "string \<Rightarrow> string \<Rightarrow> bool" where
  "hasPrefix s p \<longleftrightarrow> take (length p) s = p"

definition hasSuffix :: "string \<Rightarrow> string \<Rightarrow> bool" where
  "hasSuffix s p \<longleftrightarrow> length p \<le> length s \<and> drop (length s - length p) s = p"

fun contains :: "string \<Rightarrow> string \<Rightarrow> bool" where
  "contains [] sub \<longleftrightarrow> sub = []"
| "contains (c # s) sub \<longleftrightarrow> hasPrefix (c # s) sub \<or> contains s sub"

definition lower_char :: "char \<Rightarrow> char" where
  "lower_char c = (if 65 \<le> code c \<and> code c \<le> 90 then char_of (code c + 32) else c)"

definition toLower :: "string \<Rightarrow> string" where
  "toLower s = map lower_char s"

text \<open>\<^verbatim>\<open>strings.Index\<close> of a one-character string; \<^const>\<open>None\<close> stands for \<open>-1\<close>.\<close>

fun indexChar :: "string \<Rightarrow> char \<Rightarrow> nat option" where
  "indexChar [] c = None"
| "indexChar (x # s) c = (if x = c then Some 0 else map_option Suc (indexChar s c))"

text \<open>
  \<^verbatim>\<open>strings.Cut\<close> at the first occurrence of a one-character separator: what stands before,
  what stands after, and whether the separator was found.
\<close>

fun cut :: "string \<Rightarrow> char \<Rightarrow> string \<times> string \<times> bool" where
  "cut [] c = ([], [], False)"
| "cut (x # s) c =
     (if x = c then ([], s, True)
      else case cut s c of (before, after, found) \<Rightarrow> (x # before, after, found))"

text \<open>
  What follows the last character of \<open>s\<close> that is in \<open>cs\<close>: the code's
  \<^verbatim>\<open>s[strings.LastIndexAny(s, cs)+1:]\<close>.
\<close>

definition afterLastAny :: "string \<Rightarrow> char list \<Rightarrow> string" where
  "afterLastAny s cs = rev (takeWhile (\<lambda>c. c \<notin> set cs) (rev s))"

fun joinWith :: "string \<Rightarrow> string list \<Rightarrow> string" where
  "joinWith sep [] = []"
| "joinWith sep [x] = x"
| "joinWith sep (x # y # ys) = x @ sep @ joinWith sep (y # ys)"

text \<open>\<^verbatim>\<open>strings.Split\<close> at a one-character separator.\<close>

fun splitOn :: "char \<Rightarrow> string \<Rightarrow> string list" where
  "splitOn c [] = [[]]"
| "splitOn c (x # s) =
     (if x = c then [] # splitOn c s
      else case splitOn c s of [] \<Rightarrow> [[x]] | y # ys \<Rightarrow> (x # y) # ys)"

definition trimRightChar :: "string \<Rightarrow> char \<Rightarrow> string" where
  "trimRightChar s c = rev (dropWhile (\<lambda>x. x = c) (rev s))"

section \<open>Package strconv\<close>

definition is_digit :: "char \<Rightarrow> bool" where
  "is_digit c \<longleftrightarrow> 48 \<le> code c \<and> code c \<le> 57"

definition digit_val :: "char \<Rightarrow> nat" where
  "digit_val c = code c - 48"

fun digits_val :: "nat \<Rightarrow> string \<Rightarrow> nat" where
  "digits_val n [] = n"
| "digits_val n (c # s) = digits_val (n * 10 + digit_val c) s"

text \<open>\<^verbatim>\<open>strconv.Atoi\<close>: an optional sign, then decimal digits only, within 64 bits.\<close>

definition atoi :: "string \<Rightarrow> int option" where
  "atoi s =
     (let neg = (s \<noteq> [] \<and> hd s = CHR ''-'');
          ds = (if s \<noteq> [] \<and> (hd s = CHR ''-'' \<or> hd s = CHR ''+'') then tl s else s);
          n = int (digits_val 0 ds);
          v = (if neg then - n else n)
      in if ds \<noteq> [] \<and> list_all is_digit ds \<and> - (2 ^ 63) \<le> v \<and> v < 2 ^ 63 then Some v else None)"

fun show_nat :: "nat \<Rightarrow> string" where
  "show_nat n =
     (if n < 10 then [char_of (48 + n)] else show_nat (n div 10) @ [char_of (48 + n mod 10)])"

declare show_nat.simps [simp del]

text \<open>The verb \<^verbatim>\<open>%d\<close>.\<close>

definition show_int :: "int \<Rightarrow> string" where
  "show_int i = (if i < 0 then CHR ''-'' # show_nat (nat (- i)) else show_nat (nat i))"

section \<open>Package unicode/utf8\<close>

text \<open>\<^verbatim>\<open>utf8.RuneStart\<close>: the byte is not a continuation byte \<open>10xxxxxx\<close>.\<close>

definition runeStart :: "char \<Rightarrow> bool" where
  "runeStart c \<longleftrightarrow> code c div 64 \<noteq> 2"

section \<open>Facts\<close>

lemma hasPrefix_iff: "hasPrefix s p \<longleftrightarrow> prefix p s"
  by (auto simp: hasPrefix_def prefix_def) (metis append_take_drop_id)

lemma hasSuffix_iff: "hasSuffix s p \<longleftrightarrow> suffix p s"
proof
  assume "hasSuffix s p"
  then have "s = take (length s - length p) s @ p"
    unfolding hasSuffix_def by (metis append_take_drop_id)
  then show "suffix p s" unfolding suffix_def by blast
qed (auto simp: hasSuffix_def suffix_def)

lemma contains_iff: "contains s sub \<longleftrightarrow> (\<exists>a b. s = a @ sub @ b)"
proof (induction s)
  case (Cons c s)
  show ?case
  proof
    assume "contains (c # s) sub"
    then consider "hasPrefix (c # s) sub" | "contains s sub" by auto
    then show "\<exists>a b. c # s = a @ sub @ b"
    proof cases
      case 1
      then obtain b where "c # s = [] @ sub @ b" by (auto simp: hasPrefix_iff prefix_def)
      then show ?thesis by blast
    next
      case 2
      with Cons.IH obtain a b where "c # s = (c # a) @ sub @ b" by auto
      then show ?thesis by blast
    qed
  next
    assume "\<exists>a b. c # s = a @ sub @ b"
    then obtain a b where ab: "c # s = a @ sub @ b" by blast
    show "contains (c # s) sub"
    proof (cases a)
      case Nil
      with ab have "hasPrefix (c # s) sub" by (auto simp: hasPrefix_iff prefix_def)
      then show ?thesis by simp
    next
      case (Cons x xs)
      with ab have "s = xs @ sub @ b" by simp
      with Cons.IH show ?thesis by auto
    qed
  qed
qed auto

lemma cut_found: "c \<notin> set before \<Longrightarrow> cut (before @ c # after) c = (before, after, True)"
  by (induction before) auto

lemma cut_missing: "c \<notin> set s \<Longrightarrow> cut s c = (s, [], False)"
  by (induction s) auto

lemma cut_True_D: "cut s c = (a, b, True) \<Longrightarrow> s = a @ c # b \<and> c \<notin> set a"
  by (induction s arbitrary: a) (auto split: if_splits prod.splits)

lemma cut_False_D: "cut s c = (a, b, False) \<Longrightarrow> a = s \<and> b = [] \<and> c \<notin> set s"
  by (induction s arbitrary: a) (auto split: if_splits prod.splits)

lemma indexChar_Some_D: "indexChar s c = Some i \<Longrightarrow> i < length s \<and> s ! i = c \<and> c \<notin> set (take i s)"
  by (induction s arbitrary: i) (auto split: if_splits)

lemma indexChar_split: "c \<notin> set a \<Longrightarrow> indexChar (a @ c # b) c = Some (length a)"
  by (induction a) auto

lemma indexChar_None_iff: "indexChar s c = None \<longleftrightarrow> c \<notin> set s"
  by (induction s) auto

lemma length_toLower [simp]: "length (toLower s) = length s"
  by (simp add: toLower_def)

lemma toLower_append [simp]: "toLower (a @ b) = toLower a @ toLower b"
  by (simp add: toLower_def)

lemma splitOn_nonempty: "splitOn c s \<noteq> []"
  by (induction s) (auto split: list.splits)

lemma joinWith_splitOn: "joinWith [c] (splitOn c s) = s"
proof (induction s)
  case (Cons x s)
  obtain y ys where "splitOn c s = y # ys"
    using splitOn_nonempty [of c s] by (cases "splitOn c s") auto
  with Cons.IH show ?case by (cases ys) auto
qed auto

lemma splitOn_joinWith:
  "xs \<noteq> [] \<Longrightarrow> \<forall>x \<in> set xs. c \<notin> set x \<Longrightarrow> splitOn c (joinWith [c] xs) = xs"
proof (induction "[c]" xs rule: joinWith.induct)
  case (2 x)
  then have "c \<notin> set x" by simp
  then show ?case by (induction x) auto
next
  case (3 x y ys)
  then have IH: "splitOn c (joinWith [c] (y # ys)) = y # ys" and x: "c \<notin> set x" by auto
  have "splitOn c (x @ c # joinWith [c] (y # ys)) = x # y # ys"
    using x IH by (induction x) auto
  then show ?case by simp
qed auto

end
