(* ===== verification/Pkcs11.thy ===== *)
theory Pkcs11
  imports Prelude
begin

text \<open>
  The numeric vocabulary of PKCS#11 the module uses: return codes, flags, object classes
  and session states as in \<^verbatim>\<open>pkcs11_types.h\<close>; mechanisms, attribute types and key types with
  the numbers of the PKCS#11 v2.40 standard, which \<^verbatim>\<open>github.com/miekg/pkcs11\<close> exports under
  the same names. Every value is in the collection \<open>const_vals\<close>.
\<close>

section \<open>Return codes\<close>

type_synonym ck_rv = uint

definition CKR_OK :: ck_rv where [const_vals]: "CKR_OK = 0x00000000"
definition CKR_SLOT_ID_INVALID :: ck_rv where [const_vals]: "CKR_SLOT_ID_INVALID = 0x00000003"
definition CKR_GENERAL_ERROR :: ck_rv where [const_vals]: "CKR_GENERAL_ERROR = 0x00000005"
definition CKR_ARGUMENTS_BAD :: ck_rv where [const_vals]: "CKR_ARGUMENTS_BAD = 0x00000007"
definition CKR_DATA_INVALID :: ck_rv where [const_vals]: "CKR_DATA_INVALID = 0x00000020"
definition CKR_DEVICE_ERROR :: ck_rv where [const_vals]: "CKR_DEVICE_ERROR = 0x00000030"
definition CKR_FUNCTION_NOT_SUPPORTED :: ck_rv where
  [const_vals]: "CKR_FUNCTION_NOT_SUPPORTED = 0x00000054"
definition CKR_KEY_HANDLE_INVALID :: ck_rv where [const_vals]: "CKR_KEY_HANDLE_INVALID = 0x00000060"
definition CKR_MECHANISM_INVALID :: ck_rv where [const_vals]: "CKR_MECHANISM_INVALID = 0x00000070"
definition CKR_OPERATION_ACTIVE :: ck_rv where [const_vals]: "CKR_OPERATION_ACTIVE = 0x00000090"
definition CKR_OPERATION_NOT_INITIALIZED :: ck_rv where
  [const_vals]: "CKR_OPERATION_NOT_INITIALIZED = 0x00000091"
definition CKR_PIN_INCORRECT :: ck_rv where [const_vals]: "CKR_PIN_INCORRECT = 0x000000A0"
definition CKR_SESSION_HANDLE_INVALID :: ck_rv where
  [const_vals]: "CKR_SESSION_HANDLE_INVALID = 0x000000B3"
definition CKR_USER_NOT_LOGGED_IN :: ck_rv where [const_vals]: "CKR_USER_NOT_LOGGED_IN = 0x00000101"
definition CKR_BUFFER_TOO_SMALL :: ck_rv where [const_vals]: "CKR_BUFFER_TOO_SMALL = 0x00000150"
definition CKR_CRYPTOKI_NOT_INITIALIZED :: ck_rv where
  [const_vals]: "CKR_CRYPTOKI_NOT_INITIALIZED = 0x00000190"
definition CKR_CRYPTOKI_ALREADY_INITIALIZED :: ck_rv where
  [const_vals]: "CKR_CRYPTOKI_ALREADY_INITIALIZED = 0x00000191"

section \<open>Flags, classes, states\<close>

definition CKF_TOKEN_PRESENT :: uint where [const_vals]: "CKF_TOKEN_PRESENT = 0x00000001"
definition CKF_HW_SLOT :: uint where [const_vals]: "CKF_HW_SLOT = 0x00000004"
definition CKF_SERIAL_SESSION :: uint where [const_vals]: "CKF_SERIAL_SESSION = 0x00000004"
definition CKF_LOGIN_REQUIRED :: uint where [const_vals]: "CKF_LOGIN_REQUIRED = 0x00000004"
definition CKF_TOKEN_INITIALIZED :: uint where [const_vals]: "CKF_TOKEN_INITIALIZED = 0x00000400"
definition CKF_SIGN :: uint where [const_vals]: "CKF_SIGN = 0x00000800"

definition CKO_CERTIFICATE :: uint where [const_vals]: "CKO_CERTIFICATE = 0x00000001"
definition CKO_PUBLIC_KEY :: uint where [const_vals]: "CKO_PUBLIC_KEY = 0x00000002"
definition CKO_PRIVATE_KEY :: uint where [const_vals]: "CKO_PRIVATE_KEY = 0x00000003"

definition CKS_RO_PUBLIC_SESSION :: uint where [const_vals]: "CKS_RO_PUBLIC_SESSION = 0"
definition CKS_RO_USER_FUNCTIONS :: uint where [const_vals]: "CKS_RO_USER_FUNCTIONS = 1"

definition CKC_X_509 :: uint where [const_vals]: "CKC_X_509 = 0"
definition CKK_RSA :: uint where [const_vals]: "CKK_RSA = 0"
definition CKK_EC :: uint where [const_vals]: "CKK_EC = 3"

section \<open>Mechanisms\<close>

definition CKM_RSA_PKCS :: uint where [const_vals]: "CKM_RSA_PKCS = 0x00000001"
definition CKM_SHA256_RSA_PKCS :: uint where [const_vals]: "CKM_SHA256_RSA_PKCS = 0x00000040"
definition CKM_SHA384_RSA_PKCS :: uint where [const_vals]: "CKM_SHA384_RSA_PKCS = 0x00000041"
definition CKM_SHA512_RSA_PKCS :: uint where [const_vals]: "CKM_SHA512_RSA_PKCS = 0x00000042"
definition CKM_SHA256_RSA_PKCS_PSS :: uint where
  [const_vals]: "CKM_SHA256_RSA_PKCS_PSS = 0x00000043"
definition CKM_SHA384_RSA_PKCS_PSS :: uint where
  [const_vals]: "CKM_SHA384_RSA_PKCS_PSS = 0x00000044"
definition CKM_SHA512_RSA_PKCS_PSS :: uint where
  [const_vals]: "CKM_SHA512_RSA_PKCS_PSS = 0x00000045"
definition CKM_ECDSA :: uint where [const_vals]: "CKM_ECDSA = 0x00001041"
definition CKM_ECDSA_SHA256 :: uint where [const_vals]: "CKM_ECDSA_SHA256 = 0x00001044"
definition CKM_ECDSA_SHA384 :: uint where [const_vals]: "CKM_ECDSA_SHA384 = 0x00001045"
definition CKM_ECDSA_SHA512 :: uint where [const_vals]: "CKM_ECDSA_SHA512 = 0x00001046"

section \<open>Attribute types\<close>

definition CKA_CLASS :: uint where [const_vals]: "CKA_CLASS = 0x00000000"
definition CKA_TOKEN :: uint where [const_vals]: "CKA_TOKEN = 0x00000001"
definition CKA_PRIVATE :: uint where [const_vals]: "CKA_PRIVATE = 0x00000002"
definition CKA_LABEL :: uint where [const_vals]: "CKA_LABEL = 0x00000003"
definition CKA_VALUE :: uint where [const_vals]: "CKA_VALUE = 0x00000011"
definition CKA_CERTIFICATE_TYPE :: uint where [const_vals]: "CKA_CERTIFICATE_TYPE = 0x00000080"
definition CKA_ISSUER :: uint where [const_vals]: "CKA_ISSUER = 0x00000081"
definition CKA_SERIAL_NUMBER :: uint where [const_vals]: "CKA_SERIAL_NUMBER = 0x00000082"
definition CKA_TRUSTED :: uint where [const_vals]: "CKA_TRUSTED = 0x00000086"
definition CKA_KEY_TYPE :: uint where [const_vals]: "CKA_KEY_TYPE = 0x00000100"
definition CKA_SUBJECT :: uint where [const_vals]: "CKA_SUBJECT = 0x00000101"
definition CKA_ID :: uint where [const_vals]: "CKA_ID = 0x00000102"
definition CKA_SENSITIVE :: uint where [const_vals]: "CKA_SENSITIVE = 0x00000103"
definition CKA_ENCRYPT :: uint where [const_vals]: "CKA_ENCRYPT = 0x00000104"
definition CKA_DECRYPT :: uint where [const_vals]: "CKA_DECRYPT = 0x00000105"
definition CKA_WRAP :: uint where [const_vals]: "CKA_WRAP = 0x00000106"
definition CKA_UNWRAP :: uint where [const_vals]: "CKA_UNWRAP = 0x00000107"
definition CKA_SIGN :: uint where [const_vals]: "CKA_SIGN = 0x00000108"
definition CKA_SIGN_RECOVER :: uint where [const_vals]: "CKA_SIGN_RECOVER = 0x00000109"
definition CKA_VERIFY :: uint where [const_vals]: "CKA_VERIFY = 0x0000010A"
definition CKA_VERIFY_RECOVER :: uint where [const_vals]: "CKA_VERIFY_RECOVER = 0x0000010B"
definition CKA_DERIVE :: uint where [const_vals]: "CKA_DERIVE = 0x0000010C"
definition CKA_MODULUS :: uint where [const_vals]: "CKA_MODULUS = 0x00000120"
definition CKA_MODULUS_BITS :: uint where [const_vals]: "CKA_MODULUS_BITS = 0x00000121"
definition CKA_PUBLIC_EXPONENT :: uint where [const_vals]: "CKA_PUBLIC_EXPONENT = 0x00000122"
definition CKA_EXTRACTABLE :: uint where [const_vals]: "CKA_EXTRACTABLE = 0x00000162"
definition CKA_LOCAL :: uint where [const_vals]: "CKA_LOCAL = 0x00000163"
definition CKA_NEVER_EXTRACTABLE :: uint where [const_vals]: "CKA_NEVER_EXTRACTABLE = 0x00000164"
definition CKA_ALWAYS_SENSITIVE :: uint where [const_vals]: "CKA_ALWAYS_SENSITIVE = 0x00000165"
definition CKA_EC_PARAMS :: uint where [const_vals]: "CKA_EC_PARAMS = 0x00000180"
definition CKA_EC_POINT :: uint where [const_vals]: "CKA_EC_POINT = 0x00000181"
definition CKA_ALWAYS_AUTHENTICATE :: uint where
  [const_vals]: "CKA_ALWAYS_AUTHENTICATE = 0x00000202"
definition CKA_WRAP_WITH_TRUSTED :: uint where [const_vals]: "CKA_WRAP_WITH_TRUSTED = 0x00000210"

section \<open>Attributes\<close>

text \<open>
  \<^verbatim>\<open>pkcs11.Attribute\<close>: a type and a byte slice; \<^const>\<open>None\<close> is the nil slice, which the code
  tells apart from an empty one.
\<close>

record Attribute =
  Type :: uint
  Value :: "bytes option"

end
