(* ===== verification/Errors.thy ===== *)
theory Errors
  imports Go_Strings Pkcs11
begin

text \<open>
  \<^verbatim>\<open>errors.go\<close> and \<^verbatim>\<open>mapErrorToRV\<close> of \<^verbatim>\<open>main.go\<close>: the error values of the module, the chains
  \<^verbatim>\<open>errors.Is\<close> and \<^verbatim>\<open>errors.As\<close> follow, and the PKCS#11 return code every error becomes.
\<close>

section \<open>Error values\<close>

text \<open>\<^verbatim>\<open>type APIError struct\<close>.\<close>

record APIError =
  StatusCode :: int
  Message :: string
  Operation :: string
  Code :: string
  HasPendingRequest :: bool

text \<open>
  A Go error: the sentinels, an \<^verbatim>\<open>*APIError\<close>, a \<^verbatim>\<open>*RequestError\<close> around an error of the HTTP
  client or the SDK, an error that wraps another (\<^verbatim>\<open>fmt.Errorf\<close> with \<^verbatim>\<open>%w\<close>), and an error
  with a text only. Where a text has formatted arguments, the model keeps the format.
\<close>

datatype go_error =
    ErrAlreadyInitialized
  | ErrNotLoggedIn
  | ErrSessionHandleInvalid
  | ErrSlotIDInvalid
  | ErrSignNotActive
  | ErrSignAlreadyActive
  | ErrFindAlreadyActive
  | ErrFindNotActive
  | API APIError
  | RequestError string go_error
  | Wrapf string go_error
  | Errorf string

type_synonym 'a result = "go_error + 'a"

text \<open>\<^verbatim>\<open>Unwrap\<close>: the next error of a chain.\<close>

fun unwrap :: "go_error \<Rightarrow> go_error option" where
  "unwrap (RequestError op e) = Some e"
| "unwrap (Wrapf msg e) = Some e"
| "unwrap _ = None"

text \<open>\<^verbatim>\<open>errors.Is(err, target)\<close> for the sentinels.\<close>

fun errorsIs :: "go_error \<Rightarrow> go_error \<Rightarrow> bool" where
  "errorsIs (RequestError op e) t = (RequestError op e = t \<or> errorsIs e t)"
| "errorsIs (Wrapf msg e) t = (Wrapf msg e = t \<or> errorsIs e t)"
| "errorsIs e t = (e = t)"

text \<open>\<^verbatim>\<open>errors.As(err, &apiErr)\<close>: the first \<^verbatim>\<open>*APIError\<close> of the chain.\<close>

fun errorsAsAPI :: "go_error \<Rightarrow> APIError option" where
  "errorsAsAPI (API a) = Some a"
| "errorsAsAPI (RequestError op e) = errorsAsAPI e"
| "errorsAsAPI (Wrapf msg e) = errorsAsAPI e"
| "errorsAsAPI _ = None"

section \<open>API errors\<close>

definition ErrorCodeApprovalRequired :: string where
  "ErrorCodeApprovalRequired = ''ApprovalRequired''"

definition IsApprovalRequired :: "APIError \<Rightarrow> bool" where
  "IsApprovalRequired e \<longleftrightarrow> StatusCode e = 403 \<and> Code e = ErrorCodeApprovalRequired"

text \<open>\<^verbatim>\<open>func (e *APIError) Error()\<close>.\<close>

definition APIError_Error :: "APIError \<Rightarrow> string" where
  "APIError_Error e =
     (if Operation e \<noteq> []
      then Operation e @ '': API error '' @ show_int (StatusCode e) @ '': '' @ Message e
      else ''API error '' @ show_int (StatusCode e) @ '': '' @ Message e)"

definition isUnsupportedMechanismMessage :: "string \<Rightarrow> bool" where
  "isUnsupportedMechanismMessage msg =
     (let m = toLower msg
      in if contains m ''mechanism_invalid'' then True
         else if \<not> contains m ''mechanism'' \<and> \<not> contains m ''algorithm'' then False
         else contains m ''not supported'' \<or> contains m ''does not support''
           \<or> contains m ''unsupported'')"

definition mapHTTPError :: "int \<Rightarrow> ck_rv" where
  "mapHTTPError statusCode =
     (if statusCode = 401 then CKR_USER_NOT_LOGGED_IN
      else if statusCode = 403 then CKR_GENERAL_ERROR
      else if statusCode = 404 then CKR_KEY_HANDLE_INVALID
      else if statusCode = 400 then CKR_DATA_INVALID
      else if statusCode \<ge> 500 then CKR_DEVICE_ERROR
      else CKR_GENERAL_ERROR)"

definition mapAPIError :: "APIError \<Rightarrow> ck_rv" where
  "mapAPIError apiErr =
     (if StatusCode apiErr = 400 \<and> isUnsupportedMechanismMessage (Message apiErr)
      then CKR_MECHANISM_INVALID
      else mapHTTPError (StatusCode apiErr))"

section \<open>Return codes of errors\<close>

definition mapErrorToRV :: "go_error \<Rightarrow> ck_rv" where
  "mapErrorToRV err =
     (if errorsIs err ErrNotLoggedIn then CKR_USER_NOT_LOGGED_IN
      else if errorsIs err ErrSessionHandleInvalid then CKR_SESSION_HANDLE_INVALID
      else if errorsIs err ErrSlotIDInvalid then CKR_SLOT_ID_INVALID
      else if errorsIs err ErrSignNotActive \<or> errorsIs err ErrFindNotActive
        then CKR_OPERATION_NOT_INITIALIZED
      else if errorsIs err ErrSignAlreadyActive \<or> errorsIs err ErrFindAlreadyActive
        then CKR_OPERATION_ACTIVE
      else case errorsAsAPI err of
             Some apiErr \<Rightarrow> mapAPIError apiErr
           | None \<Rightarrow> CKR_GENERAL_ERROR)"

section \<open>Facts\<close>

text \<open>The error a chain ends with decides what the chain is and what code it becomes.\<close>

fun rootCause :: "go_error \<Rightarrow> go_error" where
  "rootCause (RequestError op e) = rootCause e"
| "rootCause (Wrapf msg e) = rootCause e"
| "rootCause e = e"

definition is_root :: "go_error \<Rightarrow> bool" where
  "is_root e \<longleftrightarrow> unwrap e = None"

lemma is_root_rootCause [simp]: "is_root (rootCause e)"
  by (induction e) (auto simp: is_root_def)

lemma rootCause_idem [simp]: "rootCause (rootCause e) = rootCause e"
  by (induction e) auto

lemma errorsIs_rootCause: "is_root t \<Longrightarrow> errorsIs e t \<longleftrightarrow> rootCause e = t"
  by (induction e) (auto simp: is_root_def)

lemma errorsAsAPI_rootCause: "errorsAsAPI e = errorsAsAPI (rootCause e)"
  by (induction e) auto

lemma mapErrorToRV_rootCause: "mapErrorToRV e = mapErrorToRV (rootCause e)"
  by (simp add: mapErrorToRV_def errorsIs_rootCause errorsAsAPI_rootCause [of e] is_root_def)

lemma mapErrorToRV_root:
  "mapErrorToRV ErrNotLoggedIn = CKR_USER_NOT_LOGGED_IN"
  "mapErrorToRV ErrSessionHandleInvalid = CKR_SESSION_HANDLE_INVALID"
  "mapErrorToRV ErrSlotIDInvalid = CKR_SLOT_ID_INVALID"
  "mapErrorToRV ErrSignNotActive = CKR_OPERATION_NOT_INITIALIZED"
  "mapErrorToRV ErrFindNotActive = CKR_OPERATION_NOT_INITIALIZED"
  "mapErrorToRV ErrSignAlreadyActive = CKR_OPERATION_ACTIVE"
  "mapErrorToRV ErrFindAlreadyActive = CKR_OPERATION_ACTIVE"
  "mapErrorToRV (API a) = mapAPIError a"
  "mapErrorToRV (Errorf s) = CKR_GENERAL_ERROR"
  "mapErrorToRV ErrAlreadyInitialized = CKR_GENERAL_ERROR"
  by (simp_all add: mapErrorToRV_def)

text \<open>An error never becomes \<^const>\<open>CKR_OK\<close>, nor a code outside a fixed set.\<close>

definition error_codes :: "ck_rv set" where
  "error_codes = {CKR_USER_NOT_LOGGED_IN, CKR_SESSION_HANDLE_INVALID, CKR_SLOT_ID_INVALID,
     CKR_OPERATION_NOT_INITIALIZED, CKR_OPERATION_ACTIVE, CKR_MECHANISM_INVALID,
     CKR_GENERAL_ERROR, CKR_KEY_HANDLE_INVALID, CKR_DATA_INVALID, CKR_DEVICE_ERROR}"

lemma mapAPIError_codes: "mapAPIError a \<in> error_codes"
  by (simp add: mapAPIError_def mapHTTPError_def error_codes_def)

lemma mapErrorToRV_codes: "mapErrorToRV e \<in> error_codes"
  using mapAPIError_codes
  by (auto simp: mapErrorToRV_def error_codes_def split: option.splits)

lemma error_codes_not_OK: "CKR_OK \<notin> error_codes"
  by (simp add: error_codes_def const_vals)

lemma error_codes_not_BUFFER_TOO_SMALL: "CKR_BUFFER_TOO_SMALL \<notin> error_codes"
  by (simp add: error_codes_def const_vals)

lemma error_codes_not_PIN_INCORRECT: "CKR_PIN_INCORRECT \<notin> error_codes"
  by (simp add: error_codes_def const_vals)

lemma mapErrorToRV_not_OK [simp]: "mapErrorToRV e \<noteq> CKR_OK" "CKR_OK \<noteq> mapErrorToRV e"
  using mapErrorToRV_codes [of e] error_codes_not_OK by metis+

lemma mapErrorToRV_not_BUFFER [simp]: "mapErrorToRV e \<noteq> CKR_BUFFER_TOO_SMALL"
  using mapErrorToRV_codes [of e] error_codes_not_BUFFER_TOO_SMALL by metis

text \<open>A request that got no answer, as when the server cannot be reached.\<close>

lemma transport_error_code: "mapErrorToRV (RequestError op (Errorf err)) = CKR_GENERAL_ERROR"
  by (simp add: mapErrorToRV_def)

end
