(* ===== verification/Go_Monad.thy ===== *)
theory Go_Monad
  imports Errors
begin

text \<open>
  The form every operation of the backend has: it reads and writes a state and returns a
  value and an error as Go functions do, or panics. The combinators thread the state through
  a sequence of calls; \<open>bindE\<close> is a call followed by \<^verbatim>\<open>if err != nil { return err }\<close>, \<open>catchE\<close>
  a call whose error the code inspects.
\<close>

type_synonym ('s, 'a) go = "'s \<Rightarrow> ('a result \<times> 's) outcome"

definition returnE :: "'a \<Rightarrow> ('s, 'a) go" where
  "returnE x = (\<lambda>s. Returns (Inr x, s))"

definition throwE :: "go_error \<Rightarrow> ('s, 'a) go" where
  "throwE e = (\<lambda>s. Returns (Inl e, s))"

definition panicE :: "('s, 'a) go" where
  "panicE = (\<lambda>s. Panics)"

definition catchE :: "('s, 'a) go \<Rightarrow> ('a result \<Rightarrow> ('s, 'b) go) \<Rightarrow> ('s, 'b) go" where
  "catchE f h = (\<lambda>s. case f s of Panics \<Rightarrow> Panics | Returns (r, t) \<Rightarrow> h r t)"

definition bindE :: "('s, 'a) go \<Rightarrow> ('a \<Rightarrow> ('s, 'b) go) \<Rightarrow> ('s, 'b) go" where
  "bindE f g = catchE f (\<lambda>r. case r of Inl e \<Rightarrow> throwE e | Inr x \<Rightarrow> g x)"

definition getE :: "('s \<Rightarrow> 'a) \<Rightarrow> ('s, 'a) go" where
  "getE f = (\<lambda>s. Returns (Inr (f s), s))"

definition modifyE :: "('s \<Rightarrow> 's) \<Rightarrow> ('s, unit) go" where
  "modifyE f = (\<lambda>s. Returns (Inr (), f s))"

text \<open>A call that only computes a value and an error.\<close>

definition liftR :: "'a result \<Rightarrow> ('s, 'a) go" where
  "liftR r = (\<lambda>s. Returns (r, s))"

lemmas go_defs = returnE_def throwE_def panicE_def getE_def modifyE_def liftR_def

text \<open>The equations by which a sequence runs.\<close>

lemma catchE_Returns: "f s = Returns (r, t) \<Longrightarrow> catchE f h s = h r t"
  by (simp add: catchE_def)

lemma catchE_Panics: "f s = Panics \<Longrightarrow> catchE f h s = Panics"
  by (simp add: catchE_def)

lemma bindE_Inr: "f s = Returns (Inr x, t) \<Longrightarrow> bindE f g s = g x t"
  by (simp add: bindE_def catchE_def)

lemma bindE_Inl: "f s = Returns (Inl e, t) \<Longrightarrow> bindE f g s = Returns (Inl e, t)"
  by (simp add: bindE_def catchE_def throwE_def)

lemma bindE_Panics: "f s = Panics \<Longrightarrow> bindE f g s = Panics"
  by (simp add: bindE_def catchE_def)

lemma bind_simps [simp]:
  "bindE (returnE x) g = g x"
  "bindE (throwE e) g = throwE e"
  "bindE (getE f) g s = g (f s) s"
  "bindE (modifyE h) k s = k () (h s)"
  "catchE (returnE x) c = c (Inr x)"
  "catchE (throwE e) c = c (Inl e)"
  by (auto simp: bindE_def catchE_def go_defs)

lemma run_simps [simp]:
  "returnE x s = Returns (Inr x, s)"
  "throwE e s = Returns (Inl e, s)"
  "getE f s = Returns (Inr (f s), s)"
  "modifyE h s = Returns (Inr (), h s)"
  "liftR v s = Returns (v, s)"
  "panicE s = Panics"
  by (simp_all add: go_defs)

lemma bindE_assoc: "bindE (bindE f g) h = bindE f (\<lambda>x. bindE (g x) h)"
  by (auto simp: bindE_def catchE_def throwE_def fun_eq_iff split: outcome.splits sum.splits prod.splits)

text \<open>How a sequence that returned came about.\<close>

lemma catchE_ReturnsE:
  assumes "catchE f h s = Returns (r, t)"
  obtains r1 t1 where "f s = Returns (r1, t1)" "h r1 t1 = Returns (r, t)"
  using assms by (auto simp: catchE_def split: outcome.splits prod.splits)

lemma bindE_InrE:
  assumes "bindE f g s = Returns (Inr y, t)"
  obtains x t1 where "f s = Returns (Inr x, t1)" "g x t1 = Returns (Inr y, t)"
  using assms by (auto simp: bindE_def throwE_def elim!: catchE_ReturnsE split: sum.splits)

lemma bindE_ReturnsE:
  assumes "bindE f g s = Returns (r, t)"
  obtains (err) e where "f s = Returns (Inl e, t)" "r = Inl e"
  | (ok) x t1 where "f s = Returns (Inr x, t1)" "g x t1 = Returns (r, t)"
  using assms by (auto simp: bindE_def throwE_def elim!: catchE_ReturnsE split: sum.splits)

section \<open>What a computation keeps\<close>

text \<open>
  A computation keeps a relation when the state it ends in is related to the state it
  started in. For a relation that is reflexive and transitive this follows the structure of
  the computation; the rules are in the collection \<open>preserves\<close>.
\<close>

definition keeps :: "('s \<Rightarrow> 's \<Rightarrow> bool) \<Rightarrow> ('s, 'a) go \<Rightarrow> bool" where
  "keeps R f \<longleftrightarrow> (\<forall>s r t. f s = Returns (r, t) \<longrightarrow> R s t)"

lemma keepsD: "keeps R f \<Longrightarrow> f s = Returns (r, t) \<Longrightarrow> R s t"
  by (simp add: keeps_def)

lemma keepsI: "(\<And>s r t. f s = Returns (r, t) \<Longrightarrow> R s t) \<Longrightarrow> keeps R f"
  by (simp add: keeps_def)

lemma keeps_modify: "(\<And>s. R s (h s)) \<Longrightarrow> keeps R (modifyE h)"
  by (simp add: keeps_def)

locale frame_relation =
  fixes R :: "'s \<Rightarrow> 's \<Rightarrow> bool"
  assumes refl: "R s s" and trans: "R s t \<Longrightarrow> R t u \<Longrightarrow> R s u"
begin

lemma keeps_return [preserves]: "keeps R (returnE x)"
  and keeps_throw [preserves]: "keeps R (throwE e)"
  and keeps_panic [preserves]: "keeps R panicE"
  and keeps_get [preserves]: "keeps R (getE f)"
  and keeps_liftR [preserves]: "keeps R (liftR r)"
  by (simp_all add: keeps_def go_defs refl)

lemma keeps_catch [preserves]:
  assumes "keeps R f" "\<And>r. keeps R (h r)"
  shows "keeps R (catchE f h)"
proof (rule keepsI)
  fix s r t
  assume "catchE f h s = Returns (r, t)"
  then obtain r1 t1 where "f s = Returns (r1, t1)" "h r1 t1 = Returns (r, t)"
    by (rule catchE_ReturnsE)
  with assms keepsD [of R f] keepsD [of R "h r1"] trans show "R s t" by blast
qed

lemma keeps_bind [preserves]:
  assumes "keeps R f" "\<And>x. keeps R (g x)"
  shows "keeps R (bindE f g)"
  unfolding bindE_def using assms
  by (intro keeps_catch) (auto intro: keeps_throw split: sum.splits)

end

lemma keeps_if [preserves]: "keeps R f \<Longrightarrow> keeps R g \<Longrightarrow> keeps R (if b then f else g)"
  by simp

lemma keeps_case_option [preserves]:
  "keeps R f \<Longrightarrow> (\<And>x. keeps R (g x)) \<Longrightarrow> keeps R (case_option f g v)"
  by (cases v) auto

lemma keeps_case_sum [preserves]:
  "(\<And>x. keeps R (f x)) \<Longrightarrow> (\<And>x. keeps R (g x)) \<Longrightarrow> keeps R (case_sum f g v)"
  by (cases v) auto

lemma keeps_case_prod [preserves]: "(\<And>x y. keeps R (f x y)) \<Longrightarrow> keeps R (case_prod f v)"
  by (cases v) auto

lemma keeps_let [preserves]: "(\<And>x. keeps R (f x)) \<Longrightarrow> keeps R (let x = v in f x)"
  by simp

section \<open>Computations that cannot panic\<close>

definition safe :: "('s, 'a) go \<Rightarrow> bool" where
  "safe f \<longleftrightarrow> (\<forall>s. f s \<noteq> Panics)"

named_theorems safety "computations that cannot panic"

lemma safeD: "safe f \<Longrightarrow> \<exists>r t. f s = Returns (r, t)"
  by (metis outcome.exhaust safe_def surj_pair)

lemma safe_basic [safety]:
  "safe (returnE x)" "safe (throwE e)" "safe (getE f)" "safe (modifyE h)" "safe (liftR r)"
  by (simp_all add: safe_def go_defs)

lemma safe_catch [safety]: "safe f \<Longrightarrow> (\<And>r. safe (h r)) \<Longrightarrow> safe (catchE f h)"
  by (fastforce simp: safe_def catchE_def split: outcome.splits prod.splits)

lemma safe_bind [safety]: "safe f \<Longrightarrow> (\<And>x. safe (g x)) \<Longrightarrow> safe (bindE f g)"
  unfolding bindE_def by (rule safe_catch) (auto intro: safe_basic split: sum.splits)

lemma safe_if [safety]: "safe f \<Longrightarrow> safe g \<Longrightarrow> safe (if b then f else g)"
  by simp

lemma safe_case_option [safety]: "safe f \<Longrightarrow> (\<And>x. safe (g x)) \<Longrightarrow> safe (case_option f g v)"
  by (cases v) auto

lemma safe_case_sum [safety]: "(\<And>x. safe (f x)) \<Longrightarrow> (\<And>x. safe (g x)) \<Longrightarrow> safe (case_sum f g v)"
  by (cases v) auto

lemma safe_case_prod [safety]: "(\<And>x y. safe (f x y)) \<Longrightarrow> safe (case_prod f v)"
  by (cases v) auto

lemma safe_let [safety]: "(\<And>x. safe (f x)) \<Longrightarrow> safe (let x = v in f x)"
  by simp

end
