(* ===== verification/Go_Encoding.thy ===== *)
theory Go_Encoding
  imports Go_Strings
begin

text \<open>
  The parts of Go's packages \<^verbatim>\<open>math/big\<close>, \<^verbatim>\<open>encoding/hex\<close>, \<^verbatim>\<open>encoding/base64\<close> and
  \<^verbatim>\<open>encoding/asn1\<close> that the module uses: big-endian numbers, hexadecimal and base64 text,
  and the DER headers, object identifiers and octet strings of a PKCS#1 DigestInfo and of an
  EC public key. Each encoder comes with the round trip through its decoder.
\<close>

section \<open>Big-endian numbers\<close>

text \<open>\<^verbatim>\<open>big.Int.Bytes\<close>: the absolute value, most significant byte first, without leading zeros.\<close>

fun nat_bytes :: "nat \<Rightarrow> bytes" where
  "nat_bytes n = (if n = 0 then [] else nat_bytes (n div 256) @ [of_nat (n mod 256)])"

declare nat_bytes.simps [simp del]

definition bytes_nat :: "bytes \<Rightarrow> nat" where
  "bytes_nat bs = foldl (\<lambda>n b. n * 256 + unat b) 0 bs"

text \<open>\<^verbatim>\<open>big.Int.FillBytes\<close> on a buffer of \<open>k\<close> bytes: zero-extended, and a panic when it does not fit.\<close>

definition fillBytes :: "nat \<Rightarrow> nat \<Rightarrow> bytes outcome" where
  "fillBytes n k =
     (if length (nat_bytes n) \<le> k then Returns (replicate (k - length (nat_bytes n)) 0 @ nat_bytes n)
      else Panics)"

lemma nat_bytes_0 [simp]: "nat_bytes 0 = []"
  by (simp add: nat_bytes.simps)

lemma unat_of_nat_byte [simp]: "n < 256 \<Longrightarrow> unat (of_nat n :: byte) = n"
  by (simp add: unat_of_nat)

lemma unat_byte_less [simp]: "unat (b :: byte) < 256"
  using unsigned_less [of b] by simp

lemma bytes_nat_snoc: "bytes_nat (bs @ [b]) = bytes_nat bs * 256 + unat b"
  by (simp add: bytes_nat_def)

lemma bytes_nat_bytes: "bytes_nat (nat_bytes n) = n"
proof (induction n rule: nat_bytes.induct)
  case (1 n)
  then show ?case
    by (subst nat_bytes.simps) (auto simp: bytes_nat_snoc, simp add: bytes_nat_def)
qed

lemma nat_bytes_no_leading_zero: "n \<noteq> 0 \<Longrightarrow> nat_bytes n \<noteq> [] \<and> hd (nat_bytes n) \<noteq> 0"
proof (induction n rule: nat_bytes.induct)
  case (1 n)
  show ?case
  proof (cases "n div 256 = 0")
    case True
    then have "n < 256" by simp
    have "(of_nat n :: byte) \<noteq> 0"
    proof
      assume "(of_nat n :: byte) = 0"
      then have "unat (of_nat n :: byte) = 0" by simp
      with \<open>n < 256\<close> "1.prems" show False by simp
    qed
    with True "1.prems" \<open>n < 256\<close> show ?thesis by (subst (1 2) nat_bytes.simps) simp
  next
    case False
    with 1 show ?thesis by (subst (1 2) nat_bytes.simps) simp
  qed
qed

section \<open>Hexadecimal text\<close>

definition hex_digit :: "nat \<Rightarrow> char" where
  "hex_digit n = ''0123456789abcdef'' ! n"

definition hexEncode :: "bytes \<Rightarrow> string" where
  "hexEncode bs = concat (map (\<lambda>b. [hex_digit (unat b div 16), hex_digit (unat b mod 16)]) bs)"

lemma length_hexEncode [simp]: "length (hexEncode bs) = 2 * length bs"
  by (induction bs) (auto simp: hexEncode_def)

section \<open>Base64 text\<close>

definition b64_alphabet :: string where
  "b64_alphabet = ''ABCDEFGHIJKLMNOPQRSTUVWXYZabcdefghijklmnopqrstuvwxyz0123456789+/''"

definition b64_char :: "nat \<Rightarrow> char" where
  "b64_char v = b64_alphabet ! v"

definition b64_val :: "char \<Rightarrow> nat option" where
  "b64_val c =
     (if 65 \<le> code c \<and> code c \<le> 90 then Some (code c - 65)
      else if 97 \<le> code c \<and> code c \<le> 122 then Some (code c - 71)
      else if 48 \<le> code c \<and> code c \<le> 57 then Some (code c + 4)
      else if c = CHR ''+'' then Some 62
      else if c = CHR ''/'' then Some 63
      else None)"

text \<open>\<^verbatim>\<open>base64.StdEncoding.EncodeToString\<close>.\<close>

fun b64_encode :: "bytes \<Rightarrow> string" where
  "b64_encode [] = []"
| "b64_encode [a] =
     [b64_char (unat a div 4), b64_char (unat a mod 4 * 16), CHR ''='', CHR ''='']"
| "b64_encode [a, b] =
     [b64_char (unat a div 4), b64_char (unat a mod 4 * 16 + unat b div 16),
      b64_char (unat b mod 16 * 4), CHR ''='']"
| "b64_encode (a # b # c # bs) =
     [b64_char (unat a div 4), b64_char (unat a mod 4 * 16 + unat b div 16),
      b64_char (unat b mod 16 * 4 + unat c div 64), b64_char (unat c mod 64)] @ b64_encode bs"

text \<open>
  \<^verbatim>\<open>base64.StdEncoding.DecodeString\<close>: line ends are skipped wherever they stand, then every
  four characters give up to three bytes; padding is required and ends the text.
\<close>

fun b64_quanta :: "string \<Rightarrow> bytes option" where
  "b64_quanta [] = Some []"
| "b64_quanta (a # b # c # d # s) =
     (case (b64_val a, b64_val b) of
        (Some x, Some y) \<Rightarrow>
          (if c = CHR ''='' then
             (if d = CHR ''='' \<and> s = [] then Some [of_nat (x * 4 + y div 16)] else None)
           else (case b64_val c of
               None \<Rightarrow> None
             | Some z \<Rightarrow>
                 (if d = CHR ''='' then
                    (if s = [] then
                       Some [of_nat (x * 4 + y div 16), of_nat (y mod 16 * 16 + z div 4)]
                     else None)
                  else (case b64_val d of
                      None \<Rightarrow> None
                    | Some w \<Rightarrow>
                        (case b64_quanta s of
                           None \<Rightarrow> None
                         | Some bs \<Rightarrow>
                             Some (of_nat (x * 4 + y div 16) # of_nat (y mod 16 * 16 + z div 4)
                                   # of_nat (z mod 4 * 64 + w) # bs))))))
      | _ \<Rightarrow> None)"
| "b64_quanta s = None"

definition b64_decode :: "string \<Rightarrow> bytes option" where
  "b64_decode s = b64_quanta (filter (\<lambda>c. c \<noteq> CHR 0x0D \<and> c \<noteq> CHR 0x0A) s)"

lemma b64_table:
  "list_all (\<lambda>v. b64_val (b64_char v) = Some v \<and> b64_char v \<noteq> CHR ''=''
     \<and> b64_char v \<noteq> CHR 0x0D \<and> b64_char v \<noteq> CHR 0x0A) [0..<64]"
  by code_simp

lemma b64_char_facts [simp]:
  assumes "v < 64"
  shows "b64_val (b64_char v) = Some v" and "b64_char v \<noteq> CHR ''=''"
    and "b64_char v \<noteq> CHR 0x0D" and "b64_char v \<noteq> CHR 0x0A"
  using b64_table assms by (auto simp: list_all_iff)

lemma byte_of_unat: "n = unat b \<Longrightarrow> of_nat n = (b :: byte)"
  by simp

lemma byte_div:
  fixes b :: nat
  assumes "b < 256"
  shows "b div 4 < 64" and "b div 16 < 16" and "b div 64 < 4"
  using assms by (simp_all add: less_mult_imp_div_less)

lemma b64_bounds:
  fixes a b :: nat
  shows "a mod 4 * 16 < 64" and "a mod 16 * 4 < 64"
    and "b < 256 \<Longrightarrow> a mod 4 * 16 + b div 16 < 64"
    and "b < 256 \<Longrightarrow> a mod 16 * 4 + b div 64 < 64"
  using mod_less_divisor [of 4 a] mod_less_divisor [of 16 a] byte_div [of b] by linarith+

lemma b64_digits:
  fixes b :: nat
  assumes "b < 256"
  shows "b div 16 div 16 = 0" and "b div 16 mod 16 = b div 16"
    and "b div 64 div 4 = 0" and "b div 64 mod 4 = b div 64"
  using byte_div [OF assms] by simp_all

lemma b64_quanta_encode: "b64_quanta (b64_encode bs) = Some bs"
  by (induction bs rule: b64_encode.induct)
     (simp_all add: byte_div b64_bounds b64_digits del: of_nat_add of_nat_mult)

lemma b64_encode_no_newline:
  "filter (\<lambda>c. c \<noteq> CHR 0x0D \<and> c \<noteq> CHR 0x0A) (b64_encode bs) = b64_encode bs"
  by (induction bs rule: b64_encode.induct) (simp_all add: byte_div b64_bounds)

lemma b64_decode_encode: "b64_decode (b64_encode bs) = Some bs"
  by (simp add: b64_decode_def b64_encode_no_newline b64_quanta_encode)

section \<open>DER\<close>

text \<open>
  The header of a DER value as \<^verbatim>\<open>parseTagAndLength\<close> of \<^verbatim>\<open>encoding/asn1\<close> reads it. Bit
  fields of a byte are written as quotients and remainders: \<^verbatim>\<open>b >> 6\<close> is division by 64,
  \<^verbatim>\<open>b & 0x1f\<close> the remainder by 32. A parser returns what it read and the rest of the input,
  or \<^const>\<open>None\<close> where the library returns a syntax or structural error.
\<close>

record der_header =
  der_class :: nat
  der_compound :: bool
  der_tag :: nat
  der_length :: nat

text \<open>\<^verbatim>\<open>parseBase128Int\<close>: at most four bytes, minimal, below \<open>2 ^ 31\<close>.\<close>

fun parseBase128 :: "nat \<Rightarrow> nat \<Rightarrow> bytes \<Rightarrow> (nat \<times> bytes) option" where
  "parseBase128 shifted v [] = None"
| "parseBase128 shifted v (b # bs) =
     (if shifted = 5 \<or> shifted = 0 \<and> b = 0x80 then None
      else let v' = v * 128 + unat b mod 128
           in if unat b < 128 then (if v' > 2147483647 then None else Some (v', bs))
              else parseBase128 (Suc shifted) v' bs)"

text \<open>The loop over the bytes of a long-form length.\<close>

fun parseLongLength :: "nat \<Rightarrow> nat \<Rightarrow> bytes \<Rightarrow> (nat \<times> bytes) option" where
  "parseLongLength 0 len bs = (if len < 128 then None else Some (len, bs))"
| "parseLongLength (Suc k) len [] = None"
| "parseLongLength (Suc k) len (b # bs) =
     (if len \<ge> 2 ^ 23 then None
      else let len' = len * 256 + unat b
           in if len' = 0 then None else parseLongLength k len' bs)"

definition parseLength :: "bytes \<Rightarrow> (nat \<times> bytes) option" where
  "parseLength bs =
     (case bs of
        [] \<Rightarrow> None
      | b # rest \<Rightarrow>
          if unat b < 128 then Some (unat b, rest)
          else if unat b = 128 then None
          else parseLongLength (unat b - 128) 0 rest)"

definition parseTagAndLength :: "bytes \<Rightarrow> (der_header \<times> bytes) option" where
  "parseTagAndLength bs =
     (case bs of
        [] \<Rightarrow> None
      | b # rest \<Rightarrow>
          (case (if unat b mod 32 = 31 then
                   (case parseBase128 0 0 rest of
                      None \<Rightarrow> None
                    | Some (t, r) \<Rightarrow> if t < 31 then None else Some (t, r))
                 else Some (unat b mod 32, rest)) of
             None \<Rightarrow> None
           | Some (t, r) \<Rightarrow>
               (case parseLength r of
                  None \<Rightarrow> None
                | Some (len, r') \<Rightarrow>
                    Some (\<lparr>der_class = unat b div 64, der_compound = (unat b div 32 mod 2 = 1),
                           der_tag = t, der_length = len\<rparr>, r'))))"

text \<open>
  One value: its header, its content and what follows; \<^const>\<open>None\<close> also when the content is
  shorter than the header says (\<^verbatim>\<open>invalidLength\<close>).
\<close>

definition parseValue :: "bytes \<Rightarrow> (der_header \<times> bytes \<times> bytes) option" where
  "parseValue bs =
     (case parseTagAndLength bs of
        None \<Rightarrow> None
      | Some (h, r) \<Rightarrow>
          if der_length h > length r then None
          else Some (h, take (der_length h) r, drop (der_length h) r))"

text \<open>A value of a universal type: class 0 and the given tag and constructed bit.\<close>

definition parseUniversal :: "nat \<Rightarrow> bool \<Rightarrow> bytes \<Rightarrow> (bytes \<times> bytes) option" where
  "parseUniversal tag compound bs =
     (case parseValue bs of
        None \<Rightarrow> None
      | Some (h, content, rest) \<Rightarrow>
          if der_class h = 0 \<and> der_tag h = tag \<and> der_compound h = compound
          then Some (content, rest) else None)"

text \<open>\<^verbatim>\<open>parseObjectIdentifier\<close>.\<close>

function parseArcs :: "bytes \<Rightarrow> nat list option" where
  "parseArcs bs =
     (if bs = [] then Some []
      else case parseBase128 0 0 bs of
             None \<Rightarrow> None
           | Some (v, rest) \<Rightarrow>
               if length rest < length bs then map_option ((#) v) (parseArcs rest) else None)"
  by pat_completeness auto
termination by (relation "measure length") auto

declare parseArcs.simps [simp del]

definition parseObjectIdentifier :: "bytes \<Rightarrow> nat list option" where
  "parseObjectIdentifier bs =
     (case parseArcs bs of
        Some (v # arcs) \<Rightarrow>
          Some (if v < 80 then v div 40 # v mod 40 # arcs else 2 # (v - 80) # arcs)
      | _ \<Rightarrow> None)"

lemma parseBase128_shorter: "parseBase128 k v bs = Some (n, rest) \<Longrightarrow> length rest < length bs"
  by (induction k v bs arbitrary: n rest rule: parseBase128.induct)
     (force simp: Let_def split: if_splits)+

text \<open>The guard in \<^const>\<open>parseArcs\<close> only serves its termination: it never fails.\<close>

lemma parseArcs_Cons:
  "bs \<noteq> [] \<Longrightarrow> parseArcs bs =
     (case parseBase128 0 0 bs of None \<Rightarrow> None
      | Some (v, rest) \<Rightarrow> map_option ((#) v) (parseArcs rest))"
  by (subst parseArcs.simps) (auto split: option.splits dest: parseBase128_shorter)

lemma parseArcs_Nil [simp]: "parseArcs [] = Some []"
  by (simp add: parseArcs.simps)

subsection \<open>Parsers consume a prefix\<close>

lemma parseBase128_suffix: "parseBase128 k v bs = Some (n, r) \<Longrightarrow> suffix r bs"
  by (induction k v bs arbitrary: n r rule: parseBase128.induct)
     (auto simp: Let_def suffix_ConsI split: if_splits)

lemma parseLongLength_suffix: "parseLongLength k l bs = Some (n, r) \<Longrightarrow> suffix r bs"
  by (induction k l bs arbitrary: n r rule: parseLongLength.induct)
     (auto simp: Let_def suffix_ConsI split: if_splits)

lemma parseLength_suffix: "parseLength bs = Some (n, r) \<Longrightarrow> suffix r bs"
  by (auto simp: parseLength_def suffix_ConsI dest: parseLongLength_suffix
      split: list.splits if_splits)

lemma parseTagAndLength_suffix: "parseTagAndLength bs = Some (h, r) \<Longrightarrow> suffix r bs"
  by (auto simp: parseTagAndLength_def split: list.splits option.splits if_splits
      dest!: parseBase128_suffix parseLength_suffix intro!: suffix_ConsI
      intro: suffix_order.trans)

lemma parseValue_suffix: "parseValue bs = Some (h, c, r) \<Longrightarrow> suffix (c @ r) bs"
  by (auto simp: parseValue_def split: option.splits if_splits)
     (erule parseTagAndLength_suffix)

lemma parseUniversal_suffix: "parseUniversal t b bs = Some (c, r) \<Longrightarrow> suffix (c @ r) bs"
  by (auto simp: parseUniversal_def split: option.splits if_splits dest: parseValue_suffix)

lemma suffix_app_sublist: "suffix (c @ r) bs \<Longrightarrow> sublist c bs \<and> sublist r bs"
  by (auto simp: suffix_def sublist_def) (metis append_assoc append_Nil2)+

subsection \<open>Encoding\<close>

text \<open>\<^verbatim>\<open>asn1.Marshal\<close> of headers, object identifiers and octet strings.\<close>

function base128_high :: "nat \<Rightarrow> bytes" where
  "base128_high n = (if n = 0 then [] else base128_high (n div 128) @ [of_nat (128 + n mod 128)])"
  by pat_completeness auto
termination by (relation "measure id") auto

declare base128_high.simps [simp del]

definition base128 :: "nat \<Rightarrow> bytes" where
  "base128 n = base128_high (n div 128) @ [of_nat (n mod 128)]"

definition encodeLength :: "nat \<Rightarrow> bytes" where
  "encodeLength n =
     (if n < 128 then [of_nat n] else of_nat (128 + length (nat_bytes n)) # nat_bytes n)"

definition derValue :: "nat \<Rightarrow> bytes \<Rightarrow> bytes" where
  "derValue tagByte content = of_nat tagByte # encodeLength (length content) @ content"

definition marshalOID :: "nat list \<Rightarrow> bytes option" where
  "marshalOID oid =
     (case oid of
        a # b # arcs \<Rightarrow>
          if a > 2 \<or> a < 2 \<and> b \<ge> 40 then None
          else Some (derValue 6 (base128 (a * 40 + b) @ concat (map base128 arcs)))
      | _ \<Rightarrow> None)"

definition marshalOctetString :: "bytes \<Rightarrow> bytes" where
  "marshalOctetString bs = derValue 4 bs"

subsection \<open>Round trips\<close>

lemma foldl_bytes_ge: "(n :: nat) \<le> foldl (\<lambda>n b. n * 256 + unat (b :: byte)) n bs"
proof (induction bs arbitrary: n)
  case (Cons b bs)
  have "n \<le> n * 256 + unat b" by simp
  also have "\<dots> \<le> foldl (\<lambda>n b. n * 256 + unat b) (n * 256 + unat b) bs" by (rule Cons.IH)
  finally show ?case by simp
qed simp

lemma parseLongLength_bytes:
  "foldl (\<lambda>n b. n * 256 + unat b) acc bs = n \<Longrightarrow> 128 \<le> n \<Longrightarrow> n < 2 ^ 31 \<Longrightarrow>
   acc \<noteq> 0 \<or> bs = [] \<or> hd bs \<noteq> 0 \<Longrightarrow>
   parseLongLength (length bs) acc (bs @ r) = Some (n, r)"
proof (induction bs arbitrary: acc)
  case (Cons b bs)
  have "acc * 256 + unat b \<le> n"
    using foldl_bytes_ge [of "acc * 256 + unat b" bs] Cons.prems(1) by simp
  then have small: "acc < 2 ^ 23" using Cons.prems(3) by simp
  have nz: "acc * 256 + unat b \<noteq> 0" using Cons.prems(4) by (auto simp: unat_eq_zero)
  have "parseLongLength (length bs) (acc * 256 + unat b) (bs @ r) = Some (n, r)"
    using Cons.prems nz by (intro Cons.IH) auto
  with small nz show ?case by (simp add: Let_def)
qed simp

lemma length_nat_bytes_le: "n < 256 ^ k \<Longrightarrow> length (nat_bytes n) \<le> k"
proof (induction k arbitrary: n)
  case (Suc k)
  have "n div 256 < 256 ^ k" using Suc.prems by (simp add: less_mult_imp_div_less mult.commute)
  with Suc.IH [of "n div 256"] show ?case by (subst nat_bytes.simps) simp
qed simp

lemma parseLength_encodeLength:
  assumes "n < 2 ^ 31"
  shows "parseLength (encodeLength n @ r) = Some (n, r)"
proof (cases "n < 128")
  case False
  let ?k = "length (nat_bytes n)"
  have ne: "nat_bytes n \<noteq> []" "hd (nat_bytes n) \<noteq> 0"
    using nat_bytes_no_leading_zero [of n] False by auto
  have k: "?k \<le> 4" using assms by (intro length_nat_bytes_le) simp
  then have u: "unat (of_nat (128 + ?k) :: byte) = 128 + ?k"
    by (intro unat_of_nat_byte) simp
  have "parseLongLength ?k 0 (nat_bytes n @ r) = Some (n, r)"
    using bytes_nat_bytes [of n] assms False ne
    by (intro parseLongLength_bytes) (auto simp: bytes_nat_def)
  with False u ne show ?thesis
    by (simp add: parseLength_def encodeLength_def del: of_nat_add)
qed (simp add: parseLength_def encodeLength_def)

lemma parseValue_derValue:
  assumes "tagByte < 256" "tagByte mod 32 \<noteq> 31" "length content < 2 ^ 31"
  shows "parseValue (derValue tagByte content @ r) =
    Some (\<lparr>der_class = tagByte div 64, der_compound = (tagByte div 32 mod 2 = 1),
           der_tag = tagByte mod 32, der_length = length content\<rparr>, content, r)"
  using assms
  by (simp add: parseValue_def parseTagAndLength_def derValue_def parseLength_encodeLength)

lemma parseBase128_bytes:
  "\<forall>h \<in> set hs. 128 \<le> unat h \<Longrightarrow> unat b < 128 \<Longrightarrow> k + length hs < 5 \<Longrightarrow>
   k = 0 \<longrightarrow> hs = [] \<or> hd hs \<noteq> 0x80 \<Longrightarrow>
   foldl (\<lambda>n b. n * 128 + unat b mod 128) v (hs @ [b]) = n \<Longrightarrow> n \<le> 2147483647 \<Longrightarrow>
   parseBase128 k v (hs @ b # r) = Some (n, r)"
proof (induction hs arbitrary: k v)
  case Nil
  then have "b \<noteq> 0x80" by auto
  with Nil show ?case by (auto simp: Let_def)
next
  case (Cons h hs)
  then have "parseBase128 (Suc k) (v * 128 + unat h mod 128) (hs @ b # r) = Some (n, r)"
    by (intro Cons.IH) auto
  with Cons.prems show ?case by (auto simp: Let_def)
qed

lemma unat_high_byte: "unat (of_nat (128 + n mod 128) :: byte) = 128 + n mod 128"
proof -
  have "n mod 128 < 128" by simp
  then have "128 + n mod 128 < 256" by linarith
  then show ?thesis by (rule unat_of_nat_byte)
qed

lemma base128_high_0 [simp]: "base128_high 0 = []"
  by (simp add: base128_high.simps)

lemma base128_high_snoc:
  "n \<noteq> 0 \<Longrightarrow> base128_high n = base128_high (n div 128) @ [of_nat (128 + n mod 128)]"
  by (subst base128_high.simps) (simp del: of_nat_add)

lemma base128_high_ge: "h \<in> set (base128_high n) \<Longrightarrow> 128 \<le> unat h"
proof (induction n rule: base128_high.induct)
  case (1 n)
  have last: "128 \<le> unat (of_nat (128 + n mod 128) :: byte)" by (simp only: unat_high_byte)
  show ?case
    using 1 last by (cases "n = 0") (auto simp: base128_high_snoc simp del: of_nat_add)
qed

lemma length_base128_high_le: "n < 128 ^ k \<Longrightarrow> length (base128_high n) \<le> k"
proof (induction k arbitrary: n)
  case 0
  then show ?case by (simp add: base128_high.simps)
next
  case (Suc k)
  have "n div 128 < 128 ^ k" using Suc.prems by (simp add: less_mult_imp_div_less mult.commute)
  with Suc.IH [of "n div 128"] show ?case by (subst base128_high.simps) simp
qed

lemma foldl_base128_high:
  "foldl (\<lambda>n b. n * 128 + unat b mod 128) 0 (base128_high n) = n"
proof (induction n rule: base128_high.induct)
  case (1 n)
  then show ?case
    by (cases "n = 0") (simp_all add: base128_high_snoc unat_high_byte del: of_nat_add)
qed

lemma hd_base128_high: "base128_high n \<noteq> [] \<Longrightarrow> hd (base128_high n) \<noteq> 0x80"
proof (induction n rule: base128_high.induct)
  case (1 n)
  then have n: "n \<noteq> 0" using base128_high_0 by metis
  show ?case
  proof (cases "n div 128 = 0")
    case True
    then have one: "base128_high n = [of_nat (128 + n mod 128)]"
      using base128_high_snoc [OF n] by simp
    have "unat (of_nat (128 + n mod 128) :: byte) \<noteq> unat (0x80 :: byte)"
      using n True by (simp add: unat_high_byte div_eq_0_iff del: of_nat_add)
    then show ?thesis unfolding one list.sel by metis
  next
    case False
    then have ne: "base128_high (n div 128) \<noteq> []" by (simp add: base128_high_snoc)
    with 1 n have "hd (base128_high (n div 128)) \<noteq> 0x80" by simp
    with ne show ?thesis by (simp only: base128_high_snoc [OF n]) simp
  qed
qed

lemma parseBase128_base128:
  assumes "n < 2 ^ 31"
  shows "parseBase128 0 0 (base128 n @ r) = Some (n, r)"
proof -
  have "n div 128 < 128 ^ 4" using assms by simp
  then have "length (base128_high (n div 128)) \<le> 4" by (rule length_base128_high_le)
  then have "parseBase128 0 0 (base128_high (n div 128) @ of_nat (n mod 128) # r) = Some (n, r)"
    using assms hd_base128_high [of "n div 128"]
    by (intro parseBase128_bytes) (auto simp: base128_high_ge foldl_base128_high)
  then show ?thesis by (simp add: base128_def)
qed

lemma base128_nonempty [simp]: "base128 n \<noteq> []"
  by (simp add: base128_def)

lemma parseArcs_base128:
  "\<forall>n \<in> set ns. n < 2 ^ 31 \<Longrightarrow> parseArcs (concat (map base128 ns)) = Some ns"
proof (induction ns)
  case (Cons n ns)
  then show ?case by (simp add: parseArcs_Cons parseBase128_base128)
qed simp

text \<open>Object identifiers survive marshalling and parsing.\<close>

lemma parseObjectIdentifier_marshal:
  assumes "a \<le> 2" "a < 2 \<longrightarrow> b < 40" "\<forall>n \<in> set ((a * 40 + b) # arcs). n < 2 ^ 31"
  shows "parseObjectIdentifier (base128 (a * 40 + b) @ concat (map base128 arcs)) =
    Some (a # b # arcs)"
proof -
  have "parseArcs (concat (map base128 ((a * 40 + b) # arcs))) = Some ((a * 40 + b) # arcs)"
    using assms(3) by (rule parseArcs_base128)
  moreover have "a = 0 \<or> a = 1 \<or> a = 2" using assms(1) by auto
  ultimately show ?thesis using assms(2) by (auto simp: parseObjectIdentifier_def)
qed

end
