(* ===== verification/Go_Sha2.thy ===== *)
theory Go_Sha2
  imports Go_Encoding
begin

text \<open>
  The functions \<^verbatim>\<open>sha256.Sum256\<close>, \<^verbatim>\<open>sha512.Sum384\<close> and \<^verbatim>\<open>sha512.Sum512\<close> of Go's crypto
  packages, as FIPS 180-4 defines them. The compression functions of the two word sizes
  differ only in their constants, so they are one definition over a word type, with its
  rotation amounts as arguments.
\<close>

section \<open>Compression\<close>

type_synonym 'l hash_state =
  "'l word \<times> 'l word \<times> 'l word \<times> 'l word \<times> 'l word \<times> 'l word \<times> 'l word \<times> 'l word"

definition sha_ch :: "'l::len word \<Rightarrow> 'l word \<Rightarrow> 'l word \<Rightarrow> 'l word" where
  "sha_ch x y z = (x AND y) XOR (NOT x AND z)"

definition sha_maj :: "'l::len word \<Rightarrow> 'l word \<Rightarrow> 'l word \<Rightarrow> 'l word" where
  "sha_maj x y z = (x AND y) XOR (x AND z) XOR (y AND z)"

definition rotr3 :: "nat \<times> nat \<times> nat \<Rightarrow> 'l::len word \<Rightarrow> 'l word" where
  "rotr3 r x = (case r of (a, b, c) \<Rightarrow> word_rotr a x XOR word_rotr b x XOR word_rotr c x)"

definition rotr2_shift :: "nat \<times> nat \<times> nat \<Rightarrow> 'l::len word \<Rightarrow> 'l word" where
  "rotr2_shift r x = (case r of (a, b, c) \<Rightarrow> word_rotr a x XOR word_rotr b x XOR drop_bit c x)"

text \<open>The message schedule, newest word first, extended by \<open>n\<close> words.\<close>

fun sha_schedule ::
  "nat \<times> nat \<times> nat \<Rightarrow> nat \<times> nat \<times> nat \<Rightarrow> nat \<Rightarrow> 'l::len word list \<Rightarrow> 'l word list" where
  "sha_schedule s0 s1 0 ws = ws"
| "sha_schedule s0 s1 (Suc n) ws =
     sha_schedule s0 s1 n
       ((rotr2_shift s1 (ws ! 1) + ws ! 6 + rotr2_shift s0 (ws ! 14) + ws ! 15) # ws)"

definition sha_round ::
  "nat \<times> nat \<times> nat \<Rightarrow> nat \<times> nat \<times> nat \<Rightarrow> 'l::len word \<times> 'l word \<Rightarrow> 'l hash_state \<Rightarrow> 'l hash_state"
where
  "sha_round e0 e1 kw st =
     (case (kw, st) of ((k, w), (a, b, c, d, e, f, g, h)) \<Rightarrow>
        let t1 = h + rotr3 e1 e + sha_ch e f g + k + w;
            t2 = rotr3 e0 a + sha_maj a b c
        in (t1 + t2, a, b, c, d + t1, e, f, g))"

definition add_state :: "'l::len hash_state \<Rightarrow> 'l hash_state \<Rightarrow> 'l hash_state" where
  "add_state s t =
     (case (s, t) of ((a, b, c, d, e, f, g, h), (a', b', c', d', e', f', g', h')) \<Rightarrow>
        (a + a', b + b', c + c', d + d', e + e', f + f', g + g', h + h'))"

section \<open>Padding\<close>

text \<open>A big-endian number of \<open>k\<close> bytes.\<close>

definition be_bytes :: "nat \<Rightarrow> nat \<Rightarrow> bytes" where
  "be_bytes k n = map (\<lambda>i. of_nat (n div 256 ^ (k - 1 - i))) [0..<k]"

text \<open>
  The padded message: a one bit, zeros up to a multiple of the block size \<open>b\<close>, and the bit
  length in \<open>l\<close> bytes.
\<close>

definition sha_pad :: "nat \<Rightarrow> nat \<Rightarrow> bytes \<Rightarrow> bytes" where
  "sha_pad b l msg =
     (let n = length msg
      in msg @ [0x80] @ replicate ((b - (n + 1 + l) mod b) mod b) 0 @ be_bytes l (8 * n))"

function chunks :: "nat \<Rightarrow> 'a list \<Rightarrow> 'a list list" where
  "chunks k xs = (if k = 0 \<or> xs = [] then [] else take k xs # chunks k (drop k xs))"
  by pat_completeness auto
termination by (relation "measure (\<lambda>(k, xs). length xs)") auto

declare chunks.simps [simp del]

definition word_of_bytes :: "bytes \<Rightarrow> 'l::len word" where
  "word_of_bytes bs = of_nat (bytes_nat bs)"

definition state_bytes :: "nat \<Rightarrow> 'l::len hash_state \<Rightarrow> bytes" where
  "state_bytes k st =
     (case st of (a, b, c, d, e, f, g, h) \<Rightarrow>
        concat (map (\<lambda>w. be_bytes k (unat w)) [a, b, c, d, e, f, g, h]))"

section \<open>Constants\<close>

text \<open>
  The constants are the leading bits of fractional parts: of the cube roots of the first
  primes (one per round) and of the square roots of the first sixteen. \<open>rootBits\<close> finds the
  largest number whose \<open>k\<close>-th power is at most \<open>n\<close>, bit by bit.
\<close>

definition primes_below :: "nat \<Rightarrow> nat list" where
  "primes_below n = filter (\<lambda>p. list_all (\<lambda>d. p mod d \<noteq> 0) [2..<p]) [2..<n]"

fun rootBits :: "nat \<Rightarrow> nat \<Rightarrow> nat \<Rightarrow> nat \<Rightarrow> nat" where
  "rootBits k n 0 m = m"
| "rootBits k n (Suc i) m = rootBits k n i (if (m + 2 ^ i) ^ k \<le> n then m + 2 ^ i else m)"

definition fractionBits :: "nat \<Rightarrow> nat \<Rightarrow> nat \<Rightarrow> nat" where
  "fractionBits k b p = rootBits k (p * 2 ^ (k * b)) (b + 6) 0 mod 2 ^ b"

definition rootState :: "nat \<Rightarrow> nat list \<Rightarrow> 'l::len hash_state" where
  "rootState b ps =
     (let w = \<lambda>i. of_nat (fractionBits 2 b (ps ! i))
      in (w 0, w 1, w 2, w 3, w 4, w 5, w 6, w 7))"

section \<open>SHA-256\<close>

definition sha256_K :: "32 word list" where
  "sha256_K = map (\<lambda>p. of_nat (fractionBits 3 32 p)) (primes_below 312)"

definition sha256_H :: "32 hash_state" where
  "sha256_H = rootState 32 (primes_below 20)"

definition sha256_block :: "32 hash_state \<Rightarrow> bytes \<Rightarrow> 32 hash_state" where
  "sha256_block st block =
     (let ws = rev (sha_schedule (7, 18, 3) (17, 19, 10) 48 (rev (map word_of_bytes (chunks 4 block))))
      in add_state st (fold (sha_round (2, 13, 22) (6, 11, 25)) (zip sha256_K ws) st))"

definition sum256 :: "bytes \<Rightarrow> bytes" where
  "sum256 msg = state_bytes 4 (foldl sha256_block sha256_H (chunks 64 (sha_pad 64 8 msg)))"

section \<open>SHA-512 and SHA-384\<close>

definition sha512_K :: "64 word list" where
  "sha512_K = map (\<lambda>p. of_nat (fractionBits 3 64 p)) (primes_below 410)"

definition sha512_H :: "64 hash_state" where
  "sha512_H = rootState 64 (primes_below 20)"

definition sha384_H :: "64 hash_state" where
  "sha384_H = rootState 64 (drop 8 (primes_below 54))"

definition sha512_block :: "64 hash_state \<Rightarrow> bytes \<Rightarrow> 64 hash_state" where
  "sha512_block st block =
     (let ws = rev (sha_schedule (1, 8, 7) (19, 61, 6) 64 (rev (map word_of_bytes (chunks 8 block))))
      in add_state st (fold (sha_round (28, 34, 39) (14, 18, 41)) (zip sha512_K ws) st))"

definition sum512 :: "bytes \<Rightarrow> bytes" where
  "sum512 msg = state_bytes 8 (foldl sha512_block sha512_H (chunks 128 (sha_pad 128 16 msg)))"

definition sum384 :: "bytes \<Rightarrow> bytes" where
  "sum384 msg =
     take 48 (state_bytes 8 (foldl sha512_block sha384_H (chunks 128 (sha_pad 128 16 msg))))"

section \<open>Lengths\<close>

lemma length_be_bytes [simp]: "length (be_bytes k n) = k"
  by (simp add: be_bytes_def)

lemma length_state_bytes [simp]: "length (state_bytes k st) = 8 * k"
  by (simp add: state_bytes_def split: prod.splits)

lemma length_sums [simp]:
  "length (sum256 msg) = 32" "length (sum384 msg) = 48" "length (sum512 msg) = 64"
  by (simp_all add: sum256_def sum384_def sum512_def)

end
