(* ===== verification/Signing_Context.thy ===== *)
theory Signing_Context
  imports Go_Sha2 Errors
begin

text \<open>
  \<^verbatim>\<open>signing_context.go\<close> and its per-platform files: what the module reports about the process
  that signs. The command line is read from the operating system, redacted, joined and
  truncated; the result and the other facts are captured once and go into the metadata of
  every sign request and into the scope of an approval request.
\<close>

section \<open>Scope fields\<close>

definition scopeFieldCommand :: string where "scopeFieldCommand = ''command''"
definition scopeFieldSigningApplication :: string where
  "scopeFieldSigningApplication = ''signing_application''"
definition scopeFieldSigningApplicationHash :: string where
  "scopeFieldSigningApplicationHash = ''signing_application_hash''"
definition scopeFieldHostname :: string where "scopeFieldHostname = ''hostname''"
definition scopeFieldOSUsername :: string where "scopeFieldOSUsername = ''os_username''"
definition scopeFieldIPAddress :: string where "scopeFieldIPAddress = ''ip_address''"
definition scopeFieldDataHash :: string where "scopeFieldDataHash = ''data_hash''"

lemmas scopeField_defs = scopeFieldCommand_def scopeFieldSigningApplication_def
  scopeFieldSigningApplicationHash_def scopeFieldHostname_def scopeFieldOSUsername_def
  scopeFieldIPAddress_def scopeFieldDataHash_def

definition ScopeFieldNames :: "string list" where
  "ScopeFieldNames =
     [scopeFieldCommand, scopeFieldSigningApplication, scopeFieldSigningApplicationHash,
      scopeFieldHostname, scopeFieldOSUsername, scopeFieldIPAddress, scopeFieldDataHash]"

fun ValidateScopeExclusions :: "string list \<Rightarrow> go_error option" where
  "ValidateScopeExclusions [] = None"
| "ValidateScopeExclusions (name # excluded) =
     (if \<not> List.member ScopeFieldNames name then Some (Errorf ''unknown scope field'')
      else ValidateScopeExclusions excluded)"

section \<open>Redaction\<close>

definition maxCommandLen :: nat where "maxCommandLen = 32767"

definition redactedValue :: string where "redactedValue = ''***''"

definition secretCommandFlags :: "string list" where
  "secretCommandFlags =
     [''storepass'', ''keypass'', ''pass'', ''passin'', ''passout'', ''password'', ''passphrase'',
      ''pin'', ''p'', ''pw'']"

definition flagName :: "string \<Rightarrow> string" where
  "flagName tok =
     (if hasPrefix tok ''--'' then toLower (drop 2 tok)
      else if hasPrefix tok ''-'' \<or> hasPrefix tok ''/'' then toLower (drop 1 tok)
      else [])"

definition hasSecretSuffix :: "string \<Rightarrow> bool" where
  "hasSecretSuffix name \<longleftrightarrow>
     hasSuffix name ''password'' \<or> hasSuffix name ''passphrase'' \<or> hasSuffix name ''passwd''"

definition isSecretFlagName :: "string \<Rightarrow> bool \<Rightarrow> bool" where
  "isSecretFlagName name hasInlineValue =
     (if name = [] then False
      else if List.member secretCommandFlags name \<or> hasSecretSuffix name then True
      else if \<not> hasInlineValue then False
      else let subKey = afterLastAny name '':._''
           in List.member secretCommandFlags subKey \<or> hasSecretSuffix subKey)"

text \<open>
  What the loop of \<^verbatim>\<open>redactCommandArgs\<close> computes of one argument: the key before the first
  \<^verbatim>\<open>=\<close>, whether there is one, and whether the argument names a secret.
\<close>

definition argKey :: "string \<Rightarrow> string" where
  "argKey arg = fst (cut arg CHR ''='')"

definition argInline :: "string \<Rightarrow> bool" where
  "argInline arg = snd (snd (cut arg CHR ''=''))"

definition argSecret :: "string \<Rightarrow> bool" where
  "argSecret arg =
     (let name = flagName (argKey arg);
          name = (if name = [] \<and> argInline arg then toLower (argKey arg) else name)
      in isSecretFlagName name (argInline arg))"

text \<open>The last step of the loop: a value after the colon of a secret flag, as in \<^verbatim>\<open>-pass:secret\<close>.\<close>

definition redactColon :: "string \<Rightarrow> string" where
  "redactColon arg =
     (case indexChar arg CHR '':'' of
        None \<Rightarrow> arg
      | Some colon \<Rightarrow>
          if colon > 0 \<and> \<not> argInline arg \<and> isSecretFlagName (flagName (take colon arg)) False
          then take (colon + 1) arg @ redactedValue else arg)"

text \<open>The loop; its first argument is the variable \<^verbatim>\<open>redactValue\<close>.\<close>

fun redactLoop :: "bool \<Rightarrow> string list \<Rightarrow> string list" where
  "redactLoop redactValue [] = []"
| "redactLoop redactValue (arg # args) =
     (if redactValue \<and> \<not> argSecret arg then redactedValue # redactLoop False args
      else if argSecret arg then
        (if argInline arg then (argKey arg @ ''='' @ redactedValue) # redactLoop False args
         else arg # redactLoop True args)
      else redactColon arg # redactLoop False args)"

definition redactCommandArgs :: "string list \<Rightarrow> string list" where
  "redactCommandArgs args = redactLoop False args"

section \<open>Joining and truncating\<close>

definition renderArg :: "string \<Rightarrow> string" where
  "renderArg arg =
     (if arg = [] then ''\"\"''
      else if CHR '' '' \<in> set arg \<or> CHR 0x09 \<in> set arg then ''\"'' @ arg @ ''\"''
      else arg)"

definition joinCommandArgs :: "string list \<Rightarrow> string" where
  "joinCommandArgs args = joinWith '' '' (map renderArg args)"

text \<open>The loop that moves the cut back to the start of a rune.\<close>

fun cutBack :: "string \<Rightarrow> nat \<Rightarrow> nat" where
  "cutBack command 0 = 0"
| "cutBack command (Suc n) =
     (if \<not> runeStart (command ! Suc n) then cutBack command n else Suc n)"

definition truncateCommand :: "string \<Rightarrow> string" where
  "truncateCommand command =
     (if length command \<le> maxCommandLen then command
      else take (cutBack command maxCommandLen) command)"

section \<open>The operating system\<close>

text \<open>
  What the module asks of the operating system. Every field is the answer of one call of
  Go's packages \<^verbatim>\<open>os\<close>, \<^verbatim>\<open>os/user\<close> or \<^verbatim>\<open>golang.org/x/sys\<close>; \<^const>\<open>None\<close> stands for an error.
\<close>

record os =
  os_goos :: string
  os_getenv :: "string \<Rightarrow> string"
  os_readFile :: "string \<Rightarrow> bytes option"
  os_executable :: "string option"
  os_hostname :: "string option"
  os_user :: "string option"
  os_args :: "string list"
  os_procargs2 :: "bytes option"
  os_windowsArgs :: "string list option"

text \<open>\<^verbatim>\<open>signing_context_linux.go\<close>.\<close>

definition processCommandLine_linux :: "os \<Rightarrow> string list" where
  "processCommandLine_linux os =
     (case os_readFile os ''/proc/self/cmdline'' of
        None \<Rightarrow> os_args os
      | Some raw \<Rightarrow>
          let trimmed = trimRightChar (string_of_bytes raw) CHR 0x00
          in if trimmed = [] then os_args os else splitOn CHR 0x00 trimmed)"

text \<open>
  \<^verbatim>\<open>signing_context_darwin.go\<close>: the loop that reads up to \<open>argc\<close> NUL-terminated strings.
\<close>

fun readArgs :: "nat \<Rightarrow> bytes \<Rightarrow> string list" where
  "readArgs 0 rest = []"
| "readArgs (Suc n) rest =
     (if rest = [] then []
      else if 0 \<notin> set rest then [string_of_bytes rest]
      else string_of_bytes (takeWhile (\<lambda>b. b \<noteq> 0) rest)
             # readArgs n (drop 1 (dropWhile (\<lambda>b. b \<noteq> 0) rest)))"

definition processCommandLine_darwin :: "os \<Rightarrow> string list" where
  "processCommandLine_darwin os =
     (case os_procargs2 os of
        None \<Rightarrow> os_args os
      | Some raw \<Rightarrow>
          if length raw < 4 then os_args os
          else
            let argc = bytes_nat (rev (take 4 raw)); rest = drop 4 raw
            in if argc = 0 then os_args os
               else if 0 \<notin> set rest then os_args os
               else
                 let rest = dropWhile (\<lambda>b. b = 0) (dropWhile (\<lambda>b. b \<noteq> 0) rest);
                     args = readArgs argc rest
                 in if args = [] then os_args os else args)"

text \<open>
  \<^verbatim>\<open>signing_context_windows.go\<close>: the raw command line and its decomposition are one answer of
  the system, \<^const>\<open>None\<close> when either call fails.
\<close>

definition processCommandLine_windows :: "os \<Rightarrow> string list" where
  "processCommandLine_windows os =
     (case os_windowsArgs os of
        None \<Rightarrow> os_args os
      | Some args \<Rightarrow> if args = [] then os_args os else args)"

definition processCommandLine_other :: "os \<Rightarrow> string list" where
  "processCommandLine_other os = os_args os"

text \<open>The build constraints choose one of the four.\<close>

definition processCommandLine :: "os \<Rightarrow> string list" where
  "processCommandLine os =
     (if os_goos os = ''linux'' then processCommandLine_linux os
      else if os_goos os = ''darwin'' then processCommandLine_darwin os
      else if os_goos os = ''windows'' then processCommandLine_windows os
      else processCommandLine_other os)"

section \<open>The signing context\<close>

record signingContext =
  Command :: string
  Application :: string
  ApplicationHash :: string
  Hostname :: string
  OSUsername :: string

definition fileSHA256 :: "os \<Rightarrow> string \<Rightarrow> string" where
  "fileSHA256 os path =
     (case os_readFile os path of None \<Rightarrow> [] | Some f \<Rightarrow> hexEncode (sum256 f))"

text \<open>\<^verbatim>\<open>filepath.Base\<close> with the separator of a Unix system.\<close>

definition filepathBase :: "string \<Rightarrow> string" where
  "filepathBase path =
     (if path = [] then ''.''
      else let p = trimRightChar path CHR ''/''
           in if p = [] then ''/'' else afterLastAny p ''/'')"

definition captureSigningContext :: "os \<Rightarrow> signingContext" where
  "captureSigningContext os =
     \<lparr>Command = truncateCommand (joinCommandArgs (redactCommandArgs (processCommandLine os))),
      Application = (case os_executable os of None \<Rightarrow> [] | Some exe \<Rightarrow> filepathBase exe),
      ApplicationHash = (case os_executable os of None \<Rightarrow> [] | Some exe \<Rightarrow> fileSHA256 os exe),
      Hostname = (case os_hostname os of None \<Rightarrow> [] | Some h \<Rightarrow> h),
      OSUsername = (case os_user os of None \<Rightarrow> [] | Some u \<Rightarrow> u)\<rparr>"

text \<open>
  \<^verbatim>\<open>currentSigningContext\<close>: the first call captures, later calls return what it captured
  (\<^verbatim>\<open>sync.Once\<close>). The variable is \<^const>\<open>None\<close> before the first call.
\<close>

definition currentSigningContext ::
  "os \<Rightarrow> signingContext option \<Rightarrow> signingContext \<times> signingContext option" where
  "currentSigningContext os captured =
     (case captured of
        Some c \<Rightarrow> (c, captured)
      | None \<Rightarrow> let c = captureSigningContext os in (c, Some c))"

record clientMetadata =
  Tool :: string
  md_SigningApplicationHash :: string
  md_Hostname :: string
  md_OSUsername :: string
  md_Command :: string

definition clientMetadata_of :: "signingContext \<Rightarrow> clientMetadata" where
  "clientMetadata_of c =
     \<lparr>Tool = Application c, md_SigningApplicationHash = ApplicationHash c,
      md_Hostname = Hostname c, md_OSUsername = OSUsername c, md_Command = Command c\<rparr>"

text \<open>
  The raw JSON of the address: absent (a nil message, omitted from the body), a JSON string,
  or the literal \<^verbatim>\<open>null\<close> (\<^verbatim>\<open>scopeSkipped\<close>).
\<close>

datatype raw_json = JsonAbsent | JsonString string | JsonNull

record signingScope =
  sc_Command :: string
  SigningApplication :: string
  SigningApplicationHash :: string
  sc_Hostname :: string
  sc_OSUsername :: string
  IPAddress :: raw_json
  DataHash :: string

definition excludeField :: "string \<Rightarrow> signingScope \<Rightarrow> signingScope" where
  "excludeField name scope =
     (if name = scopeFieldCommand then scope\<lparr>sc_Command := []\<rparr>
      else if name = scopeFieldSigningApplication then scope\<lparr>SigningApplication := []\<rparr>
      else if name = scopeFieldSigningApplicationHash then scope\<lparr>SigningApplicationHash := []\<rparr>
      else if name = scopeFieldHostname then scope\<lparr>sc_Hostname := []\<rparr>
      else if name = scopeFieldOSUsername then scope\<lparr>sc_OSUsername := []\<rparr>
      else if name = scopeFieldIPAddress then scope\<lparr>IPAddress := JsonNull\<rparr>
      else if name = scopeFieldDataHash then scope\<lparr>DataHash := []\<rparr>
      else scope)"

definition requestScope :: "signingContext \<Rightarrow> string \<Rightarrow> string list \<Rightarrow> string \<Rightarrow> signingScope" where
  "requestScope c dataHash excluded pinnedIPAddress =
     (let scope =
        \<lparr>sc_Command = Command c, SigningApplication = Application c,
         SigningApplicationHash = ApplicationHash c, sc_Hostname = Hostname c,
         sc_OSUsername = OSUsername c,
         IPAddress = (if pinnedIPAddress \<noteq> [] then JsonString pinnedIPAddress else JsonAbsent),
         DataHash = dataHash\<rparr>
      in fold excludeField excluded scope)"

section \<open>Facts about single arguments\<close>

lemma cut_assign: "CHR ''='' \<notin> set k \<Longrightarrow> cut (k @ CHR ''='' # v) CHR ''='' = (k, v, True)"
  by (rule cut_found)

lemma argKey_assign [simp]: "CHR ''='' \<notin> set k \<Longrightarrow> argKey (k @ CHR ''='' # v) = k"
  by (simp add: argKey_def cut_assign)

lemma argInline_assign [simp]: "CHR ''='' \<notin> set k \<Longrightarrow> argInline (k @ CHR ''='' # v)"
  by (simp add: argInline_def cut_assign)

lemma argSecret_assign:
  "CHR ''='' \<notin> set k \<Longrightarrow> argSecret (k @ CHR ''='' # v) = argSecret (k @ CHR ''='' # w)"
  by (simp add: argSecret_def)

lemma argInline_iff: "argInline arg \<longleftrightarrow> CHR ''='' \<in> set arg"
proof (cases "CHR ''='' \<in> set arg")
  case True
  then obtain k v where "arg = k @ CHR ''='' # v" "CHR ''='' \<notin> set k"
    by (meson split_list_first)
  with True show ?thesis by simp
qed (simp add: argInline_def cut_missing)

lemma argKey_no_inline: "\<not> argInline arg \<Longrightarrow> argKey arg = arg"
  by (simp add: argInline_iff argKey_def cut_missing)

lemma argInline_split:
  assumes "argInline arg"
  obtains v where "arg = argKey arg @ CHR ''='' # v" "CHR ''='' \<notin> set (argKey arg)"
proof -
  from assms obtain k v where "arg = k @ CHR ''='' # v" "CHR ''='' \<notin> set k"
    unfolding argInline_iff by (meson split_list_first)
  with that show thesis by simp
qed

lemma argSecret_no_inline:
  "\<not> argInline arg \<Longrightarrow> argSecret arg \<longleftrightarrow> isSecretFlagName (flagName arg) False"
  by (simp add: argSecret_def argKey_no_inline)

lemma redacted_not_secret [simp]: "\<not> argSecret redactedValue"
  by (simp add: redactedValue_def argSecret_def argKey_def argInline_def flagName_def
      hasPrefix_def isSecretFlagName_def)

lemma hasSuffix_star: "c \<noteq> CHR ''*'' \<Longrightarrow> \<not> hasSuffix (name @ ''***'') (s @ [c])"
  by (simp add: hasSuffix_iff suffix_def)

lemma star_not_secret: "\<not> isSecretFlagName (name @ ''***'') False"
proof -
  have "\<not> hasSecretSuffix (name @ ''***'')"
    using hasSuffix_star [of "CHR ''d''" name "''passwor''"]
      hasSuffix_star [of "CHR ''e''" name "''passphras''"]
      hasSuffix_star [of "CHR ''d''" name "''passw''"]
    by (simp add: hasSecretSuffix_def)
  moreover have "name @ ''***'' \<notin> set secretCommandFlags"
  proof
    assume "name @ ''***'' \<in> set secretCommandFlags"
    then have "last (name @ ''***'') \<in> last ` set secretCommandFlags" by blast
    then show False by (simp add: secretCommandFlags_def)
  qed
  ultimately show ?thesis by (simp add: isSecretFlagName_def)
qed

lemma flagName_append:
  assumes "flagName p \<noteq> []"
  shows "flagName (p @ s) = flagName p @ toLower s"
proof -
  from assms consider r where "p = CHR ''-'' # CHR ''-'' # r"
    | c r where "p = CHR ''-'' # c # r" "c \<noteq> CHR ''-''"
    | c r where "p = CHR ''/'' # c # r"
    unfolding flagName_def hasPrefix_def
    by (cases p; cases "tl p") (auto simp: toLower_def split: if_splits)
  then show ?thesis by cases (auto simp: flagName_def hasPrefix_def toLower_def)
qed

lemma redactColon_cases:
  obtains "redactColon arg = arg"
  | p s where "arg = p @ CHR '':'' # s" "CHR '':'' \<notin> set p" "\<not> argInline arg"
      "isSecretFlagName (flagName p) False" "redactColon arg = p @ '':***''"
proof (cases "redactColon arg = arg")
  case False
  then obtain i where i: "indexChar arg CHR '':'' = Some i" "\<not> argInline arg"
    "isSecretFlagName (flagName (take i arg)) False"
    "redactColon arg = take (Suc i) arg @ redactedValue"
    by (auto simp: redactColon_def split: option.splits if_splits)
  have split: "i < length arg" "arg ! i = CHR '':''" "CHR '':'' \<notin> set (take i arg)"
    using indexChar_Some_D [OF i(1)] by auto
  have "arg = take i arg @ CHR '':'' # drop (Suc i) arg"
    using id_take_nth_drop [OF split(1)] split(2) by simp
  moreover have "redactColon arg = take i arg @ '':***''"
    using i(4) split by (simp add: take_Suc_conv_app_nth redactedValue_def)
  ultimately show thesis using that(2) i split by blast
qed (use that in blast)

lemma redactColon_keeps:
  assumes "\<not> argSecret arg"
  shows "\<not> argSecret (redactColon arg)" and "redactColon (redactColon arg) = redactColon arg"
proof -
  have "\<not> argSecret (redactColon arg) \<and> redactColon (redactColon arg) = redactColon arg"
  proof (cases arg rule: redactColon_cases)
    case 1
    with assms show ?thesis by simp
  next
    case (2 p s)
    let ?out = "p @ '':***''"
    have no_eq: "\<not> argInline ?out" using 2(1,3) by (simp add: argInline_iff)
    have fp: "flagName p \<noteq> []" using 2(4) by (auto simp: isSecretFlagName_def)
    have "flagName ?out = (flagName p @ '':'') @ ''***''"
      using flagName_append [OF fp, of "'':***''"] by (simp add: toLower_def lower_char_def)
    then have "\<not> argSecret ?out"
      using star_not_secret [of "flagName p @ '':''"] no_eq by (simp add: argSecret_no_inline)
    moreover have "redactColon ?out = ?out"
      using 2(2,4) no_eq indexChar_split [of "CHR '':''" p "''***''"]
      by (auto simp: redactColon_def redactedValue_def isSecretFlagName_def flagName_def
          hasPrefix_def)
    ultimately show ?thesis using 2(5) by simp
  qed
  then show "\<not> argSecret (redactColon arg)" and "redactColon (redactColon arg) = redactColon arg"
    by auto
qed

lemma redactLoop_idem: "redactLoop rv (redactLoop rv args) = redactLoop rv args"
proof (induction rv args rule: redactLoop.induct)
  case (2 rv arg args)
  show ?case
  proof (cases "argSecret arg \<and> argInline arg")
    case True
    then obtain v where v: "arg = argKey arg @ CHR ''='' # v" "CHR ''='' \<notin> set (argKey arg)"
      by (auto elim: argInline_split)
    let ?out = "argKey arg @ CHR ''='' # redactedValue"
    have "argSecret ?out" using True v argSecret_assign by metis
    with True 2 v(2) show ?thesis by simp
  next
    case False
    with 2 show ?thesis by (auto simp: redactColon_keeps)
  qed
qed simp

section \<open>Redaction hides values\<close>

text \<open>
  Two command lines that differ only in values the redaction recognises: the argument after
  a secret flag, the value of an assignment to a secret name, and what follows the colon of
  a secret flag. The first argument says whether the argument before was a secret flag that
  awaits its value.
\<close>

inductive sameButSecrets :: "bool \<Rightarrow> string list \<Rightarrow> string list \<Rightarrow> bool" where
  same_nil: "sameButSecrets rv [] []"
| same_value: "\<not> argSecret v \<Longrightarrow> \<not> argSecret w \<Longrightarrow> sameButSecrets False as bs \<Longrightarrow>
    sameButSecrets True (v # as) (w # bs)"
| same_flag: "argSecret f \<Longrightarrow> \<not> argInline f \<Longrightarrow> sameButSecrets True as bs \<Longrightarrow>
    sameButSecrets rv (f # as) (f # bs)"
| same_inline: "CHR ''='' \<notin> set k \<Longrightarrow> argSecret (k @ ''='' @ v) \<Longrightarrow> sameButSecrets False as bs \<Longrightarrow>
    sameButSecrets rv ((k @ ''='' @ v) # as) ((k @ ''='' @ w) # bs)"
| same_colon: "isSecretFlagName (flagName p) False \<Longrightarrow> CHR '':'' \<notin> set p \<Longrightarrow>
    CHR ''='' \<notin> set (p @ v @ w) \<Longrightarrow> \<not> argSecret (p @ '':'' @ v) \<Longrightarrow> \<not> argSecret (p @ '':'' @ w) \<Longrightarrow>
    sameButSecrets False as bs \<Longrightarrow>
    sameButSecrets False ((p @ '':'' @ v) # as) ((p @ '':'' @ w) # bs)"
| same_plain: "\<not> argSecret a \<Longrightarrow> sameButSecrets False as bs \<Longrightarrow>
    sameButSecrets False (a # as) (a # bs)"

lemma redactColon_secret:
  assumes "isSecretFlagName (flagName p) False" "CHR '':'' \<notin> set p" "CHR ''='' \<notin> set (p @ v)"
  shows "redactColon (p @ CHR '':'' # v) = p @ '':***''"
proof -
  have "p \<noteq> []" using assms(1) by (auto simp: flagName_def hasPrefix_def isSecretFlagName_def)
  with assms show ?thesis
    by (auto simp: redactColon_def indexChar_split argInline_iff redactedValue_def)
qed

lemma redactLoop_sameButSecrets: "sameButSecrets rv as bs \<Longrightarrow> redactLoop rv as = redactLoop rv bs"
proof (induction rule: sameButSecrets.induct)
  case (same_inline k v as bs rv w)
  have "argSecret (k @ ''='' @ w)"
    using same_inline(1,2) argSecret_assign [of k v w] by simp
  with same_inline show ?case by simp
qed (auto simp: redactColon_secret)

lemma length_redactLoop [simp]: "length (redactLoop rv args) = length args"
  by (induction rv args rule: redactLoop.induct) auto

lemma redactLoop_plain:
  "\<forall>a \<in> set args. \<not> argSecret a \<and> redactColon a = a \<Longrightarrow> redactLoop False args = args"
  by (induction args) auto

lemma redactLoop_append_secret:
  assumes "argSecret f" "\<not> argInline f" "\<not> argSecret v"
  shows "redactLoop rv (pre @ f # v # post) =
    redactLoop rv (pre @ [f]) @ redactedValue # redactLoop False post"
  using assms by (induction pre arbitrary: rv) auto

section \<open>Properties of redaction\<close>

text \<open>
  C28: redaction is non-interfering: two command lines that differ only in the values after
  secret flags, in the values assigned to secret names or after the colon of secret flags
  have the same redacted form, so nothing reported depends on those values.
\<close>

theorem redaction_hides_secrets:
  assumes "sameButSecrets False as bs"
  shows "redactCommandArgs as = redactCommandArgs bs"
  using redactLoop_sameButSecrets [OF assms] by (simp add: redactCommandArgs_def)

theorem redaction_hides_secrets_witness:
  "redactCommandArgs [''jarsigner'', ''-storepass'', ''hunter2'', ''--key.password=a''] =
   redactCommandArgs [''jarsigner'', ''-storepass'', ''letmein'', ''--key.password=b'']"
proof (rule redaction_hides_secrets)
  note d = argSecret_def argKey_def argInline_def flagName_def hasPrefix_def isSecretFlagName_def
    secretCommandFlags_def hasSecretSuffix_def hasSuffix_def toLower_def lower_char_def
    afterLastAny_def
  have "sameButSecrets False [''--key.password'' @ ''='' @ ''a''] [''--key.password'' @ ''='' @ ''b'']"
    by (rule same_inline) (auto simp: d intro: same_nil)
  then have "sameButSecrets False [''--key.password=a''] [''--key.password=b'']" by simp
  then have "sameButSecrets True [''hunter2'', ''--key.password=a''] [''letmein'', ''--key.password=b'']"
    by (rule same_value [rotated 2]) (auto simp: d)
  then have "sameButSecrets False [''-storepass'', ''hunter2'', ''--key.password=a'']
      [''-storepass'', ''letmein'', ''--key.password=b'']"
    by (rule same_flag [rotated 2]) (auto simp: d)
  then show "sameButSecrets False [''jarsigner'', ''-storepass'', ''hunter2'', ''--key.password=a'']
      [''jarsigner'', ''-storepass'', ''letmein'', ''--key.password=b'']"
    by (rule same_plain [rotated]) (auto simp: d)
qed

text \<open>
  Redaction keeps the number of arguments, is idempotent, and leaves a command line
  without secret arguments and without colon values unchanged.
\<close>

theorem redaction_shape:
  "length (redactCommandArgs args) = length args
   \<and> redactCommandArgs (redactCommandArgs args) = redactCommandArgs args
   \<and> ((\<forall>a \<in> set args. \<not> argSecret a \<and> redactColon a = a) \<longrightarrow> redactCommandArgs args = args)"
  by (simp add: redactCommandArgs_def redactLoop_idem redactLoop_plain)

theorem redaction_shape_witness:
  "redactCommandArgs [''tool'', ''-in'', ''a.exe''] = [''tool'', ''-in'', ''a.exe'']"
  using redaction_shape [of "[''tool'', ''-in'', ''a.exe'']"]
  by (auto simp: argSecret_def argKey_def argInline_def flagName_def hasPrefix_def
      isSecretFlagName_def secretCommandFlags_def hasSecretSuffix_def hasSuffix_def toLower_def
      lower_char_def redactColon_def)

section \<open>Properties of joining\<close>

text \<open>
  The reader of a joined command line: spaces separate tokens, double quotes group. This is
  the convention the joined form is written for.
\<close>

fun tokens :: "bool \<Rightarrow> string \<Rightarrow> string \<Rightarrow> string list" where
  "tokens quoted acc [] = [acc]"
| "tokens quoted acc (c # s) =
     (if c = CHR 0x22 then tokens (\<not> quoted) acc s
      else if c = CHR '' '' \<and> \<not> quoted then acc # tokens False [] s
      else tokens quoted (acc @ [c]) s)"

lemma tokens_quoted:
  "CHR 0x22 \<notin> set a \<Longrightarrow> tokens True acc (a @ CHR 0x22 # s) = tokens False (acc @ a) s"
  by (induction a arbitrary: acc) auto

lemma tokens_bare:
  "CHR 0x22 \<notin> set a \<Longrightarrow> CHR '' '' \<notin> set a \<Longrightarrow> tokens False acc (a @ s) = tokens False (acc @ a) s"
  by (induction a arbitrary: acc) auto

lemma tokens_renderArg:
  "CHR 0x22 \<notin> set a \<Longrightarrow> tokens False [] (renderArg a @ s) = tokens False a s"
  by (auto simp: renderArg_def tokens_quoted tokens_bare)

lemma tokens_join:
  "args \<noteq> [] \<Longrightarrow> \<forall>a \<in> set args. CHR 0x22 \<notin> set a \<Longrightarrow>
   tokens False [] (joinWith '' '' (map renderArg args)) = args"
proof (induction args)
  case (Cons a args)
  show ?case
  proof (cases args)
    case Nil
    with Cons.prems tokens_renderArg [of a "[]"] show ?thesis by simp
  next
    case (Cons b rest)
    with Cons.prems Cons.IH tokens_renderArg [of a "CHR '' '' # joinWith '' '' (map renderArg args)"]
    show ?thesis by simp
  qed
qed simp

text \<open>
  An argument list without double quotes is recovered from its joined form by splitting
  at unquoted spaces, so every argument the system reports as one element, empty or with
  spaces, comes back as one token.
\<close>

theorem joinCommandArgs_roundtrip:
  assumes "args \<noteq> []" "\<forall>a \<in> set args. CHR 0x22 \<notin> set a"
  shows "tokens False [] (joinCommandArgs args) = args"
  using tokens_join [OF assms] by (simp add: joinCommandArgs_def)

theorem joinCommandArgs_roundtrip_witness:
  "tokens False [] (joinCommandArgs [''a'', [], ''b c'']) = [''a'', [], ''b c'']"
  by (rule joinCommandArgs_roundtrip) auto

section \<open>Properties of truncation\<close>

text \<open>The length of the UTF-8 sequence a byte starts; 0 for a byte that starts none.\<close>

definition rune_len :: "char \<Rightarrow> nat" where
  "rune_len c =
     (if code c < 128 then 1 else if code c < 192 then 0 else if code c < 224 then 2
      else if code c < 240 then 3 else if code c < 248 then 4 else 0)"

text \<open>A string made of whole UTF-8 sequences: a start byte and its continuation bytes, repeated.\<close>

inductive whole_runes :: "string \<Rightarrow> bool" where
  whole_nil: "whole_runes []"
| whole_rune: "Suc (length cs) = rune_len c \<Longrightarrow> \<forall>x \<in> set cs. \<not> runeStart x \<Longrightarrow> whole_runes s \<Longrightarrow>
    whole_runes (c # cs @ s)"

lemma rune_len_start: "0 < rune_len c \<Longrightarrow> runeStart c \<and> rune_len c \<le> 4"
proof -
  assume c: "0 < rune_len c"
  have "code c div 64 \<noteq> 2"
  proof
    assume "code c div 64 = 2"
    then have "code c = 128 + code c mod 64" using mult_div_mod_eq [of 64 "code c"] by linarith
    moreover have "code c mod 64 < 64" by simp
    ultimately show False using c by (simp add: rune_len_def split: if_splits)
  qed
  then show ?thesis by (simp add: runeStart_def rune_len_def)
qed

lemma cutBack_le: "cutBack s n \<le> n"
  by (induction s n rule: cutBack.induct) auto

lemma cutBack_shift:
  "r \<noteq> [] \<Longrightarrow> m < length t \<Longrightarrow> runeStart (t ! 0) \<Longrightarrow>
   cutBack (r @ t) (length r + m) = length r + cutBack t m"
proof (induction m)
  case 0
  then show ?case by (cases r) (auto simp: nth_append)
next
  case (Suc m)
  then show ?case by (auto simp: nth_append)
qed

lemma cutBack_inside:
  "\<forall>i. 0 < i \<and> i \<le> n \<longrightarrow> \<not> runeStart (s ! i) \<Longrightarrow> cutBack s n = 0"
  by (induction n) auto

lemma whole_runes_hd: "whole_runes s \<Longrightarrow> s \<noteq> [] \<Longrightarrow> runeStart (s ! 0)"
  by (erule whole_runes.cases) (auto dest: rune_len_start [OF order_less_le_trans [OF zero_less_Suc eq_refl]])

lemma cutBack_whole:
  assumes "whole_runes s" "n < length s"
  shows "whole_runes (take (cutBack s n) s) \<and> n \<le> cutBack s n + 3"
  using assms
proof (induction arbitrary: n rule: whole_runes.induct)
  case (whole_rune cs c s)
  let ?r = "c # cs"
  show ?case
  proof (cases "n < length ?r")
    case True
    have "cutBack (?r @ s) n = 0"
    proof (rule cutBack_inside, intro allI impI)
      fix i assume "0 < i \<and> i \<le> n"
      with True have "(?r @ s) ! i = cs ! (i - 1)" "i - 1 < length cs"
        by (auto simp: nth_append nth_Cons')
      with whole_rune(2) show "\<not> runeStart ((?r @ s) ! i)" by simp
    qed
    moreover have "length cs < 4"
      using rune_len_start [of c] whole_rune(1) by simp
    ultimately show ?thesis using True by (simp add: whole_nil)
  next
    case False
    define m where "m = n - length ?r"
    with False whole_rune.prems have m: "n = length ?r + m" "m < length s" by auto
    then have "runeStart (s ! 0)" using whole_runes_hd [OF whole_rune(3)] by fastforce
    then have cut: "cutBack (?r @ s) n = length ?r + cutBack s m"
      using cutBack_shift [of ?r m s] m by simp
    then have "take (cutBack (?r @ s) n) (?r @ s) = ?r @ take (cutBack s m) s"
      by simp
    with whole_rune.IH [OF m(2)] whole_rune(1,2) cut m show ?thesis
      using whole_runes.whole_rune [of cs c "take (cutBack s m) s"] by simp
  qed
qed simp

text \<open>
  Truncation returns a prefix of at most \<^const>\<open>maxCommandLen\<close> bytes; a command that fits
  is unchanged; a command of whole UTF-8 sequences stays one, so no sequence is split, and
  at most three bytes are given up for that.
\<close>

theorem truncateCommand_whole:
  assumes "whole_runes command"
  shows "prefix (truncateCommand command) command
    \<and> whole_runes (truncateCommand command)
    \<and> length (truncateCommand command) \<le> maxCommandLen
    \<and> (length command \<le> maxCommandLen \<longrightarrow> truncateCommand command = command)
    \<and> (length command > maxCommandLen \<longrightarrow> maxCommandLen \<le> length (truncateCommand command) + 3)"
proof (cases "length command \<le> maxCommandLen")
  case False
  then have "maxCommandLen < length command" by simp
  with cutBack_whole [OF assms this] cutBack_le [of command maxCommandLen] False show ?thesis
    by (auto simp: truncateCommand_def take_is_prefix)
qed (use assms in \<open>auto simp: truncateCommand_def\<close>)

lemma whole_runes_ascii: "\<forall>c \<in> set s. code c < 128 \<Longrightarrow> whole_runes s"
proof (induction s)
  case (Cons c s)
  then have "whole_runes (c # [] @ s)" by (intro whole_rune) (auto simp: rune_len_def)
  then show ?case by simp
qed (simp add: whole_nil)

theorem truncateCommand_whole_witness:
  "length (truncateCommand (replicate 40000 CHR ''x'')) \<le> maxCommandLen
   \<and> maxCommandLen \<le> length (truncateCommand (replicate 40000 CHR ''x'')) + 3"
proof -
  have "whole_runes (replicate 40000 CHR ''x'')" by (rule whole_runes_ascii) simp
  from truncateCommand_whole [OF this] show ?thesis by (simp add: maxCommandLen_def)
qed

section \<open>Properties of the scope\<close>

lemma fold_excludeField:
  "sc_Command (fold excludeField ex s) = (if scopeFieldCommand \<in> set ex then [] else sc_Command s)"
  "SigningApplication (fold excludeField ex s) =
     (if scopeFieldSigningApplication \<in> set ex then [] else SigningApplication s)"
  "SigningApplicationHash (fold excludeField ex s) =
     (if scopeFieldSigningApplicationHash \<in> set ex then [] else SigningApplicationHash s)"
  "sc_Hostname (fold excludeField ex s) = (if scopeFieldHostname \<in> set ex then [] else sc_Hostname s)"
  "sc_OSUsername (fold excludeField ex s) =
     (if scopeFieldOSUsername \<in> set ex then [] else sc_OSUsername s)"
  "IPAddress (fold excludeField ex s) =
     (if scopeFieldIPAddress \<in> set ex then JsonNull else IPAddress s)"
  "DataHash (fold excludeField ex s) = (if scopeFieldDataHash \<in> set ex then [] else DataHash s)"
  by (induction ex arbitrary: s) (auto simp: excludeField_def scopeField_defs)

text \<open>
  The scope of an approval request declares exactly the captured parameters that are not
  excluded; the address is null when excluded, else the pinned one, else absent. In
  particular the data hash is declared unless it is excluded by name.
\<close>

theorem requestScope_declares:
  "requestScope c dataHash excluded ip =
     \<lparr>sc_Command = (if scopeFieldCommand \<in> set excluded then [] else Command c),
      SigningApplication =
        (if scopeFieldSigningApplication \<in> set excluded then [] else Application c),
      SigningApplicationHash =
        (if scopeFieldSigningApplicationHash \<in> set excluded then [] else ApplicationHash c),
      sc_Hostname = (if scopeFieldHostname \<in> set excluded then [] else Hostname c),
      sc_OSUsername = (if scopeFieldOSUsername \<in> set excluded then [] else OSUsername c),
      IPAddress =
        (if scopeFieldIPAddress \<in> set excluded then JsonNull
         else if ip = [] then JsonAbsent else JsonString ip),
      DataHash = (if scopeFieldDataHash \<in> set excluded then [] else dataHash)\<rparr>"
  by (intro signingScope.equality) (simp_all add: requestScope_def fold_excludeField)

lemma ValidateScopeExclusions_None:
  "ValidateScopeExclusions ex = None \<longleftrightarrow> set ex \<subseteq> set ScopeFieldNames"
  by (induction ex) auto

text \<open>
  A password after a colon is not recognised when it holds an equals sign, as one in base64
  may: the argument is cut at that sign first, and what is left of it is no secret flag.
\<close>

lemma colon_value_with_equals:
  "redactCommandArgs [''-pass:secret''] = [''-pass:***'']"
  "redactCommandArgs [''-pass:c2VjcmV0=''] = [''-pass:c2VjcmV0='']"
  by code_simp+

end
