(* ===== verification/Config.thy ===== *)
theory Config
  imports Signing_Context
begin

text \<open>
  \<^verbatim>\<open>config.go\<close>: the configuration record, its defaults, the overrides from the environment,
  the parser of durations and the validation. \<^verbatim>\<open>json.Unmarshal\<close>, \<^verbatim>\<open>url.Parse\<close> and
  \<^verbatim>\<open>net.ParseIP\<close> are arguments of the definitions (record \<open>parsers\<close>), as is the one floating
  point operation inside \<^verbatim>\<open>time.ParseDuration\<close>; everything proved here holds for every
  choice of them. The warning about file permissions is output only and is left out.
\<close>

section \<open>The configuration\<close>

record TLSConfig =
  CACertPath :: string
  SkipVerify :: bool

record CacheConfig =
  TokenTTLSeconds :: int
  CertTTLSeconds :: int
  SignerTTLSeconds :: int

record AuthConfig =
  Method :: string
  ClientID :: string
  ClientSecret :: string
  Token :: string

record ApprovalConfig =
  SigningCount :: int
  SigningDuration :: string
  ExcludeScopeFields :: "string list"
  cfgIPAddress :: string

record Config =
  ServerURL :: string
  Auth :: AuthConfig
  TLS :: TLSConfig
  CacheCfg :: CacheConfig
  Approval :: ApprovalConfig
  LogLevel :: string
  LogFile :: string

definition envConfigPath :: string where "envConfigPath = ''INFISICAL_CONFIG''"
definition envClientID :: string where "envClientID = ''INFISICAL_UNIVERSAL_AUTH_CLIENT_ID''"
definition envSecret :: string where "envSecret = ''INFISICAL_UNIVERSAL_AUTH_CLIENT_SECRET''"
definition envServerURL :: string where "envServerURL = ''INFISICAL_SERVER_URL''"
definition envToken :: string where "envToken = ''INFISICAL_TOKEN''"

definition unixDefaultConfigPath :: string where
  "unixDefaultConfigPath = ''/etc/infisical/pkcs11.conf''"

definition authMethodUniversalAuth :: string where
  "authMethodUniversalAuth = ''universal-auth''"
definition authMethodToken :: string where "authMethodToken = ''token''"

lemma authMethods_differ [simp]:
  "authMethodUniversalAuth \<noteq> authMethodToken" "authMethodToken \<noteq> authMethodUniversalAuth"
  "authMethodUniversalAuth \<noteq> []" "authMethodToken \<noteq> []"
  by (simp_all add: authMethodUniversalAuth_def authMethodToken_def)

section \<open>Defaults and environment\<close>

definition setDefaults :: "Config \<Rightarrow> Config" where
  "setDefaults c =
     c\<lparr>CacheCfg :=
         \<lparr>TokenTTLSeconds = (if TokenTTLSeconds (CacheCfg c) = 0 then 300
            else TokenTTLSeconds (CacheCfg c)),
          CertTTLSeconds = (if CertTTLSeconds (CacheCfg c) = 0 then 3600
            else CertTTLSeconds (CacheCfg c)),
          SignerTTLSeconds = (if SignerTTLSeconds (CacheCfg c) = 0 then 300
            else SignerTTLSeconds (CacheCfg c))\<rparr>,
       LogLevel := (if LogLevel c = [] then ''info'' else LogLevel c)\<rparr>"

definition applyEnvOverrides :: "(string \<Rightarrow> string) \<Rightarrow> Config \<Rightarrow> Config" where
  "applyEnvOverrides getenv c =
     (let c = (let v = getenv envServerURL in if v \<noteq> [] then c\<lparr>ServerURL := v\<rparr> else c);
          c = (let v = getenv envClientID
               in if v \<noteq> [] then c\<lparr>Auth := (Auth c)\<lparr>ClientID := v\<rparr>\<rparr> else c);
          c = (let v = getenv envSecret
               in if v \<noteq> [] then c\<lparr>Auth := (Auth c)\<lparr>ClientSecret := v\<rparr>\<rparr> else c);
          c = (let v = getenv envToken
               in if v \<noteq> [] then c\<lparr>Auth := (Auth c)\<lparr>Token := v, Method := authMethodToken\<rparr>\<rparr>
                  else c)
      in c)"

section \<open>Durations\<close>

text \<open>
  \<^verbatim>\<open>time.ParseDuration\<close>, with the helpers of package \<^verbatim>\<open>time\<close>. Durations are nanoseconds.
\<close>

fun leadingInt :: "nat \<Rightarrow> string \<Rightarrow> (nat \<times> string) option" where
  "leadingInt x [] = Some (x, [])"
| "leadingInt x (c # s) =
     (if \<not> is_digit c then Some (x, c # s)
      else if x > 2 ^ 63 div 10 then None
      else let x = x * 10 + digit_val c
           in if x > 2 ^ 63 then None else leadingInt x s)"

text \<open>The fraction, its power of ten, and the rest; \<open>overflow\<close> drops further digits.\<close>

fun leadingFraction :: "bool \<Rightarrow> nat \<Rightarrow> nat \<Rightarrow> string \<Rightarrow> nat \<times> nat \<times> string" where
  "leadingFraction overflow x scale [] = (x, scale, [])"
| "leadingFraction overflow x scale (c # s) =
     (if \<not> is_digit c then (x, scale, c # s)
      else if overflow \<or> x > (2 ^ 63 - 1) div 10 then leadingFraction True x scale s
      else let y = x * 10 + digit_val c
           in if y > 2 ^ 63 then leadingFraction True x scale s
              else leadingFraction False y (scale * 10) s)"

definition unitMap :: "string \<Rightarrow> nat option" where
  "unitMap u =
     (if u = ''ns'' then Some 1
      else if u \<in> {''us'', [CHR 0xC2, CHR 0xB5, CHR ''s''], [CHR 0xCE, CHR 0xBC, CHR ''s'']}
        then Some 1000
      else if u = ''ms'' then Some 1000000
      else if u = ''s'' then Some 1000000000
      else if u = ''m'' then Some 60000000000
      else if u = ''h'' then Some 3600000000000
      else None)"

definition unitChar :: "char \<Rightarrow> bool" where
  "unitChar c \<longleftrightarrow> c \<noteq> CHR ''.'' \<and> \<not> is_digit c"

text \<open>The optional fraction: digits, scale, the rest, and whether a digit was read (\<^verbatim>\<open>post\<close>).\<close>

definition durationFraction :: "string \<Rightarrow> nat \<times> nat \<times> string \<times> bool" where
  "durationFraction s =
     (if s \<noteq> [] \<and> hd s = CHR ''.''
      then (case leadingFraction False 0 1 (tl s) of (f, scale, r) \<Rightarrow>
              (f, scale, r, length r \<noteq> length (tl s)))
      else (0, 1, s, False))"

text \<open>
  The unit and the value in nanoseconds. \<open>scaled f unit scale\<close> is the floating point product
  \<^verbatim>\<open>uint64(float64(f) * (float64(unit) / scale))\<close>.
\<close>

definition durationUnit ::
  "(nat \<Rightarrow> nat \<Rightarrow> nat \<Rightarrow> nat) \<Rightarrow> nat \<Rightarrow> nat \<Rightarrow> nat \<Rightarrow> string \<Rightarrow> (nat \<times> string) option" where
  "durationUnit scaled v f scale s =
     (let u = takeWhile unitChar s
      in if u = [] then None
         else case unitMap u of
           None \<Rightarrow> None
         | Some unit \<Rightarrow>
             if v > 2 ^ 63 div unit then None
             else let v = v * unit; v = (if f > 0 then (v + scaled f unit scale) mod 2 ^ 64 else v)
                  in if v > 2 ^ 63 then None else Some (v, dropWhile unitChar s))"

text \<open>
  One turn of the loop: a number with an optional fraction and a unit. The result is the
  number of nanoseconds and what follows.
\<close>

definition durationTerm :: "(nat \<Rightarrow> nat \<Rightarrow> nat \<Rightarrow> nat) \<Rightarrow> string \<Rightarrow> (nat \<times> string) option" where
  "durationTerm scaled s =
     (if s = [] \<or> \<not> (hd s = CHR ''.'' \<or> is_digit (hd s)) then None
      else case leadingInt 0 s of
        None \<Rightarrow> None
      | Some (v, s1) \<Rightarrow>
          (case durationFraction s1 of (f, scale, s2, post) \<Rightarrow>
             if length s1 = length s \<and> \<not> post then None
             else durationUnit scaled v f scale s2))"

lemma leadingInt_le: "leadingInt x s = Some (v, r) \<Longrightarrow> length r \<le> length s"
  by (induction x s rule: leadingInt.induct) (auto split: if_splits simp: Let_def)

lemma leadingFraction_le: "leadingFraction b x k s = (f, k', r) \<Longrightarrow> length r \<le> length s"
  by (induction b x k s rule: leadingFraction.induct) (auto split: if_splits simp: Let_def)

lemma durationFraction_le: "durationFraction s = (f, k, r, post) \<Longrightarrow> length r \<le> length s"
  by (auto simp: durationFraction_def dest!: leadingFraction_le split: if_splits prod.splits)

lemma durationUnit_shorter:
  assumes "durationUnit scaled v f scale s = Some (w, r)"
  shows "length r < length s"
proof -
  from assms have u: "takeWhile unitChar s \<noteq> []" "r = dropWhile unitChar s"
    by (auto simp: durationUnit_def Let_def split: if_splits option.splits)
  have "length s = length (takeWhile unitChar s) + length r"
    using u(2) by (metis length_append takeWhile_dropWhile_id)
  with u(1) show ?thesis by (cases "takeWhile unitChar s") auto
qed

lemma durationTerm_shorter:
  assumes "durationTerm scaled s = Some (v, r)"
  shows "length r < length s"
proof -
  from assms obtain v1 s1 f k s2 post where
    "leadingInt 0 s = Some (v1, s1)" "durationFraction s1 = (f, k, s2, post)"
    "durationUnit scaled v1 f k s2 = Some (v, r)"
    by (auto simp: durationTerm_def split: if_splits option.splits prod.splits)
  then show ?thesis
    using leadingInt_le durationFraction_le durationUnit_shorter by fastforce
qed

function durationLoop :: "(nat \<Rightarrow> nat \<Rightarrow> nat \<Rightarrow> nat) \<Rightarrow> nat \<Rightarrow> string \<Rightarrow> nat option" where
  "durationLoop scaled d s =
     (if s = [] then Some d
      else case durationTerm scaled s of
        None \<Rightarrow> None
      | Some (v, r) \<Rightarrow>
          let d = (d + v) mod 2 ^ 64
          in if d > 2 ^ 63 then None else durationLoop scaled d r)"
  by auto
termination
  by (relation "measure (\<lambda>(scaled, d, s). length s)") (auto dest!: durationTerm_shorter)

declare durationLoop.simps [simp del]

definition time_ParseDuration :: "(nat \<Rightarrow> nat \<Rightarrow> nat \<Rightarrow> nat) \<Rightarrow> string \<Rightarrow> int result" where
  "time_ParseDuration scaled orig =
     (let neg = (orig \<noteq> [] \<and> hd orig = CHR ''-'');
          s = (if orig \<noteq> [] \<and> (hd orig = CHR ''-'' \<or> hd orig = CHR ''+'') then tl orig else orig)
      in if s = ''0'' then Inr 0
         else if s = [] then Inl (Errorf ''time: invalid duration'')
         else case durationLoop scaled 0 s of
           None \<Rightarrow> Inl (Errorf ''time: invalid duration'')
         | Some d \<Rightarrow>
             if neg then Inr (sint (word_of_int (- int d) :: int64))
             else if d > 2 ^ 63 - 1 then Inl (Errorf ''time: invalid duration'')
             else Inr (int d))"

definition nanos_per_day :: int where
  "nanos_per_day = 24 * 3600000000000"

text \<open>\<^verbatim>\<open>parseDuration\<close>; the product of days and nanoseconds wraps at 64 bits.\<close>

definition parseDuration :: "(nat \<Rightarrow> nat \<Rightarrow> nat \<Rightarrow> nat) \<Rightarrow> string \<Rightarrow> int result" where
  "parseDuration scaled s =
     (if hasSuffix s ''d'' then
        (case atoi (butlast s) of
           None \<Rightarrow> Inl (Errorf ''invalid duration'')
         | Some days \<Rightarrow> Inr (sint (word_of_int (days * nanos_per_day) :: int64)))
      else time_ParseDuration scaled s)"

section \<open>Validation and loading\<close>

text \<open>
  The library functions the configuration is read with: the scheme and host of a URL, whether
  a text is an IP address, the record \<^verbatim>\<open>json.Unmarshal\<close> fills from the zero record.
\<close>

record parsers =
  url_Parse :: "string \<Rightarrow> (string \<times> string) option"
  net_ParseIP :: "string \<Rightarrow> bool"
  json_Config :: "bytes \<Rightarrow> Config option"
  float_scaled :: "nat \<Rightarrow> nat \<Rightarrow> nat \<Rightarrow> nat"

text \<open>The default of the method: token auth when there is a token, else universal auth.\<close>

definition fill_method :: "Config \<Rightarrow> Config" where
  "fill_method c =
     (if Method (Auth c) = []
      then c\<lparr>Auth := (Auth c)\<lparr>Method :=
             (if Token (Auth c) \<noteq> [] then authMethodToken else authMethodUniversalAuth)\<rparr>\<rparr>
      else c)"

text \<open>The check of \<^verbatim>\<open>approval.signing_duration\<close>; \<^const>\<open>None\<close> when it passes.\<close>

definition checkDuration :: "parsers \<Rightarrow> string \<Rightarrow> go_error option" where
  "checkDuration pa s =
     (if s = [] then None
      else case parseDuration (float_scaled pa) s of
        Inl err \<Rightarrow> Some (Wrapf ''invalid approval.signing_duration'' err)
      | Inr d \<Rightarrow>
          if d < 60000000000 \<or> d > 30 * nanos_per_day
          then Some (Errorf ''approval.signing_duration must be between 1m and 30d'')
          else None)"

text \<open>\<^verbatim>\<open>validate\<close> also fills in the method, so it returns the configuration.\<close>

definition validate :: "parsers \<Rightarrow> Config \<Rightarrow> Config result" where
  "validate pa c =
     (if ServerURL c = [] then Inl (Errorf ''server_url is required'')
      else case url_Parse pa (ServerURL c) of
        None \<Rightarrow> Inl (Wrapf ''server_url is not a valid URL'' (Errorf ''url''))
      | Some (scheme, host) \<Rightarrow>
          if toLower scheme \<noteq> ''http'' \<and> toLower scheme \<noteq> ''https''
          then Inl (Errorf ''server_url scheme must be http or https'')
          else if host = [] then Inl (Errorf ''server_url must include a host'')
          else
            let c = fill_method c
            in if Method (Auth c) \<noteq> authMethodUniversalAuth \<and> Method (Auth c) \<noteq> authMethodToken
               then Inl (Errorf ''unsupported auth method'')
               else case checkDuration pa (SigningDuration (Approval c)) of
                 Some err \<Rightarrow> Inl err
               | None \<Rightarrow>
                   if SigningCount (Approval c) < 0
                   then Inl (Errorf ''approval.signing_count must be a positive integer'')
                   else case ValidateScopeExclusions (ExcludeScopeFields (Approval c)) of
                     Some err \<Rightarrow> Inl (Wrapf ''invalid approval.exclude_scope_fields'' err)
                   | None \<Rightarrow>
                       if cfgIPAddress (Approval c) \<noteq> [] \<and> \<not> net_ParseIP pa (cfgIPAddress (Approval c))
                       then Inl (Errorf ''approval.ip_address must be an IP address'')
                       else Inr c)"

definition defaultConfigPathFor :: "string \<Rightarrow> string \<Rightarrow> string" where
  "defaultConfigPathFor goos programData =
     (if goos \<noteq> ''windows'' then unixDefaultConfigPath
      else (if programData = [] then ''C:'' @ CHR 0x5C # ''ProgramData'' else programData)
             @ CHR 0x5C # ''Infisical'' @ CHR 0x5C # ''pkcs11.conf'')"

definition defaultConfigPath :: "os \<Rightarrow> string" where
  "defaultConfigPath os = defaultConfigPathFor (os_goos os) (os_getenv os ''ProgramData'')"

definition loadConfig :: "parsers \<Rightarrow> os \<Rightarrow> Config result" where
  "loadConfig pa os =
     (let path = (if os_getenv os envConfigPath = [] then defaultConfigPath os
                  else os_getenv os envConfigPath)
      in case os_readFile os path of
           None \<Rightarrow> Inl (Wrapf ''failed to read config file'' (Errorf ''os''))
         | Some data \<Rightarrow>
             (case json_Config pa data of
                None \<Rightarrow> Inl (Wrapf ''failed to parse config file'' (Errorf ''json''))
              | Some cfg \<Rightarrow>
                  (case validate pa (applyEnvOverrides (os_getenv os) (setDefaults cfg)) of
                     Inl err \<Rightarrow> Inl (Wrapf ''invalid config'' err)
                   | Inr cfg \<Rightarrow> Inr cfg)))"

section \<open>Facts\<close>

lemma digits_val_append: "digits_val n (a @ b) = digits_val (digits_val n a) b"
  by (induction a arbitrary: n) auto

lemma show_nat_facts: "show_nat n \<noteq> [] \<and> list_all is_digit (show_nat n) \<and> digits_val 0 (show_nat n) = n"
proof (induction n rule: show_nat.induct)
  case (1 n)
  have d: "is_digit (char_of (48 + k))" "digit_val (char_of (48 + k)) = k" if "k < 10" for k :: nat
    using that by (simp_all add: is_digit_def digit_val_def)
  show ?case
  proof (cases "n < 10")
    case True
    with d [of n] show ?thesis by (simp add: show_nat.simps [of n])
  next
    case False
    with 1 d [of "n mod 10"] show ?thesis
      by (simp add: show_nat.simps [of n] digits_val_append)
  qed
qed

lemma atoi_show_nat:
  assumes "n < 2 ^ 63"
  shows "atoi (show_nat n) = Some (int n)"
proof -
  obtain c cs where s: "show_nat n = c # cs" using show_nat_facts by (cases "show_nat n") auto
  have "is_digit c" using show_nat_facts [of n] s by simp
  then have "c \<noteq> CHR ''-''" "c \<noteq> CHR ''+''" by (auto simp: is_digit_def)
  with s show_nat_facts [of n] assms show ?thesis by (simp add: atoi_def Let_def)
qed

lemma parseDuration_days:
  assumes "n < 2 ^ 63"
  shows "parseDuration sc (show_nat n @ ''d'') =
    Inr (sint (word_of_int (int n * nanos_per_day) :: int64))"
  using assms by (simp add: parseDuration_def hasSuffix_def atoi_show_nat)

lemma setDefaults_Auth [simp]: "Auth (setDefaults c) = Auth c"
  by (simp add: setDefaults_def)

text \<open>The guards of the validation, read from a configuration it accepts.\<close>

definition valid_config :: "parsers \<Rightarrow> Config \<Rightarrow> bool" where
  "valid_config pa c \<longleftrightarrow>
     (\<exists>scheme host. url_Parse pa (ServerURL c) = Some (scheme, host)
        \<and> toLower scheme \<in> {''http'', ''https''} \<and> host \<noteq> [])
   \<and> Method (Auth c) \<in> {authMethodUniversalAuth, authMethodToken}
   \<and> (SigningDuration (Approval c) = [] \<or>
        (\<exists>d. parseDuration (float_scaled pa) (SigningDuration (Approval c)) = Inr d
           \<and> 60000000000 \<le> d \<and> d \<le> 30 * nanos_per_day))
   \<and> 0 \<le> SigningCount (Approval c)
   \<and> set (ExcludeScopeFields (Approval c)) \<subseteq> set ScopeFieldNames
   \<and> (cfgIPAddress (Approval c) = [] \<or> net_ParseIP pa (cfgIPAddress (Approval c)))"

lemma fill_method_same [simp]:
  "ServerURL (fill_method c) = ServerURL c" "Approval (fill_method c) = Approval c"
  "CacheCfg (fill_method c) = CacheCfg c" "LogLevel (fill_method c) = LogLevel c"
  "Token (Auth (fill_method c)) = Token (Auth c)"
  by (simp_all add: fill_method_def)

lemma checkDuration_None:
  "checkDuration pa s = None \<longleftrightarrow>
     s = [] \<or> (\<exists>d. parseDuration (float_scaled pa) s = Inr d
        \<and> 60000000000 \<le> d \<and> d \<le> 30 * nanos_per_day)"
  by (auto simp: checkDuration_def split: sum.splits)

lemma validate_iff:
  "validate pa c = Inr c' \<longleftrightarrow>
     c' = fill_method c \<and> ServerURL c \<noteq> [] \<and> valid_config pa (fill_method c)"
proof (cases "url_Parse pa (ServerURL c)")
  case None
  then show ?thesis by (simp add: validate_def valid_config_def)
next
  case (Some sh)
  then show ?thesis
    by (cases sh)
       (auto simp: validate_def valid_config_def checkDuration_None [symmetric]
          ValidateScopeExclusions_None [symmetric] Let_def split: option.splits)
qed

section \<open>Properties\<close>

text \<open>
  C33: a configuration the module starts with has an http or https server address with a host,
  a known authentication method, an approval window between one minute and thirty days, a
  request count that is not negative, known scope exclusions and a well-formed pinned
  address; its cache lifetimes are not zero and its log level is not empty.
\<close>

theorem loadConfig_valid:
  assumes "loadConfig pa os = Inr c"
  shows "valid_config pa c
    \<and> TokenTTLSeconds (CacheCfg c) \<noteq> 0 \<and> CertTTLSeconds (CacheCfg c) \<noteq> 0
    \<and> SignerTTLSeconds (CacheCfg c) \<noteq> 0 \<and> LogLevel c \<noteq> []"
proof -
  from assms obtain cfg where
    "validate pa (applyEnvOverrides (os_getenv os) (setDefaults cfg)) = Inr c"
    by (auto simp: loadConfig_def Let_def split: option.splits sum.splits)
  then have c: "c = fill_method (applyEnvOverrides (os_getenv os) (setDefaults cfg))"
    "valid_config pa c" by (auto simp: validate_iff)
  then show ?thesis by (auto simp: applyEnvOverrides_def setDefaults_def Let_def)
qed

text \<open>A configuration file and a system to read it from.\<close>

definition example_config :: Config where
  "example_config =
     \<lparr>ServerURL = ''https://app.infisical.com'',
      Auth = \<lparr>Method = [], ClientID = ''id'', ClientSecret = ''secret'', Token = []\<rparr>,
      TLS = \<lparr>CACertPath = [], SkipVerify = False\<rparr>,
      CacheCfg = \<lparr>TokenTTLSeconds = 0, CertTTLSeconds = 0, SignerTTLSeconds = 60\<rparr>,
      Approval = \<lparr>SigningCount = 3, SigningDuration = ''7d'', ExcludeScopeFields = [''hostname''],
        cfgIPAddress = []\<rparr>,
      LogLevel = [], LogFile = []\<rparr>"

definition example_parsers :: parsers where
  "example_parsers =
     \<lparr>url_Parse = (\<lambda>u. if hasPrefix u ''https://'' then Some (''https'', drop 8 u) else None),
      net_ParseIP = (\<lambda>s. s = ''10.0.0.1''), json_Config = (\<lambda>b. Some example_config),
      float_scaled = (\<lambda>f unit scale. f * unit div scale)\<rparr>"

definition example_os :: "(string \<times> string) list \<Rightarrow> os" where
  "example_os env =
     \<lparr>os_goos = ''linux'',
      os_getenv = (\<lambda>k. case map_of env k of None \<Rightarrow> [] | Some v \<Rightarrow> v),
      os_readFile = (\<lambda>p. if p = unixDefaultConfigPath then Some [] else None),
      os_executable = Some ''/usr/bin/osslsigncode'', os_hostname = Some ''ci-1'',
      os_user = Some ''builder'', os_args = [''osslsigncode'', ''sign''], os_procargs2 = None,
      os_windowsArgs = None\<rparr>"

lemmas example_defs = example_config_def example_parsers_def example_os_def

lemma parseDuration_7d: "parseDuration sc ''7d'' = Inr (7 * nanos_per_day)"
  by (simp add: parseDuration_def hasSuffix_def atoi_def is_digit_def digit_val_def
      nanos_per_day_def)

lemma os_example:
  "os_getenv (example_os env) k = (case map_of env k of None \<Rightarrow> [] | Some v \<Rightarrow> v)"
  "json_Config example_parsers b = Some example_config"
  "map_of env ''ProgramData'' = None \<Longrightarrow>
     os_readFile (example_os env) (defaultConfigPath (example_os env)) = Some []"
  by (simp_all add: example_os_def example_parsers_def defaultConfigPath_def
      defaultConfigPathFor_def)

lemma env_none: "applyEnvOverrides (os_getenv (example_os [])) c = c"
  by (simp add: applyEnvOverrides_def os_example)

lemma loadConfig_example:
  "loadConfig example_parsers (example_os []) =
     Inr (fill_method (setDefaults example_config))"
proof -
  have "validate example_parsers (setDefaults example_config) =
      Inr (fill_method (setDefaults example_config))"
    unfolding validate_iff valid_config_def
    by (simp add: example_defs setDefaults_def fill_method_def parseDuration_7d hasPrefix_def
        toLower_def lower_char_def scopeField_defs ScopeFieldNames_def nanos_per_day_def)
  then show ?thesis
    by (simp add: loadConfig_def env_none os_example Let_def)
qed

theorem loadConfig_valid_witness:
  "valid_config example_parsers (fill_method (setDefaults example_config))"
  using loadConfig_valid [OF loadConfig_example] by blast

text \<open>
  A token in the environment selects token authentication with that token, whatever
  method, token or client credentials the file or the rest of the environment have.
\<close>

theorem env_token_precedence:
  assumes "loadConfig pa os = Inr c" "os_getenv os envToken \<noteq> []"
  shows "Method (Auth c) = authMethodToken \<and> Token (Auth c) = os_getenv os envToken"
proof -
  from assms(1) obtain cfg where
    "c = fill_method (applyEnvOverrides (os_getenv os) (setDefaults cfg))"
    by (auto simp: loadConfig_def validate_iff Let_def split: option.splits sum.splits)
  with assms(2) show ?thesis
    by (simp add: applyEnvOverrides_def fill_method_def Let_def)
qed

lemma loadConfig_example_token:
  "\<exists>c. loadConfig example_parsers (example_os [(envToken, ''tok'')]) = Inr c"
proof -
  let ?c = "applyEnvOverrides (os_getenv (example_os [(envToken, ''tok'')])) (setDefaults example_config)"
  have "validate example_parsers ?c = Inr (fill_method ?c)"
    unfolding validate_iff valid_config_def
    by (simp add: example_defs setDefaults_def fill_method_def parseDuration_7d hasPrefix_def
        toLower_def lower_char_def scopeField_defs ScopeFieldNames_def nanos_per_day_def
        applyEnvOverrides_def envToken_def envServerURL_def envClientID_def envSecret_def)
  then show ?thesis
    by (simp add: loadConfig_def Let_def os_example envConfigPath_def envToken_def)
qed

theorem env_token_precedence_witness:
  "\<exists>c. loadConfig example_parsers (example_os [(envToken, ''tok'')]) = Inr c
     \<and> Method (Auth c) = authMethodToken \<and> Token (Auth c) = ''tok''"
proof -
  obtain c where c: "loadConfig example_parsers (example_os [(envToken, ''tok'')]) = Inr c"
    using loadConfig_example_token by blast
  with env_token_precedence [OF c] show ?thesis by (simp add: example_os_def)
qed

lemma sint_of_int_exact_iff:
  "sint (word_of_int k :: int64) = k \<longleftrightarrow> - (2 ^ 63) \<le> k \<and> k < 2 ^ 63"
proof
  assume "sint (word_of_int k :: int64) = k"
  with sint_range_size [of "word_of_int k :: int64"]
  show "- (2 ^ 63) \<le> k \<and> k < 2 ^ 63" by (simp add: word_size)
next
  assume "- (2 ^ 63) \<le> k \<and> k < 2 ^ 63"
  then have "signed_take_bit 63 k = k" by (intro signed_take_bit_int_eq_self) auto
  then show "sint (word_of_int k :: int64) = k" by (simp add: signed_of_int)
qed

text \<open>
  An approval window given as a plain number of days stands for exactly that many days
  precisely when their nanoseconds fit 64 bits, that is up to 106751 days.
\<close>

theorem parseDuration_days_exact:
  assumes "n < 2 ^ 63"
  shows "parseDuration sc (show_nat n @ ''d'') = Inr (int n * nanos_per_day) \<longleftrightarrow> n \<le> 106751"
  using sint_of_int_exact_iff [of "int n * nanos_per_day"]
  by (auto simp: parseDuration_days [OF assms] nanos_per_day_def simp del: of_int_mult)

theorem parseDuration_days_exact_witness:
  "parseDuration (float_scaled example_parsers) (show_nat 30 @ ''d'') = Inr (30 * nanos_per_day)
   \<and> parseDuration (float_scaled example_parsers) (show_nat 106752 @ ''d'') \<noteq> Inr (106752 * nanos_per_day)"
  using parseDuration_days_exact [of 30] parseDuration_days_exact [of 106752] by simp





end
