(* ===== verification/Cache.thy ===== *)
theory Cache
  imports Prelude
begin

text \<open>
  \<^verbatim>\<open>cache.go\<close>: entries with an expiry time, the one-entry signer cache and the two maps of
  the certificate cache. The clock is an argument: \<open>now\<close> is the value \<^verbatim>\<open>time.Now()\<close> has when
  the method runs, in nanoseconds. A \<^verbatim>\<open>time.Duration\<close> is a 64-bit number of nanoseconds, so
  the conversion from seconds wraps around.
\<close>

type_synonym time = int

record 'a cacheEntry =
  entry_value :: 'a
  expiresAt :: time

definition isExpired :: "'a cacheEntry \<Rightarrow> time \<Rightarrow> bool" where
  "isExpired e now \<longleftrightarrow> now > expiresAt e"

text \<open>\<^verbatim>\<open>time.Duration(seconds) * time.Second\<close>.\<close>

definition seconds :: "int \<Rightarrow> int" where
  "seconds n = sint (word_of_int (n * 1000000000) :: int64)"

section \<open>The signer cache\<close>

record 'a signerCache =
  sc_ttl :: int
  sc_entry :: "'a cacheEntry option"

definition newSignerCache :: "int \<Rightarrow> 'a signerCache" where
  "newSignerCache ttlSeconds =
     (let ttlSeconds = (if ttlSeconds = 0 then 300 else ttlSeconds)
      in \<lparr>sc_ttl = seconds ttlSeconds, sc_entry = None\<rparr>)"

definition sc_get :: "'a signerCache \<Rightarrow> time \<Rightarrow> 'a option" where
  "sc_get c now =
     (case sc_entry c of
        None \<Rightarrow> None
      | Some e \<Rightarrow> if isExpired e now then None else Some (entry_value e))"

definition sc_set :: "'a signerCache \<Rightarrow> 'a \<Rightarrow> time \<Rightarrow> 'a signerCache" where
  "sc_set c signers now =
     c\<lparr>sc_entry := Some \<lparr>entry_value = signers, expiresAt = now + sc_ttl c\<rparr>\<rparr>"

definition sc_invalidate :: "'a signerCache \<Rightarrow> 'a signerCache" where
  "sc_invalidate c = c\<lparr>sc_entry := None\<rparr>"

section \<open>The certificate cache\<close>

record pubKeyEntry =
  PublicKeyDER :: bytes
  Exponent :: bytes
  ECParams :: bytes
  ECPoint :: bytes
  Algorithm :: string

record certDataCache =
  cd_ttl :: int
  pubKeys :: "string \<rightharpoonup> pubKeyEntry cacheEntry"
  certs :: "string \<rightharpoonup> bytes cacheEntry"

definition newCertDataCache :: "int \<Rightarrow> certDataCache" where
  "newCertDataCache ttlSeconds =
     (let ttlSeconds = (if ttlSeconds = 0 then 3600 else ttlSeconds)
      in \<lparr>cd_ttl = seconds ttlSeconds, pubKeys = Map.empty, certs = Map.empty\<rparr>)"

definition getPubKey :: "certDataCache \<Rightarrow> string \<Rightarrow> time \<Rightarrow> pubKeyEntry option" where
  "getPubKey c signerID now =
     (case pubKeys c signerID of
        None \<Rightarrow> None
      | Some e \<Rightarrow> if isExpired e now then None else Some (entry_value e))"

definition setPubKey :: "certDataCache \<Rightarrow> string \<Rightarrow> pubKeyEntry \<Rightarrow> time \<Rightarrow> certDataCache" where
  "setPubKey c signerID pk now =
     c\<lparr>pubKeys := (pubKeys c)(signerID \<mapsto> \<lparr>entry_value = pk, expiresAt = now + cd_ttl c\<rparr>)\<rparr>"

definition getCert :: "certDataCache \<Rightarrow> string \<Rightarrow> time \<Rightarrow> bytes option" where
  "getCert c signerID now =
     (case certs c signerID of
        None \<Rightarrow> None
      | Some e \<Rightarrow> if isExpired e now then None else Some (entry_value e))"

definition setCert :: "certDataCache \<Rightarrow> string \<Rightarrow> bytes \<Rightarrow> time \<Rightarrow> certDataCache" where
  "setCert c signerID cert now =
     c\<lparr>certs := (certs c)(signerID \<mapsto> \<lparr>entry_value = cert, expiresAt = now + cd_ttl c\<rparr>)\<rparr>"

lemmas cache_defs = isExpired_def sc_get_def sc_set_def sc_invalidate_def getPubKey_def
  setPubKey_def getCert_def setCert_def

section \<open>The contract of a cache with a lifetime\<close>

text \<open>
  A history is the list of stores, oldest first, each with its key, value and time. The
  contract fixes what a lookup returns after one store; the client lemmas say what it can
  return after any history: the value stored last under the key, for as long as the
  lifetime, and nothing else.
\<close>

locale ttl_cache =
  fixes lookup :: "'c \<Rightarrow> 'k \<Rightarrow> time \<Rightarrow> 'v option"
    and store :: "'c \<Rightarrow> 'k \<Rightarrow> 'v \<Rightarrow> time \<Rightarrow> 'c"
    and ttl :: "'c \<Rightarrow> int"
  assumes lookup_store_same:
      "lookup (store c k v t) k now = (if now \<le> t + ttl c then Some v else None)"
    and lookup_store_other: "k' \<noteq> k \<Longrightarrow> lookup (store c k v t) k' now = lookup c k' now"
    and ttl_store: "ttl (store c k v t) = ttl c"
begin

definition stores :: "('k \<times> 'v \<times> time) list \<Rightarrow> 'c \<Rightarrow> 'c" where
  "stores h c = fold (\<lambda>(k, v, t) c. store c k v t) h c"

lemma stores_snoc: "stores (h @ [(k, v, t)]) c = store (stores h c) k v t"
  by (simp add: stores_def)

lemma ttl_stores: "ttl (stores h c) = ttl c"
  by (induction h rule: rev_induct) (auto simp: stores_snoc ttl_store stores_def)

text \<open>A hit is the last store under its key, and not older than the lifetime.\<close>

lemma hit_is_last_store:
  assumes "lookup c k now = None" "lookup (stores h c) k now = Some v"
  shows "\<exists>t pre post. h = pre @ (k, v, t) # post \<and> k \<notin> fst ` set post \<and> now \<le> t + ttl c"
  using assms(2)
proof (induction h rule: rev_induct)
  case Nil
  with assms(1) show ?case by (simp add: stores_def)
next
  case (snoc x h)
  obtain k' v' t where x: "x = (k', v', t)" by (cases x)
  show ?case
  proof (cases "k' = k")
    case True
    with snoc.prems have "now \<le> t + ttl c \<and> v' = v"
      by (auto simp: x stores_snoc lookup_store_same ttl_stores split: if_splits)
    with True x show ?thesis
      by (intro exI [of _ t] exI [of _ h] exI [of _ "[]"]) auto
  next
    case False
    with snoc.prems have "lookup (stores h c) k now = Some v"
      by (simp add: x stores_snoc lookup_store_other)
    with snoc.IH obtain t' pre post where
      "h = pre @ (k, v, t') # post" "k \<notin> fst ` set post" "now \<le> t' + ttl c" by blast
    with False x show ?thesis
      by (intro exI [of _ t'] exI [of _ pre] exI [of _ "post @ [x]"]) auto
  qed
qed

text \<open>Conversely the last store under a key is returned until it expires, and then nothing is.\<close>

lemma last_store_hit:
  assumes "k \<notin> fst ` set post"
  shows "lookup (stores (pre @ (k, v, t) # post) c) k now =
    (if now \<le> t + ttl c then Some v else None)"
  using assms
proof (induction post rule: rev_induct)
  case Nil
  then show ?case by (simp add: stores_snoc lookup_store_same ttl_stores)
next
  case (snoc x post)
  obtain k' v' t' where x: "x = (k', v', t')" by (cases x)
  have "stores (pre @ (k, v, t) # post @ [x]) c = store (stores (pre @ (k, v, t) # post) c) k' v' t'"
    using stores_snoc [of "pre @ (k, v, t) # post"] by (simp add: x)
  with snoc x show ?case by (simp add: lookup_store_other)
qed

end

text \<open>The signer cache has one entry, so its key type is \<^typ>\<open>unit\<close>.\<close>

interpretation signers: ttl_cache "\<lambda>c (k :: unit). sc_get c" "\<lambda>c (k :: unit). sc_set c" sc_ttl
  by unfold_locales (auto simp: cache_defs)

interpretation pubkey: ttl_cache getPubKey setPubKey cd_ttl
  by unfold_locales (auto simp: cache_defs)

interpretation cert: ttl_cache getCert setCert cd_ttl
  by unfold_locales (auto simp: cache_defs)

lemma getCert_setPubKey [simp]: "getCert (setPubKey c k pk t) k' now = getCert c k' now"
  by (simp add: cache_defs)

lemma getPubKey_setCert [simp]: "getPubKey (setCert c k b t) k' now = getPubKey c k' now"
  by (simp add: cache_defs)

lemma sc_get_invalidate [simp]: "sc_get (sc_invalidate c) now = None"
  by (simp add: cache_defs)

lemma sc_get_new [simp]: "sc_get (newSignerCache n) now = None"
  by (simp add: newSignerCache_def cache_defs Let_def)

lemma getCert_new [simp]: "getCert (newCertDataCache n) k now = None"
  by (simp add: newCertDataCache_def cache_defs Let_def)

lemma getPubKey_new [simp]: "getPubKey (newCertDataCache n) k now = None"
  by (simp add: newCertDataCache_def cache_defs Let_def)

text \<open>Within the range of a 64-bit duration the lifetime is exact.\<close>

lemma seconds_exact: "0 \<le> n \<Longrightarrow> n \<le> 9223372036 \<Longrightarrow> seconds n = n * 1000000000"
  by (simp add: seconds_def signed_of_int signed_take_bit_small del: of_int_mult)

end
