(* ===== verification/Mechanism.thy ===== *)
theory Mechanism
  imports Go_Sha2 Errors
begin

text \<open>
  \<^verbatim>\<open>mechanism.go\<close>: the Infisical algorithm of every PKCS#11 mechanism, the parser of the
  DigestInfo a caller of raw RSA signing passes, and the mechanism lists; with
  \<^verbatim>\<open>hashDataForMechanism\<close> of \<^verbatim>\<open>backend.go\<close>.
\<close>

section \<open>Algorithms\<close>

definition AlgRSAPKCS1SHA256 :: string where "AlgRSAPKCS1SHA256 = ''RSASSA_PKCS1_V1_5_SHA_256''"
definition AlgRSAPKCS1SHA384 :: string where "AlgRSAPKCS1SHA384 = ''RSASSA_PKCS1_V1_5_SHA_384''"
definition AlgRSAPKCS1SHA512 :: string where "AlgRSAPKCS1SHA512 = ''RSASSA_PKCS1_V1_5_SHA_512''"
definition AlgRSAPSSSHA256 :: string where "AlgRSAPSSSHA256 = ''RSASSA_PSS_SHA_256''"
definition AlgRSAPSSSHA384 :: string where "AlgRSAPSSSHA384 = ''RSASSA_PSS_SHA_384''"
definition AlgRSAPSSSHA512 :: string where "AlgRSAPSSSHA512 = ''RSASSA_PSS_SHA_512''"
definition AlgECDSASHA256 :: string where "AlgECDSASHA256 = ''ECDSA_SHA_256''"
definition AlgECDSASHA384 :: string where "AlgECDSASHA384 = ''ECDSA_SHA_384''"
definition AlgECDSASHA512 :: string where "AlgECDSASHA512 = ''ECDSA_SHA_512''"

lemmas alg_defs = AlgRSAPKCS1SHA256_def AlgRSAPKCS1SHA384_def AlgRSAPKCS1SHA512_def
  AlgRSAPSSSHA256_def AlgRSAPSSSHA384_def AlgRSAPSSSHA512_def
  AlgECDSASHA256_def AlgECDSASHA384_def AlgECDSASHA512_def

definition mechanismToAlgorithm :: "uint \<Rightarrow> string result" where
  "mechanismToAlgorithm m =
     (if m = CKM_SHA256_RSA_PKCS then Inr AlgRSAPKCS1SHA256
      else if m = CKM_SHA384_RSA_PKCS then Inr AlgRSAPKCS1SHA384
      else if m = CKM_SHA512_RSA_PKCS then Inr AlgRSAPKCS1SHA512
      else if m = CKM_SHA256_RSA_PKCS_PSS then Inr AlgRSAPSSSHA256
      else if m = CKM_SHA384_RSA_PKCS_PSS then Inr AlgRSAPSSSHA384
      else if m = CKM_SHA512_RSA_PKCS_PSS then Inr AlgRSAPSSSHA512
      else if m = CKM_ECDSA_SHA256 then Inr AlgECDSASHA256
      else if m = CKM_ECDSA_SHA384 then Inr AlgECDSASHA384
      else if m = CKM_ECDSA_SHA512 then Inr AlgECDSASHA512
      else if m = CKM_ECDSA then Inr AlgECDSASHA256
      else if m = CKM_RSA_PKCS then Inl (Errorf ''CKM_RSA_PKCS requires DigestInfo parsing'')
      else Inl (Errorf ''unsupported mechanism''))"

definition isPSSMechanism :: "uint \<Rightarrow> bool" where
  "isPSSMechanism m \<longleftrightarrow>
     m = CKM_SHA256_RSA_PKCS_PSS \<or> m = CKM_SHA384_RSA_PKCS_PSS \<or> m = CKM_SHA512_RSA_PKCS_PSS"

definition rsaMechanisms :: "uint list" where
  "rsaMechanisms = [CKM_RSA_PKCS, CKM_SHA256_RSA_PKCS, CKM_SHA384_RSA_PKCS, CKM_SHA512_RSA_PKCS,
     CKM_SHA256_RSA_PKCS_PSS, CKM_SHA384_RSA_PKCS_PSS, CKM_SHA512_RSA_PKCS_PSS]"

definition ecMechanisms :: "uint list" where
  "ecMechanisms = [CKM_ECDSA, CKM_ECDSA_SHA256, CKM_ECDSA_SHA384, CKM_ECDSA_SHA512]"

definition hashDataForMechanism :: "uint \<Rightarrow> bytes \<Rightarrow> bytes" where
  "hashDataForMechanism m data =
     (if m = CKM_SHA256_RSA_PKCS \<or> m = CKM_SHA256_RSA_PKCS_PSS \<or> m = CKM_ECDSA_SHA256 then sum256 data
      else if m = CKM_SHA384_RSA_PKCS \<or> m = CKM_SHA384_RSA_PKCS_PSS \<or> m = CKM_ECDSA_SHA384
        then sum384 data
      else if m = CKM_SHA512_RSA_PKCS \<or> m = CKM_SHA512_RSA_PKCS_PSS \<or> m = CKM_ECDSA_SHA512
        then sum512 data
      else data)"

section \<open>DigestInfo\<close>

definition oidSHA256 :: "nat list" where "oidSHA256 = [2, 16, 840, 1, 101, 3, 4, 2, 1]"
definition oidSHA384 :: "nat list" where "oidSHA384 = [2, 16, 840, 1, 101, 3, 4, 2, 2]"
definition oidSHA512 :: "nat list" where "oidSHA512 = [2, 16, 840, 1, 101, 3, 4, 2, 3]"

lemmas oid_defs = oidSHA256_def oidSHA384_def oidSHA512_def

definition sha256DigestLen :: nat where "sha256DigestLen = 32"
definition sha384DigestLen :: nat where "sha384DigestLen = 48"
definition sha512DigestLen :: nat where "sha512DigestLen = 64"

lemmas digestLen_defs = sha256DigestLen_def sha384DigestLen_def sha512DigestLen_def

text \<open>
  \<^verbatim>\<open>asn1.Unmarshal\<close> into \<^verbatim>\<open>struct digestInfo\<close>: a SEQUENCE whose first element is any value
  (\<^verbatim>\<open>asn1.RawValue\<close>, kept with its header as \<^verbatim>\<open>FullBytes\<close>) and whose second is an OCTET
  STRING. The library accepts further elements inside the SEQUENCE and returns what follows
  it. The result is the raw algorithm, the digest and that rest.
\<close>

definition unmarshalDigestInfo :: "bytes \<Rightarrow> (bytes \<times> bytes \<times> bytes) option" where
  "unmarshalDigestInfo data =
     (case parseUniversal 16 True data of
        None \<Rightarrow> None
      | Some (content, rest) \<Rightarrow>
          (case parseValue content of
             None \<Rightarrow> None
           | Some (h, inner, r1) \<Rightarrow>
               (case parseUniversal 4 False r1 of
                  None \<Rightarrow> None
                | Some (digest, r2) \<Rightarrow>
                    Some (take (length content - length r1) content, digest, rest))))"

text \<open>
  \<^verbatim>\<open>asn1.Unmarshal\<close> into \<^verbatim>\<open>struct algorithmIdentifier\<close>: an OBJECT IDENTIFIER, then optional
  parameters of any type.
\<close>

definition unmarshalAlgorithmIdentifier :: "bytes \<Rightarrow> nat list option" where
  "unmarshalAlgorithmIdentifier fullBytes =
     (case parseUniversal 16 True fullBytes of
        None \<Rightarrow> None
      | Some (content, _) \<Rightarrow>
          (case parseUniversal 6 False content of
             None \<Rightarrow> None
           | Some (oidBytes, r) \<Rightarrow>
               (case parseObjectIdentifier oidBytes of
                  None \<Rightarrow> None
                | Some oid \<Rightarrow>
                    if r \<noteq> [] \<and> parseValue r = None then None else Some oid)))"

definition parseDigestInfo :: "bytes \<Rightarrow> (string \<times> bytes) result" where
  "parseDigestInfo data =
     (case unmarshalDigestInfo data of
        None \<Rightarrow> Inl (Wrapf ''failed to parse DigestInfo'' (Errorf ''asn1''))
      | Some (algorithm, digest, rest) \<Rightarrow>
          if length rest > 0 then Inl (Errorf ''trailing data after DigestInfo'')
          else case unmarshalAlgorithmIdentifier algorithm of
                 None \<Rightarrow> Inl (Wrapf ''failed to parse AlgorithmIdentifier'' (Errorf ''asn1''))
               | Some oid \<Rightarrow>
                   if oid = oidSHA256 then
                     (if length digest \<noteq> sha256DigestLen
                      then Inl (Errorf ''SHA-256 DigestInfo has wrong digest length'')
                      else Inr (AlgRSAPKCS1SHA256, digest))
                   else if oid = oidSHA384 then
                     (if length digest \<noteq> sha384DigestLen
                      then Inl (Errorf ''SHA-384 DigestInfo has wrong digest length'')
                      else Inr (AlgRSAPKCS1SHA384, digest))
                   else if oid = oidSHA512 then
                     (if length digest \<noteq> sha512DigestLen
                      then Inl (Errorf ''SHA-512 DigestInfo has wrong digest length'')
                      else Inr (AlgRSAPKCS1SHA512, digest))
                   else Inl (Errorf ''unsupported hash OID in DigestInfo''))"

section \<open>DigestInfo as callers build it\<close>

text \<open>
  The encoding of PKCS#1 v1.5: the OID of the hash with NULL parameters, and the digest.
\<close>

definition buildDigestInfo :: "nat list \<Rightarrow> bytes \<Rightarrow> bytes option" where
  "buildDigestInfo oid digest =
     (case marshalOID oid of
        None \<Rightarrow> None
      | Some o6 \<Rightarrow> Some (derValue 48 (derValue 48 (o6 @ [5, 0]) @ marshalOctetString digest)))"

text \<open>The algorithm and digest length of each hash the parser knows.\<close>

definition digestAlgorithm :: "nat list \<Rightarrow> (string \<times> nat) option" where
  "digestAlgorithm oid =
     map_of [(oidSHA256, (AlgRSAPKCS1SHA256, 32)), (oidSHA384, (AlgRSAPKCS1SHA384, 48)),
             (oidSHA512, (AlgRSAPKCS1SHA512, 64))] oid"

lemma length_encodeLength_small: "n < 128 \<Longrightarrow> length (encodeLength n) = 1"
  by (simp add: encodeLength_def)

lemma length_derValue_small: "length c < 128 \<Longrightarrow> length (derValue t c) = length c + 2"
  by (simp add: derValue_def length_encodeLength_small)

lemma parseUniversal_derValue:
  assumes "tagByte < 64" "tagByte mod 32 \<noteq> 31" "length content < 128"
  shows "parseUniversal tag compound (derValue tagByte content @ r) =
    (if tagByte mod 32 = tag \<and> (tagByte div 32 mod 2 = 1) = compound then Some (content, r) else None)"
  using assms by (auto simp: parseUniversal_def parseValue_derValue)

lemma parseValue_small:
  assumes "tagByte < 64" "tagByte mod 32 \<noteq> 31" "length content < 128"
  shows "\<exists>h. parseValue (derValue tagByte content @ r) = Some (h, content, r)"
  using assms by (simp add: parseValue_derValue)

text \<open>The content of the OIDs of the three hashes.\<close>

lemma sha2_oid_content:
  assumes "oid \<in> {oidSHA256, oidSHA384, oidSHA512}"
  obtains c where "marshalOID oid = Some (derValue 6 c)" "length c = 9"
    "parseObjectIdentifier c = Some oid"
proof -
  from assms obtain z where z: "oid = [2, 16, 840, 1, 101, 3, 4, 2, z]" "z < 128"
    by (auto simp: oid_defs)
  let ?c = "base128 (2 * 40 + 16) @ concat (map base128 [840, 1, 101, 3, 4, 2, z])"
  have "parseObjectIdentifier ?c = Some (2 # 16 # [840, 1, 101, 3, 4, 2, z])"
    using z by (intro parseObjectIdentifier_marshal) auto
  moreover have "length ?c = 9"
    using z(2) by (simp add: base128_def base128_high.simps)
  moreover have "marshalOID oid = Some (derValue 6 ?c)"
    using z by (simp add: marshalOID_def)
  ultimately show thesis using that z by simp
qed

lemma unmarshalAlgorithmIdentifier_build:
  assumes "length c = 9" "parseObjectIdentifier c = Some oid"
  shows "unmarshalAlgorithmIdentifier (derValue 48 (derValue 6 c @ [5, 0])) = Some oid"
proof -
  have "parseValue [5, 0] \<noteq> None"
    by (simp add: parseValue_def parseTagAndLength_def parseLength_def)
  with assms show ?thesis
    using parseUniversal_derValue [of 48 "derValue 6 c @ [5, 0]" 16 True "[]"]
      parseUniversal_derValue [of 6 c 6 False "[5, 0]"]
    by (simp add: unmarshalAlgorithmIdentifier_def length_derValue_small)
qed

lemma unmarshalDigestInfo_build:
  assumes "length alg < 50" "length digest \<le> 64"
  shows "unmarshalDigestInfo (derValue 48 (derValue 48 alg @ marshalOctetString digest)) =
    Some (derValue 48 alg, digest, [])"
proof -
  have len: "length (derValue 48 alg @ derValue 4 digest) < 128"
    using assms by (simp add: length_derValue_small)
  obtain h where "parseValue (derValue 48 alg @ derValue 4 digest) = Some (h, alg, derValue 4 digest)"
    using parseValue_small [of 48 alg "derValue 4 digest"] assms by auto
  with len assms show ?thesis
    using parseUniversal_derValue [of 48 "derValue 48 alg @ derValue 4 digest" 16 True "[]"]
      parseUniversal_derValue [of 4 digest 4 False "[]"]
    by (simp add: unmarshalDigestInfo_def marshalOctetString_def)
qed

section \<open>Properties\<close>

text \<open>
  C29: a DigestInfo built for SHA-256, SHA-384 or SHA-512 with a digest of the right length is
  parsed back to exactly that digest and to the RSA PKCS#1 v1.5 algorithm of that hash.
\<close>

theorem parseDigestInfo_roundtrip:
  assumes "digestAlgorithm oid = Some (alg, n)" "length digest = n"
    "buildDigestInfo oid digest = Some data"
  shows "parseDigestInfo data = Inr (alg, digest)"
proof -
  have oid: "oid \<in> {oidSHA256, oidSHA384, oidSHA512}"
    using assms(1) by (auto simp: digestAlgorithm_def split: if_splits)
  then obtain c where c: "marshalOID oid = Some (derValue 6 c)" "length c = 9"
    "parseObjectIdentifier c = Some oid" by (rule sha2_oid_content)
  have n: "n \<le> 64" using assms(1) by (auto simp: digestAlgorithm_def split: if_splits)
  have "data = derValue 48 (derValue 48 (derValue 6 c @ [5, 0]) @ marshalOctetString digest)"
    using assms(3) c(1) by (simp add: buildDigestInfo_def)
  then have "unmarshalDigestInfo data = Some (derValue 48 (derValue 6 c @ [5, 0]), digest, [])"
    using n c(2) assms(2) by (simp add: unmarshalDigestInfo_build length_derValue_small)
  then show ?thesis
    using assms(1,2) unmarshalAlgorithmIdentifier_build [OF c(2,3)]
    by (auto simp: parseDigestInfo_def digestAlgorithm_def digestLen_defs oid_defs split: if_splits)
qed

theorem parseDigestInfo_roundtrip_witness:
  "\<exists>data. buildDigestInfo oidSHA384 (replicate 48 7) = Some data
     \<and> parseDigestInfo data = Inr (AlgRSAPKCS1SHA384, replicate 48 7)"
proof -
  obtain data where data: "buildDigestInfo oidSHA384 (replicate 48 7) = Some data"
    by (simp add: buildDigestInfo_def marshalOID_def oid_defs)
  have "digestAlgorithm oidSHA384 = Some (AlgRSAPKCS1SHA384, 48)"
    by (simp add: digestAlgorithm_def oid_defs)
  then have "parseDigestInfo data = Inr (AlgRSAPKCS1SHA384, replicate 48 7)"
    using parseDigestInfo_roundtrip [OF _ _ data, of AlgRSAPKCS1SHA384 48] by simp
  with data show ?thesis by blast
qed

lemma parseDigestInfo_length:
  "parseDigestInfo data = Inr (alg, digest) \<Longrightarrow> (alg, length digest) \<in>
     {(AlgRSAPKCS1SHA256, 32), (AlgRSAPKCS1SHA384, 48), (AlgRSAPKCS1SHA512, 64)}"
  by (auto simp: parseDigestInfo_def digestLen_defs split: option.splits if_splits)

lemma parseDigestInfo_sublist:
  assumes "parseDigestInfo data = Inr (alg, digest)"
  shows "sublist digest data"
proof -
  from assms obtain a rest where "unmarshalDigestInfo data = Some (a, digest, rest)"
    by (auto simp: parseDigestInfo_def split: option.splits if_splits)
  then obtain c i h r1 r2 where p: "parseUniversal 16 True data = Some (c, rest)"
    "parseValue c = Some (h, i, r1)" "parseUniversal 4 False r1 = Some (digest, r2)"
    by (auto simp: unmarshalDigestInfo_def split: option.splits)
  have "sublist digest r1" "sublist r1 c" "sublist c data"
    using parseUniversal_suffix [OF p(1)] parseValue_suffix [OF p(2)] parseUniversal_suffix [OF p(3)]
    by (blast dest: suffix_app_sublist)+
  then show ?thesis by (metis sublist_order.order.trans)
qed

text \<open>
  C34: whatever the parser accepts, it names an RSA PKCS#1 v1.5 algorithm whose hash has
  exactly the length of the digest it returns, and the digest is a contiguous piece of the
  caller's data.
\<close>

theorem parseDigestInfo_sound:
  assumes "parseDigestInfo data = Inr (alg, digest)"
  shows "(alg, length digest) \<in>
      {(AlgRSAPKCS1SHA256, 32), (AlgRSAPKCS1SHA384, 48), (AlgRSAPKCS1SHA512, 64)}
    \<and> sublist digest data"
  using parseDigestInfo_length [OF assms] parseDigestInfo_sublist [OF assms] by blast

theorem parseDigestInfo_sound_witness:
  "\<exists>data. parseDigestInfo data = Inr (AlgRSAPKCS1SHA256, replicate 32 1)
     \<and> sublist (replicate 32 1) data"
proof -
  obtain data where data: "buildDigestInfo oidSHA256 (replicate 32 1) = Some data"
    by (simp add: buildDigestInfo_def marshalOID_def oid_defs)
  obtain c where "marshalOID oidSHA256 = Some (derValue 6 c)" "length c = 9"
    "parseObjectIdentifier c = Some oidSHA256" using sha2_oid_content [of oidSHA256] by auto
  with data have "parseDigestInfo data = Inr (AlgRSAPKCS1SHA256, replicate 32 1)"
    using unmarshalDigestInfo_build [of "derValue 6 c @ [5, 0]" "replicate 32 1"]
      unmarshalAlgorithmIdentifier_build [of c oidSHA256]
    by (auto simp: buildDigestInfo_def parseDigestInfo_def length_derValue_small digestLen_defs)
  with parseDigestInfo_sound [OF this] show ?thesis by blast
qed

text \<open>The digest size of the hash an algorithm name ends with.\<close>

definition algorithmDigestLen :: "string \<Rightarrow> nat" where
  "algorithmDigestLen alg =
     (if hasSuffix alg ''SHA_256'' then 32 else if hasSuffix alg ''SHA_384'' then 48
      else if hasSuffix alg ''SHA_512'' then 64 else 0)"

text \<open>
  Every mechanism the module advertises, other than the two raw ones, has an algorithm;
  for those that are not PSS the data sent to the server is a digest of exactly the size of
  the algorithm's hash, and the algorithm is of the key family the mechanism belongs to.
\<close>

theorem advertised_mechanisms_have_algorithms:
  assumes "m \<in> set (rsaMechanisms @ ecMechanisms)" "m \<noteq> CKM_RSA_PKCS" "m \<noteq> CKM_ECDSA"
  shows "\<exists>alg. mechanismToAlgorithm m = Inr alg
    \<and> length (hashDataForMechanism m data) = algorithmDigestLen alg
    \<and> hasPrefix alg (if m \<in> set ecMechanisms then ''ECDSA_''
        else if isPSSMechanism m then ''RSASSA_PSS_'' else ''RSASSA_PKCS1_V1_5_'')"
  using assms
  by (auto simp: rsaMechanisms_def ecMechanisms_def mechanismToAlgorithm_def isPSSMechanism_def
      hashDataForMechanism_def const_vals alg_defs algorithmDigestLen_def hasSuffix_def
      hasPrefix_def)

theorem advertised_mechanisms_have_algorithms_witness:
  "\<exists>alg. mechanismToAlgorithm CKM_ECDSA_SHA384 = Inr alg
    \<and> length (hashDataForMechanism CKM_ECDSA_SHA384 [1, 2, 3]) = algorithmDigestLen alg"
  using advertised_mechanisms_have_algorithms [of CKM_ECDSA_SHA384 "[1, 2, 3]"]
  by (auto simp: ecMechanisms_def const_vals)

end
