(* ===== verification/Client.thy ===== *)
theory Client
  imports Config Cache Mechanism
begin

text \<open>
  \<^verbatim>\<open>client.go\<close>: the client of the Infisical API. Two libraries that are not part of the
  repository carry its requests, resty and the Infisical SDK; what they do is an argument of
  the definitions, the record \<open>services\<close>. The world they act on has an arbitrary type, and
  each call returns the changed world, so every theorem holds for every behaviour of the
  network, of the server and of the clock.
\<close>

section \<open>Requests and responses\<close>

record signerResponse =
  ID :: string
  Name :: string
  Status :: string
  CertificateID :: string
  KeyAlgorithm :: string
  ApprovalPolicyID :: "string option"

definition keyAlgorithm :: "signerResponse \<Rightarrow> string" where
  "keyAlgorithm s = toLower (KeyAlgorithm s)"

record signRequest =
  Data :: string
  SigningAlgorithm :: string
  IsDigest :: bool
  ClientMetadata :: clientMetadata

record approvalRequest =
  Justification :: string
  RequestedSignings :: int
  RequestedWindowDuration :: string
  Scope :: signingScope

record approvalRequestResponse =
  ar_ID :: string
  ar_Status :: string

record apiErrorBody =
  eb_Message :: string
  eb_Error :: string
  eb_HasPendingRequest :: bool

text \<open>The resty client \<^verbatim>\<open>newInfisicalClient\<close> configures, and the configuration of the SDK.\<close>

record restyClient =
  BaseURL :: string
  InsecureSkipVerify :: bool
  MinVersion :: nat
  RootCAs :: "bytes option"
  Timeout :: int
  UserAgentHeader :: string

record sdkConfig =
  SiteUrl :: string
  CaCertificate :: string
  UserAgent :: string
  SilentMode :: bool

datatype request_body = NoBody | SignBody signRequest | ApprovalBody approvalRequest

datatype http_method = GET | POST

record http_request =
  rq_client :: restyClient
  rq_method :: http_method
  rq_path :: string
  rq_query :: "(string \<times> string) list"
  rq_token :: string
  rq_body :: request_body

record http_response =
  rs_status :: int
  rs_body :: bytes

section \<open>The libraries\<close>

text \<open>The public keys of a certificate the module tells apart, and the fields it reads.\<close>

datatype curve = P256 | P384 | P521 | OtherCurve string

datatype public_key = RSAKey nat int64 | ECKey curve nat nat | OtherKey

record certificate =
  RawSubject :: bytes
  RawIssuer :: bytes
  SerialNumber :: int
  PublicKey :: public_key

text \<open>The Go values the code passes to \<^verbatim>\<open>pkcs11.NewAttribute\<close>.\<close>

datatype attr_value = VBool bool | VUint uint | VBytes bytes

text \<open>
  In the order of the fields: the operating system and the clock; resty, which executes a
  request and decodes a response into the result record (a text is an error); the decoder of
  error bodies, which returns the record filled so far and whether it succeeded; the SDK,
  whose clients are numbers here; the parsers of certificates; and the encoding of an
  attribute value.
\<close>

record 'w services =
  sv_parsers :: parsers
  sv_os :: "'w \<Rightarrow> os"
  sv_now :: "'w \<Rightarrow> time \<times> 'w"
  sv_http :: "http_request \<Rightarrow> 'w \<Rightarrow> (string + http_response) \<times> 'w"
  sv_decode_signers :: "http_response \<Rightarrow> string + signerResponse list"
  sv_decode_certificate :: "http_response \<Rightarrow> string + string"
  sv_decode_signature :: "http_response \<Rightarrow> string + string"
  sv_decode_approval :: "http_response \<Rightarrow> string + approvalRequestResponse"
  sv_decode_error :: "bytes \<Rightarrow> apiErrorBody \<times> bool"
  sv_sdk_new :: "sdkConfig \<Rightarrow> 'w \<Rightarrow> nat \<times> 'w"
  sv_sdk_login :: "nat \<Rightarrow> string \<Rightarrow> string \<Rightarrow> 'w \<Rightarrow> string option \<times> 'w"
  sv_sdk_token :: "nat \<Rightarrow> 'w \<Rightarrow> string"
  sv_append_ca :: "bytes \<Rightarrow> bool"
  sv_pem_Decode :: "string \<Rightarrow> bytes option"
  sv_parse_certificate :: "bytes \<Rightarrow> certificate option"
  sv_attribute :: "attr_value \<Rightarrow> bytes"

section \<open>The client\<close>

definition userAgent :: string where "userAgent = ''infisical-pkcs11-module''"

record InfisicalClient =
  httpClient :: restyClient
  sdkClient :: "nat option"
  cl_sdkConfig :: sdkConfig

definition newInfisicalClient :: "'w services \<Rightarrow> Config \<Rightarrow> 'w \<Rightarrow> InfisicalClient result" where
  "newInfisicalClient sv cfg w =
     (let mk = \<lambda>roots caCertPEM.
        \<lparr>httpClient =
           \<lparr>BaseURL = ServerURL cfg, InsecureSkipVerify = SkipVerify (TLS cfg), MinVersion = 0x0303,
            RootCAs = roots, Timeout = 30 * 1000000000, UserAgentHeader = userAgent\<rparr>,
         sdkClient = None,
         cl_sdkConfig =
           \<lparr>SiteUrl = trimRightChar (ServerURL cfg) CHR ''/'', CaCertificate = caCertPEM,
            UserAgent = userAgent, SilentMode = True\<rparr>\<rparr>
      in if CACertPath (TLS cfg) \<noteq> [] then
           (case os_readFile (sv_os sv w) (CACertPath (TLS cfg)) of
              None \<Rightarrow> Inl (Wrapf ''failed to read CA cert'' (Errorf ''os''))
            | Some caCert \<Rightarrow>
                if \<not> sv_append_ca sv caCert then Inl (Errorf ''failed to parse CA cert'')
                else Inr (mk (Some caCert) (string_of_bytes caCert)))
         else Inr (mk None []))"

definition newAPIError :: "'w services \<Rightarrow> string \<Rightarrow> http_response \<Rightarrow> APIError" where
  "newAPIError sv operation resp =
     (let message = ''HTTP '' @ show_int (rs_status resp);
          (body, ok) = sv_decode_error sv (rs_body resp);
          message = (if ok then (if eb_Message body \<noteq> [] then eb_Message body
                                 else if eb_Error body \<noteq> [] then eb_Error body else message)
                     else message)
      in \<lparr>StatusCode = rs_status resp, Message = message, Operation = operation,
          Code = eb_Error body, HasPendingRequest = eb_HasPendingRequest body\<rparr>)"

definition ensureSDKClient ::
  "'w services \<Rightarrow> InfisicalClient \<Rightarrow> 'w \<Rightarrow> nat \<times> InfisicalClient \<times> 'w" where
  "ensureSDKClient sv c w =
     (case sdkClient c of
        Some k \<Rightarrow> (k, c, w)
      | None \<Rightarrow> (case sv_sdk_new sv (cl_sdkConfig c) w of
                   (k, w) \<Rightarrow> (k, c\<lparr>sdkClient := Some k\<rparr>, w)))"

definition UniversalAuthLogin ::
  "'w services \<Rightarrow> InfisicalClient \<Rightarrow> string \<Rightarrow> string \<Rightarrow> 'w \<Rightarrow> unit result \<times> InfisicalClient \<times> 'w" where
  "UniversalAuthLogin sv c clientID clientSecret w =
     (case ensureSDKClient sv c w of (k, c, w) \<Rightarrow>
        (case sv_sdk_login sv k clientID clientSecret w of
           (Some err, w) \<Rightarrow> (Inl (RequestError ''login'' (Errorf err)), c, w)
         | (None, w) \<Rightarrow> (Inr (), c, w)))"

definition GetAccessToken :: "'w services \<Rightarrow> InfisicalClient \<Rightarrow> 'w \<Rightarrow> string" where
  "GetAccessToken sv c w =
     (case sdkClient c of None \<Rightarrow> [] | Some k \<Rightarrow> sv_sdk_token sv k w)"

text \<open>
  What the four request methods share: send, turn a failure of the transport or of the
  decoder into a \<^verbatim>\<open>RequestError\<close> and an error status (above 399) into an \<^verbatim>\<open>APIError\<close>.
\<close>

definition send ::
  "'w services \<Rightarrow> string \<Rightarrow> http_request \<Rightarrow> (http_response \<Rightarrow> string + 'r) \<Rightarrow> 'w \<Rightarrow> 'r result \<times> 'w" where
  "send sv operation rq decode w =
     (case sv_http sv rq w of
        (Inl err, w) \<Rightarrow> (Inl (RequestError operation (Errorf err)), w)
      | (Inr resp, w) \<Rightarrow>
          if rs_status resp > 399 then (Inl (API (newAPIError sv operation resp)), w)
          else (case decode resp of
                  Inl err \<Rightarrow> (Inl (RequestError operation (Errorf err)), w)
                | Inr r \<Rightarrow> (Inr r, w)))"

definition signersPath :: string where
  "signersPath = ''/api/v1/cert-manager/signers''"

definition listSigners_request :: "restyClient \<Rightarrow> string \<Rightarrow> http_request" where
  "listSigners_request c token =
     \<lparr>rq_client = c, rq_method = GET, rq_path = signersPath,
      rq_query = [(''limit'', ''100'')], rq_token = token, rq_body = NoBody\<rparr>"

definition ListSigners ::
  "'w services \<Rightarrow> InfisicalClient \<Rightarrow> string \<Rightarrow> 'w \<Rightarrow> signerResponse list result \<times> 'w" where
  "ListSigners sv c token w =
     send sv ''list-signers'' (listSigners_request (httpClient c) token) (sv_decode_signers sv) w"

definition certificate_request :: "restyClient \<Rightarrow> string \<Rightarrow> string \<Rightarrow> http_request" where
  "certificate_request c token signerID =
     \<lparr>rq_client = c, rq_method = GET,
      rq_path = signersPath @ ''/'' @ signerID @ ''/certificate'',
      rq_query = [], rq_token = token, rq_body = NoBody\<rparr>"

definition GetCertificate ::
  "'w services \<Rightarrow> InfisicalClient \<Rightarrow> string \<Rightarrow> string \<Rightarrow> 'w \<Rightarrow> string result \<times> 'w" where
  "GetCertificate sv c token signerID w =
     send sv ''get-certificate'' (certificate_request (httpClient c) token signerID) (sv_decode_certificate sv) w"

definition sign_request :: "restyClient \<Rightarrow> string \<Rightarrow> string \<Rightarrow> signRequest \<Rightarrow> http_request" where
  "sign_request c token signerID req =
     \<lparr>rq_client = c, rq_method = POST,
      rq_path = signersPath @ ''/'' @ signerID @ ''/sign'',
      rq_query = [], rq_token = token, rq_body = SignBody req\<rparr>"

text \<open>\<^verbatim>\<open>InfisicalClient.Sign\<close>.\<close>

definition client_Sign ::
  "'w services \<Rightarrow> InfisicalClient \<Rightarrow> string \<Rightarrow> string \<Rightarrow> signRequest \<Rightarrow> 'w \<Rightarrow> string result \<times> 'w" where
  "client_Sign sv c token signerID req w =
     send sv ''sign'' (sign_request (httpClient c) token signerID req) (sv_decode_signature sv) w"

definition approval_request ::
  "restyClient \<Rightarrow> string \<Rightarrow> string \<Rightarrow> approvalRequest \<Rightarrow> http_request" where
  "approval_request c token signerID req =
     \<lparr>rq_client = c, rq_method = POST,
      rq_path = signersPath @ ''/'' @ signerID @ ''/requests'',
      rq_query = [], rq_token = token, rq_body = ApprovalBody req\<rparr>"

definition RequestApproval ::
  "'w services \<Rightarrow> InfisicalClient \<Rightarrow> string \<Rightarrow> string \<Rightarrow> approvalRequest \<Rightarrow> 'w \<Rightarrow>
   approvalRequestResponse result \<times> 'w" where
  "RequestApproval sv c token signerID req w =
     send sv ''request-approval'' (approval_request (httpClient c) token signerID req) (sv_decode_approval sv) w"

lemmas request_methods = ListSigners_def GetCertificate_def client_Sign_def RequestApproval_def

section \<open>Facts\<close>

text \<open>A fresh login changes nothing of the client but the SDK client it may create.\<close>

lemma UniversalAuthLogin_frame:
  assumes "UniversalAuthLogin sv c i s w = (r, c', w')"
  shows "httpClient c' = httpClient c" "cl_sdkConfig c' = cl_sdkConfig c" "sdkClient c' \<noteq> None"
    "sdkClient c \<noteq> None \<Longrightarrow> sdkClient c' = sdkClient c"
  using assms
  by (auto simp: UniversalAuthLogin_def ensureSDKClient_def split: option.splits prod.splits)

lemma UniversalAuthLogin_error:
  "UniversalAuthLogin sv c i s w = (Inl err, c', w') \<Longrightarrow> mapErrorToRV err = CKR_GENERAL_ERROR"
  by (auto simp: UniversalAuthLogin_def mapErrorToRV_def split: prod.splits option.splits)

lemma newAPIError_fields [simp]:
  "StatusCode (newAPIError sv op resp) = rs_status resp"
  "Operation (newAPIError sv op resp) = op"
  "Code (newAPIError sv op resp) = eb_Error (fst (sv_decode_error sv (rs_body resp)))"
  "HasPendingRequest (newAPIError sv op resp) =
     eb_HasPendingRequest (fst (sv_decode_error sv (rs_body resp)))"
  by (simp_all add: newAPIError_def Let_def split: prod.splits)

lemma send_cases:
  assumes "send sv op rq decode w = (r, w')"
  obtains (transport) err where "sv_http sv rq w = (Inl err, w')" "r = Inl (RequestError op (Errorf err))"
  | (status) resp where "sv_http sv rq w = (Inr resp, w')" "rs_status resp > 399"
      "r = Inl (API (newAPIError sv op resp))"
  | (decode) resp err where "sv_http sv rq w = (Inr resp, w')" "rs_status resp \<le> 399"
      "decode resp = Inl err" "r = Inl (RequestError op (Errorf err))"
  | (ok) resp x where "sv_http sv rq w = (Inr resp, w')" "rs_status resp \<le> 399"
      "decode resp = Inr x" "r = Inr x"
  using assms by (auto simp: send_def split: prod.splits sum.splits if_splits)

lemma send_error_API:
  assumes "send sv op rq decode w = (Inl e, w')" "errorsAsAPI e = Some a"
  shows "\<exists>resp. sv_http sv rq w = (Inr resp, w') \<and> rs_status resp > 399
    \<and> e = API a \<and> a = newAPIError sv op resp"
  using assms by (auto elim!: send_cases)

text \<open>The error codes of a request that fails.\<close>

lemma send_error_codes:
  assumes "send sv op rq decode w = (Inl e, w')"
  shows "mapErrorToRV e =
    (case fst (sv_http sv rq w) of
       Inl err \<Rightarrow> CKR_GENERAL_ERROR
     | Inr resp \<Rightarrow> if rs_status resp > 399 then mapAPIError (newAPIError sv op resp)
                   else CKR_GENERAL_ERROR)"
  using assms by (auto simp: mapErrorToRV_def elim!: send_cases)

end
