(* ===== verification/Slots.thy ===== *)
theory Slots
  imports Errors
begin

text \<open>
  \<^verbatim>\<open>slots.go\<close>: object handles, the session record and the session manager. The Go map from
  handles to session pointers is a partial map from handles to session records; a method
  that writes through a session pointer updates the record under its handle. The loops over
  the map touch every session once, in an order Go does not fix and their result does not
  depend on.
\<close>

section \<open>Object handles\<close>

definition objPrivateKey :: uint where [const_vals]: "objPrivateKey = 0x10000000"
definition objCertificate :: uint where [const_vals]: "objCertificate = 0x20000000"
definition objPublicKey :: uint where [const_vals]: "objPublicKey = 0x30000000"

definition makePrivateKeyHandle :: "uint \<Rightarrow> uint" where
  "makePrivateKeyHandle slotIndex = objPrivateKey OR slotIndex"

definition makeCertificateHandle :: "uint \<Rightarrow> uint" where
  "makeCertificateHandle slotIndex = objCertificate OR slotIndex"

definition makePublicKeyHandle :: "uint \<Rightarrow> uint" where
  "makePublicKeyHandle slotIndex = objPublicKey OR slotIndex"

definition parseObjectHandle :: "uint \<Rightarrow> uint \<times> uint" where
  "parseObjectHandle h = (h AND 0xF0000000, h AND 0x0FFFFFFF)"

section \<open>Sessions\<close>

record session =
  slotID :: uint
  loggedIn :: bool
  signActive :: bool
  signMech :: uint
  signKeyIndex :: uint
  signBuffer :: bytes
  cachedSignature :: "bytes option"
  findActive :: bool
  findTemplate :: "Attribute list"
  findResults :: "uint list"
  findPos :: nat

record sessionManager =
  sessions :: "uint \<rightharpoonup> session"
  nextID :: uint

text \<open>The record \<^verbatim>\<open>&session{slotID: slotID}\<close>: every other field has its zero value.\<close>

definition new_session :: "uint \<Rightarrow> session" where
  "new_session slot =
     \<lparr>slotID = slot, loggedIn = False, signActive = False, signMech = 0, signKeyIndex = 0,
      signBuffer = [], cachedSignature = None, findActive = False, findTemplate = [],
      findResults = [], findPos = 0\<rparr>"

definition newSessionManager :: sessionManager where
  "newSessionManager = \<lparr>sessions = Map.empty, nextID = 1\<rparr>"

definition sm_open :: "sessionManager \<Rightarrow> uint \<Rightarrow> uint \<times> sessionManager" where
  "sm_open m slot =
     (let handle = nextID m
      in (handle, m\<lparr>nextID := nextID m + 1, sessions := (sessions m)(handle \<mapsto> new_session slot)\<rparr>))"

definition sm_get :: "sessionManager \<Rightarrow> uint \<Rightarrow> session option" where
  "sm_get m handle = sessions m handle"

definition sm_close :: "sessionManager \<Rightarrow> uint \<Rightarrow> bool \<times> sessionManager" where
  "sm_close m handle =
     (case sessions m handle of
        None \<Rightarrow> (False, m)
      | Some _ \<Rightarrow> (True, m\<lparr>sessions := (sessions m)(handle := None)\<rparr>))"

definition closeAllForSlot :: "sessionManager \<Rightarrow> uint \<Rightarrow> sessionManager" where
  "closeAllForSlot m slot =
     m\<lparr>sessions := (\<lambda>h. case sessions m h of
         None \<Rightarrow> None
       | Some s \<Rightarrow> if slotID s = slot then None else Some s)\<rparr>"

text \<open>A write through the pointer \<^verbatim>\<open>m.sessions[handle]\<close>.\<close>

definition sm_update :: "sessionManager \<Rightarrow> uint \<Rightarrow> (session \<Rightarrow> session) \<Rightarrow> sessionManager" where
  "sm_update m handle f = m\<lparr>sessions := map_at handle f (sessions m)\<rparr>"

definition setLoggedIn :: "sessionManager \<Rightarrow> uint \<Rightarrow> bool \<Rightarrow> sessionManager" where
  "setLoggedIn m handle b = sm_update m handle (\<lambda>s. s\<lparr>loggedIn := b\<rparr>)"

definition setAllLoggedInForSlot :: "sessionManager \<Rightarrow> uint \<Rightarrow> bool \<Rightarrow> sessionManager" where
  "setAllLoggedInForSlot m slot b =
     m\<lparr>sessions := (\<lambda>h. case sessions m h of
         None \<Rightarrow> None
       | Some s \<Rightarrow> Some (if slotID s = slot then s\<lparr>loggedIn := b\<rparr> else s))\<rparr>"

definition maxSignBuffer :: nat where [const_vals]: "maxSignBuffer = 16 * 1024 * 1024"

definition appendSignBuffer :: "session \<Rightarrow> bytes \<Rightarrow> session result" where
  "appendSignBuffer s data =
     (let newLen = length (signBuffer s) + length data
      in if newLen > maxSignBuffer then Inl (Errorf ''sign buffer exceeds maximum size'')
         else Inr (s\<lparr>signBuffer := signBuffer s @ data\<rparr>))"

section \<open>Facts about handles\<close>

lemma mask28: "(0x0FFFFFFF :: uint) = mask 28"
  by (simp add: mask_eq_exp_minus_1)

lemma and_mask28_small: "slot < 2 ^ 28 \<Longrightarrow> slot AND 0x0FFFFFFF = (slot :: uint)"
  unfolding mask28 by (rule less_mask_eq)

lemma and_high_small:
  assumes "slot < 2 ^ 28"
  shows "slot AND 0xF0000000 = (0 :: uint)"
proof -
  have "slot AND 0xF0000000 = slot AND (0x0FFFFFFF AND 0xF0000000)"
    using and_mask28_small [OF assms] by (metis and.assoc)
  then show ?thesis by simp
qed

lemmas handle_defs =
  makePrivateKeyHandle_def makeCertificateHandle_def makePublicKeyHandle_def
  parseObjectHandle_def

lemma parse_tagged:
  assumes "slot < 2 ^ 28" "tag AND 0x0FFFFFFF = 0" "tag AND 0xF0000000 = tag"
  shows "parseObjectHandle (tag OR slot) = (tag, slot)"
proof -
  have "(tag OR slot) AND 0x0FFFFFFF = slot"
    using assms by (simp add: bit.conj_disj_distrib2 and_mask28_small)
  moreover have "(tag OR slot) AND 0xF0000000 = tag"
    using assms by (simp add: bit.conj_disj_distrib2 and_high_small)
  ultimately show ?thesis by (simp add: parseObjectHandle_def)
qed

lemma parse_make:
  assumes "slot < 2 ^ 28"
  shows "parseObjectHandle (makePrivateKeyHandle slot) = (objPrivateKey, slot)"
    and "parseObjectHandle (makeCertificateHandle slot) = (objCertificate, slot)"
    and "parseObjectHandle (makePublicKeyHandle slot) = (objPublicKey, slot)"
  using assms
  by (simp_all add: makePrivateKeyHandle_def makeCertificateHandle_def makePublicKeyHandle_def
      parse_tagged const_vals)

lemma parse_slot_bound: "snd (parseObjectHandle h) < 2 ^ 28"
proof -
  have "h AND mask 28 < 2 ^ 28" by (rule and_mask_less_size) (simp add: word_size)
  then show ?thesis by (simp add: parseObjectHandle_def mask28)
qed

section \<open>The session manager as a store of handles\<close>

text \<open>
  What the operations of the backend rely on: a store that hands out fresh handles, and
  whose entries change under their own handle only.
\<close>

locale handle_store =
  fixes lookup :: "'m \<Rightarrow> 'h \<Rightarrow> 'v option"
    and create :: "'m \<Rightarrow> 'a \<Rightarrow> 'h \<times> 'm"
    and modify :: "'m \<Rightarrow> 'h \<Rightarrow> ('v \<Rightarrow> 'v) \<Rightarrow> 'm"
    and remove :: "'m \<Rightarrow> 'h \<Rightarrow> bool \<times> 'm"
    and fresh :: "'a \<Rightarrow> 'v"
    and inv :: "'m \<Rightarrow> bool"
    and room :: "'m \<Rightarrow> bool"
  assumes lookup_create:
      "create m a = (h, m') \<Longrightarrow> lookup m' h' = (if h' = h then Some (fresh a) else lookup m h')"
    and create_unused: "inv m \<Longrightarrow> create m a = (h, m') \<Longrightarrow> lookup m h = None"
    and lookup_modify:
      "lookup (modify m h f) h' = (if h' = h then map_option f (lookup m h) else lookup m h')"
    and lookup_remove:
      "remove m h = (b, m') \<Longrightarrow> lookup m' h' = (if h' = h then None else lookup m h')"
    and remove_found: "remove m h = (b, m') \<Longrightarrow> b \<longleftrightarrow> lookup m h \<noteq> None"
    and inv_create: "inv m \<Longrightarrow> room m \<Longrightarrow> create m a = (h, m') \<Longrightarrow> inv m'"
    and inv_modify: "inv m \<Longrightarrow> inv (modify m h f)"
    and inv_remove: "inv m \<Longrightarrow> remove m h = (b, m') \<Longrightarrow> inv m'"
begin

text \<open>Opening disturbs no entry that is in use.\<close>

lemma create_keeps:
  assumes "inv m" "create m a = (h, m')" "lookup m h' = Some v"
  shows "lookup m' h' = Some v"
proof -
  have "h' \<noteq> h" using create_unused [OF assms(1,2)] assms(3) by auto
  with assms show ?thesis by (simp add: lookup_create)
qed

text \<open>Two handles handed out one after the other differ.\<close>

lemma create_distinct:
  assumes "inv m" "room m" "create m a = (h, m')" "create m' a' = (h2, m2)"
  shows "h \<noteq> h2"
proof -
  have "inv m'" using assms inv_create by blast
  then have "lookup m' h2 = None" using assms(4) create_unused by blast
  moreover have "lookup m' h = Some (fresh a)" using lookup_create [OF assms(3)] by simp
  ultimately show ?thesis by auto
qed

text \<open>A closed handle stays closed under writes, and closing it again fails.\<close>

lemma removed_stays:
  assumes "remove m h = (b, m')"
  shows "lookup (modify m' h' f) h = None" and "remove m' h = (b2, m2) \<Longrightarrow> \<not> b2"
  using lookup_remove [OF assms, of h] remove_found [of m' h b2 m2]
  by (auto simp: lookup_modify)

lemma modify_other: "h' \<noteq> h \<Longrightarrow> lookup (modify m h f) h' = lookup m h'"
  by (simp add: lookup_modify)

lemma modify_same: "lookup m h = Some v \<Longrightarrow> lookup (modify m h f) h = Some (f v)"
  by (simp add: lookup_modify)

end

text \<open>
  The invariant of the manager: handles in use lie between 1 and the next handle. It is kept
  while the 64-bit counter has not come round.
\<close>

definition sm_inv :: "sessionManager \<Rightarrow> bool" where
  "sm_inv m \<longleftrightarrow> 1 \<le> nextID m \<and> (\<forall>h. sessions m h \<noteq> None \<longrightarrow> 1 \<le> h \<and> h < nextID m)"

definition sm_room :: "sessionManager \<Rightarrow> bool" where
  "sm_room m \<longleftrightarrow> nextID m < - 1"

lemmas sm_defs = sm_open_def sm_get_def sm_close_def closeAllForSlot_def sm_update_def
  setLoggedIn_def setAllLoggedInForSlot_def

lemma sm_update_twice: "sm_update (sm_update m h f) h g = sm_update m h (\<lambda>x. g (f x))"
  by (simp add: sm_update_def map_at_def option.map_comp comp_def)

lemma sm_inv_new: "sm_inv newSessionManager"
  by (simp add: sm_inv_def newSessionManager_def)

lemma unat_next: "(n :: uint) < - 1 \<Longrightarrow> unat (n + 1) = Suc (unat n)"
proof -
  assume "n < - 1"
  then have "1 + n \<noteq> 0" by (auto simp: add_eq_0_iff)
  then show ?thesis using unatSuc [of n] by (simp add: add.commute)
qed

lemma sm_inv_unat:
  "sm_inv m \<longleftrightarrow> 1 \<le> unat (nextID m)
     \<and> (\<forall>h. sessions m h \<noteq> None \<longrightarrow> 1 \<le> unat h \<and> unat h < unat (nextID m))"
  by (simp add: sm_inv_def word_le_nat_alt word_less_nat_alt)

interpretation sess: handle_store sm_get sm_open sm_update sm_close new_session sm_inv sm_room
proof unfold_locales
  fix m a h m'
  assume "sm_inv m" "sm_open m a = (h, m')"
  then show "sm_get m h = None" by (auto simp: sm_defs sm_inv_def Let_def)
next
  fix m a h m'
  assume "sm_inv m" "sm_room m" "sm_open m a = (h, m')"
  then show "sm_inv m'"
    unfolding sm_inv_unat sm_room_def
    by (auto simp: sm_defs Let_def unat_next less_SucI split: if_splits)
qed (auto simp: sm_defs sm_inv_def Let_def map_at_def split: option.splits)

end
