(* ===== verification/Backend.thy ===== *)
theory Backend
  imports Go_Monad Client Slots
begin

text \<open>
  \<^verbatim>\<open>backend.go\<close>, first part: the state of the module, initialization, authentication, the
  retry after a 401 and the list of signers.

  The Go variable \<^verbatim>\<open>backend\<close> and what it points to are one record. Before the first
  \<^verbatim>\<open>C_Initialize\<close> its pointers are nil; here they are records no handler reads, because every
  exported function that uses them checks \<^verbatim>\<open>initialized\<close> first. The mutexes of the code make
  the methods on the caches and on the session map atomic. Here each call runs alone;
  \<^verbatim>\<open>Sign_Threads\<close> lets the steps of several alternate.
\<close>

section \<open>State\<close>

record 'w backend =
  world :: 'w
  captured :: "signingContext option"
  initialized :: bool
  config :: Config
  client :: InfisicalClient
  manager :: sessionManager
  signer_cache :: "signerResponse list signerCache"
  cert_cache :: certDataCache

type_synonym ('w, 'a) call = "('w backend, 'a) go"

text \<open>Running the parts of the state a call is about.\<close>

definition nowE :: "'w services \<Rightarrow> ('w, time) call" where
  "nowE sv = (\<lambda>st. case sv_now sv (world st) of (t, w) \<Rightarrow> Returns (Inr t, st\<lparr>world := w\<rparr>))"

text \<open>A method of the client that sends a request.\<close>

definition apiE :: "(InfisicalClient \<Rightarrow> 'w \<Rightarrow> 'a result \<times> 'w) \<Rightarrow> ('w, 'a) call" where
  "apiE f = (\<lambda>st. case f (client st) (world st) of (r, w) \<Rightarrow> Returns (r, st\<lparr>world := w\<rparr>))"

definition accessToken :: "'w services \<Rightarrow> ('w, string) call" where
  "accessToken sv = getE (\<lambda>st. GetAccessToken sv (client st) (world st))"

definition signingCtx :: "'w services \<Rightarrow> ('w, signingContext) call" where
  "signingCtx sv = (\<lambda>st.
     case currentSigningContext (sv_os sv (world st)) (captured st) of
       (c, captured') \<Rightarrow> Returns (Inr c, st\<lparr>captured := captured'\<rparr>))"

section \<open>Authentication\<close>

definition authenticate :: "'w services \<Rightarrow> string \<Rightarrow> string \<Rightarrow> ('w, unit) call" where
  "authenticate sv clientID clientSecret = (\<lambda>st.
     case UniversalAuthLogin sv (client st) clientID clientSecret (world st) of
       (r, c, w) \<Rightarrow> Returns (r, st\<lparr>client := c, world := w\<rparr>))"

definition hasConfigCredentials :: "Config \<Rightarrow> bool" where
  "hasConfigCredentials cfg \<longleftrightarrow> ClientID (Auth cfg) \<noteq> [] \<and> ClientSecret (Auth cfg) \<noteq> []"

definition isTokenAuth :: "Config \<Rightarrow> bool" where
  "isTokenAuth cfg \<longleftrightarrow> Method (Auth cfg) = authMethodToken \<and> Token (Auth cfg) \<noteq> []"

definition getToken :: "'w services \<Rightarrow> ('w, string) call" where
  "getToken sv =
     bindE (getE config) (\<lambda>cfg.
       if Method (Auth cfg) = authMethodToken then
         (if Token (Auth cfg) = [] then throwE (Errorf ''token auth: no token provided'')
          else returnE (Token (Auth cfg)))
       else
         bindE (accessToken sv) (\<lambda>token.
           if token \<noteq> [] then returnE token
           else if ClientID (Auth cfg) \<noteq> [] \<and> ClientSecret (Auth cfg) \<noteq> [] then
             bindE (authenticate sv (ClientID (Auth cfg)) (ClientSecret (Auth cfg))) (\<lambda>_.
               bindE (accessToken sv) (\<lambda>token.
                 if token \<noteq> [] then returnE token
                 else throwE (Errorf ''token not available after re-auth'')))
           else throwE (Errorf ''no access token and no credentials available for re-auth'')))"

text \<open>
  \<^verbatim>\<open>withRetryOnAuth\<close>, in two parts: the first call with the current token, and what follows
  when it failed with \<open>err\<close>.
\<close>

definition retry_after ::
  "'w services \<Rightarrow> string \<Rightarrow> (string \<Rightarrow> ('w, 'a) call) \<Rightarrow> go_error \<Rightarrow> ('w, 'a) call" where
  "retry_after sv token fn err =
     (case errorsAsAPI err of
        None \<Rightarrow> throwE err
      | Some apiErr \<Rightarrow>
          if StatusCode apiErr \<noteq> 401 then throwE err
          else bindE (getE config) (\<lambda>cfg.
            if Method (Auth cfg) = authMethodToken then throwE err
            else
              bindE (if ClientID (Auth cfg) \<noteq> [] \<and> ClientSecret (Auth cfg) \<noteq> []
                     then authenticate sv (ClientID (Auth cfg)) (ClientSecret (Auth cfg))
                     else returnE ()) (\<lambda>_.
                bindE (accessToken sv) (\<lambda>newToken.
                  if newToken = [] \<or> newToken = token then throwE err
                  else fn newToken))))"

definition withRetryOnAuth :: "'w services \<Rightarrow> (string \<Rightarrow> ('w, 'a) call) \<Rightarrow> ('w, 'a) call" where
  "withRetryOnAuth sv fn =
     bindE (getToken sv) (\<lambda>token.
       catchE (fn token) (\<lambda>r.
         case r of Inr x \<Rightarrow> returnE x | Inl err \<Rightarrow> retry_after sv token fn err))"

section \<open>Initialization\<close>

definition Initialize :: "'w services \<Rightarrow> ('w, unit) call" where
  "Initialize sv =
     bindE (getE initialized) (\<lambda>ini.
       if ini then throwE ErrAlreadyInitialized
       else
         bindE (getE (\<lambda>st. loadConfig (sv_parsers sv) (sv_os sv (world st)))) (\<lambda>r.
         bindE (liftR r) (\<lambda>cfg.
         bindE (modifyE (\<lambda>st. st\<lparr>config := cfg\<rparr>)) (\<lambda>_.
         bindE (getE (\<lambda>st. newInfisicalClient sv cfg (world st))) (\<lambda>r.
         bindE (liftR r) (\<lambda>cl.
         bindE (modifyE (\<lambda>st. st
            \<lparr>client := cl, manager := newSessionManager,
             signer_cache := newSignerCache (SignerTTLSeconds (CacheCfg cfg)),
             cert_cache := newCertDataCache (CertTTLSeconds (CacheCfg cfg)),
             initialized := True\<rparr>)) (\<lambda>_.
         bindE (if ClientID (Auth cfg) \<noteq> [] \<and> ClientSecret (Auth cfg) \<noteq> []
                then catchE (authenticate sv (ClientID (Auth cfg)) (ClientSecret (Auth cfg)))
                       (\<lambda>_. returnE ())
                else returnE ()) (\<lambda>_.
         bindE (signingCtx sv) (\<lambda>_. returnE ())))))))))"

definition Finalize :: "('w, unit) call" where
  "Finalize =
     bindE (getE initialized) (\<lambda>ini.
       if \<not> ini then returnE ()
       else modifyE (\<lambda>st. st\<lparr>initialized := False\<rparr>))"

section \<open>Signers\<close>

definition getSigners :: "'w services \<Rightarrow> ('w, signerResponse list) call" where
  "getSigners sv =
     bindE (nowE sv) (\<lambda>t.
     bindE (getE (\<lambda>st. sc_get (signer_cache st) t)) (\<lambda>hit.
       case hit of
         Some signers \<Rightarrow> returnE signers
       | None \<Rightarrow>
           bindE (withRetryOnAuth sv (\<lambda>token. apiE (\<lambda>c. ListSigners sv c token))) (\<lambda>signers.
           bindE (nowE sv) (\<lambda>t.
           bindE (modifyE (\<lambda>st. st\<lparr>signer_cache := sc_set (signer_cache st) signers t\<rparr>)) (\<lambda>_.
             returnE signers)))))"

definition getSignerBySlot :: "'w services \<Rightarrow> uint \<Rightarrow> ('w, signerResponse) call" where
  "getSignerBySlot sv slotIndex =
     bindE (getSigners sv) (\<lambda>signers.
       if slotIndex \<ge> of_nat (length signers)
       then throwE (Wrapf ''slot'' ErrSlotIDInvalid)
       else returnE (signers ! unat slotIndex))"

fun find_signer :: "string \<Rightarrow> signerResponse list \<Rightarrow> signerResponse option" where
  "find_signer signerID [] = None"
| "find_signer signerID (s # signers) =
     (if ID s = signerID then Some s else find_signer signerID signers)"

definition getSignerBySignerID :: "'w services \<Rightarrow> string \<Rightarrow> ('w, signerResponse) call" where
  "getSignerBySignerID sv signerID =
     bindE (getSigners sv) (\<lambda>signers.
       case find_signer signerID signers of
         Some s \<Rightarrow> returnE s
       | None \<Rightarrow> throwE (Errorf ''signer not found''))"

section \<open>What fetching leaves alone\<close>

text \<open>
  The part of the state no call to the server touches: the sessions, the configuration, the
  configured HTTP client, whether the module is initialized, the captured context.
\<close>

definition same_core :: "'w backend \<Rightarrow> 'w backend \<Rightarrow> bool" where
  "same_core s t \<longleftrightarrow>
     initialized t = initialized s \<and> config t = config s \<and> manager t = manager s
     \<and> httpClient (client t) = httpClient (client s)
     \<and> cl_sdkConfig (client t) = cl_sdkConfig (client s)
     \<and> (captured s \<noteq> None \<longrightarrow> captured t = captured s)"

interpretation core: frame_relation same_core
  by unfold_locales (auto simp: same_core_def)

lemma core_nowE [preserves]: "keeps same_core (nowE sv)"
  by (auto simp: keeps_def nowE_def same_core_def split: prod.splits)

lemma core_apiE [preserves]: "keeps same_core (apiE f)"
  by (auto simp: keeps_def apiE_def same_core_def split: prod.splits)

lemma core_accessToken [preserves]: "keeps same_core (accessToken sv)"
  by (simp add: accessToken_def preserves)

lemma core_signingCtx [preserves]: "keeps same_core (signingCtx sv)"
  by (auto simp: keeps_def signingCtx_def currentSigningContext_def same_core_def Let_def
      split: option.splits)

lemma core_authenticate [preserves]: "keeps same_core (authenticate sv i s)"
  by (auto simp: keeps_def authenticate_def same_core_def UniversalAuthLogin_frame
      split: prod.splits)

lemma core_getToken [preserves]: "keeps same_core (getToken sv)"
  unfolding getToken_def by (intro preserves)

lemma core_withRetryOnAuth [preserves]:
  "(\<And>token. keeps same_core (fn token)) \<Longrightarrow> keeps same_core (withRetryOnAuth sv fn)"
  unfolding withRetryOnAuth_def retry_after_def by (intro preserves)

lemma core_signer_cache [preserves]:
  "keeps same_core (modifyE (\<lambda>st. st\<lparr>signer_cache := f st\<rparr>))"
  by (rule keeps_modify) (simp add: same_core_def)

lemma core_cert_cache [preserves]:
  "keeps same_core (modifyE (\<lambda>st. st\<lparr>cert_cache := f st\<rparr>))"
  by (rule keeps_modify) (simp add: same_core_def)

lemma core_getSigners [preserves]: "keeps same_core (getSigners sv)"
  unfolding getSigners_def by (intro preserves)

lemma core_getSignerBySlot [preserves]: "keeps same_core (getSignerBySlot sv i)"
  unfolding getSignerBySlot_def by (intro preserves)

lemma core_getSignerBySignerID [preserves]: "keeps same_core (getSignerBySignerID sv i)"
  unfolding getSignerBySignerID_def by (intro preserves)

section \<open>Fetching does not panic\<close>

lemma safe_services [safety]:
  "safe (nowE sv)" "safe (apiE f)" "safe (accessToken sv)" "safe (signingCtx sv)"
  "safe (authenticate sv i s)"
  by (auto simp: safe_def nowE_def apiE_def accessToken_def signingCtx_def authenticate_def
      split: prod.splits)

lemma safe_getToken [safety]: "safe (getToken sv)"
  unfolding getToken_def by (intro safety)

lemma safe_withRetryOnAuth [safety]: "(\<And>token. safe (fn token)) \<Longrightarrow> safe (withRetryOnAuth sv fn)"
  unfolding withRetryOnAuth_def retry_after_def by (intro safety)

lemma safe_getSigners [safety]: "safe (getSigners sv)"
  unfolding getSigners_def by (intro safety)

lemma safe_getSignerBySlot [safety]: "safe (getSignerBySlot sv i)"
  unfolding getSignerBySlot_def by (intro safety)

lemma safe_getSignerBySignerID [safety]: "safe (getSignerBySignerID sv i)"
  unfolding getSignerBySignerID_def by (intro safety)

lemma safe_Initialize [safety]: "safe (Initialize sv)"
  unfolding Initialize_def by (intro safety)

section \<open>Errors that are not the server's\<close>

lemma authenticate_error:
  "authenticate sv i p s = Returns (Inl e, t) \<Longrightarrow>
   errorsAsAPI e = None \<and> mapErrorToRV e = CKR_GENERAL_ERROR"
  by (auto simp: authenticate_def UniversalAuthLogin_def mapErrorToRV_def split: prod.splits option.splits)

lemma Errorf_codes [simp]:
  "errorsAsAPI (Errorf m) = None" "mapErrorToRV (Errorf m) = CKR_GENERAL_ERROR"
  by (simp_all add: mapErrorToRV_def)

lemma getToken_error:
  assumes "getToken sv s = Returns (Inl e, t)"
  shows "errorsAsAPI e = None \<and> mapErrorToRV e = CKR_GENERAL_ERROR"
proof -
  consider m where "e = Errorf m"
    | s2 where "authenticate sv (ClientID (Auth (config s))) (ClientSecret (Auth (config s))) s
        = Returns (Inl e, s2)"
    using assms unfolding getToken_def accessToken_def
    by (simp split: if_split_asm) (auto elim!: bindE_ReturnsE split: if_split_asm)
  then show ?thesis by cases (auto dest: authenticate_error)
qed

text \<open>How a failed call ends: with its own error, with an error of the login, or called again.\<close>

lemma retry_afterE:
  assumes "retry_after sv token fn err s = Returns (r, t)"
  obtains (same) "r = Inl err" "authenticate sv (ClientID (Auth (config s))) (ClientSecret (Auth (config s))) s
        = Returns (Inr (), t) \<or> t = s"
  | (login) e where "r = Inl e"
      "authenticate sv (ClientID (Auth (config s))) (ClientSecret (Auth (config s))) s = Returns (Inl e, t)"
  | (again) newToken a s2 where "errorsAsAPI err = Some a" "StatusCode a = 401"
      "Method (Auth (config s)) \<noteq> authMethodToken" "newToken \<noteq> []" "newToken \<noteq> token"
      "fn newToken s2 = Returns (r, t)"
      "authenticate sv (ClientID (Auth (config s))) (ClientSecret (Auth (config s))) s
        = Returns (Inr (), s2) \<or> s2 = s"
  using assms
  by (auto simp: retry_after_def accessToken_def elim!: bindE_ReturnsE
      split: option.splits if_splits)

end
