(* ===== verification/Requests.thy ===== *)
theory Requests
  imports Backend
begin

text \<open>
  What the module sends. A log is a function that reads the exchanges with the server so far
  from the world; services are observed by it when every HTTP call appends its exchange and
  no other service touches it. The lemmas are proved for observed services; any services
  become observed by carrying a list along (\<open>traced\<close>), which is the interpretation the
  properties use.
\<close>

type_synonym exchange = "http_request \<times> (string + http_response)"

section \<open>Sending\<close>

text \<open>
  The state \<open>t\<close> is reached from \<open>s\<close> with the HTTP client kept and with exchanges that all
  satisfy \<open>P\<close>.
\<close>

definition sends ::
  "('w \<Rightarrow> exchange list) \<Rightarrow> (restyClient \<Rightarrow> exchange \<Rightarrow> bool) \<Rightarrow> 'w backend \<Rightarrow> 'w backend \<Rightarrow> bool" where
  "sends log P s t \<longleftrightarrow>
     httpClient (client t) = httpClient (client s)
     \<and> (\<exists>xs. log (world t) = log (world s) @ xs \<and> (\<forall>x \<in> set xs. P (httpClient (client s)) x))"

interpretation sending: frame_relation "sends log P" for log P
proof unfold_locales
  fix s t u
  assume "sends log P s t" "sends log P t u"
  then obtain xs ys where
    "httpClient (client u) = httpClient (client s)" "log (world u) = log (world s) @ xs @ ys"
    "\<forall>x \<in> set xs. P (httpClient (client s)) x" "\<forall>x \<in> set ys. P (httpClient (client s)) x"
    unfolding sends_def by auto
  then show "sends log P s u" unfolding sends_def by (intro conjI exI [of _ "xs @ ys"]) auto
qed (simp add: sends_def)

lemma sends_nothing:
  "httpClient (client t) = httpClient (client s) \<Longrightarrow> log (world t) = log (world s) \<Longrightarrow> sends log P s t"
  by (simp add: sends_def)

lemma sends_mono: "sends log P s t \<Longrightarrow> (\<And>c x. P c x \<Longrightarrow> Q c x) \<Longrightarrow> sends log Q s t"
  unfolding sends_def by blast

lemma sends_False: "sends log (\<lambda>c x. False) s t \<longleftrightarrow>
    httpClient (client t) = httpClient (client s) \<and> log (world t) = log (world s)"
proof -
  have "(\<forall>x \<in> set xs. False) \<longleftrightarrow> xs = []" for xs :: "exchange list" by (cases xs) auto
  then show ?thesis by (simp add: sends_def)
qed

text \<open>Exchanges that only read, and exchanges made with the configured client.\<close>

definition reading :: "restyClient \<Rightarrow> exchange \<Rightarrow> bool" where
  "reading c x \<longleftrightarrow> rq_client (fst x) = c \<and> rq_method (fst x) = GET \<and> rq_body (fst x) = NoBody"

lemma reading_requests [simp]:
  "reading c (listSigners_request c token, r)"
  "reading c (certificate_request c token i, r)"
  by (simp_all add: reading_def listSigners_request_def certificate_request_def)

text \<open>
  The exchanges of one request with a retry: none, one, or two, where the second has a new
  token and follows a 401 outside token authentication.
\<close>

definition retried :: "(string \<Rightarrow> http_request) \<Rightarrow> bool \<Rightarrow> exchange list \<Rightarrow> bool" where
  "retried rq tokenAuth xs =
     (case xs of
        [] \<Rightarrow> True
      | [x] \<Rightarrow> \<exists>token. fst x = rq token
      | [x, y] \<Rightarrow> \<not> tokenAuth \<and> (\<exists>token newToken resp. newToken \<noteq> [] \<and> newToken \<noteq> token
          \<and> x = (rq token, Inr resp) \<and> rs_status resp = 401 \<and> fst y = rq newToken)
      | _ \<Rightarrow> False)"

text \<open>A result that is the answer of the last exchange: an API error, or the decoded value.\<close>

definition answered ::
  "'w services \<Rightarrow> string \<Rightarrow> (http_response \<Rightarrow> string + 'r) \<Rightarrow> exchange list \<Rightarrow> 'r result \<Rightarrow> bool" where
  "answered sv op decode xs r \<longleftrightarrow>
     (\<forall>e a. r = Inl e \<and> errorsAsAPI e = Some a \<longrightarrow>
        xs \<noteq> [] \<and> (\<exists>resp. snd (last xs) = Inr resp \<and> rs_status resp > 399 \<and> a = newAPIError sv op resp))
   \<and> (\<forall>v. r = Inr v \<longrightarrow>
        xs \<noteq> [] \<and> (\<exists>resp. snd (last xs) = Inr resp \<and> rs_status resp \<le> 399 \<and> decode resp = Inr v))"

lemma apiE_Returns:
  "apiE f s = Returns (r, t) \<Longrightarrow> \<exists>w. f (client s) (world s) = (r, w) \<and> t = s\<lparr>world := w\<rparr>"
  by (auto simp: apiE_def split: prod.splits)

section \<open>Observed services\<close>

locale observed_services =
  fixes sv :: "'w services" and log :: "'w \<Rightarrow> exchange list"
  assumes log_http:
      "sv_http sv rq w = (r, w') \<Longrightarrow> log w' = log w @ [(rq, r)]"
    and log_now: "log (snd (sv_now sv w)) = log w"
    and log_sdk_new: "log (snd (sv_sdk_new sv c w)) = log w"
    and log_sdk_login: "log (snd (sv_sdk_login sv k i p w)) = log w"
begin

text \<open>One request: its exchange is appended, and an API error comes from its response.\<close>

lemma send_log:
  assumes "send sv op rq decode w = (r, w')"
  shows "\<exists>x. log w' = log w @ [(rq, x)]
    \<and> (\<forall>e a. r = Inl e \<and> errorsAsAPI e = Some a \<longrightarrow>
         (\<exists>resp. x = Inr resp \<and> rs_status resp > 399 \<and> a = newAPIError sv op resp))
    \<and> (\<forall>v. r = Inr v \<longrightarrow> (\<exists>resp. x = Inr resp \<and> rs_status resp \<le> 399 \<and> decode resp = Inr v))"
  using assms by (cases rule: send_cases) (auto dest!: log_http)

lemma sends_nowE [preserves]: "keeps (sends log P) (nowE sv)"
  unfolding keeps_def nowE_def
  by (auto split: prod.splits intro!: sends_nothing) (metis log_now snd_conv)

lemma sends_accessToken [preserves]: "keeps (sends log P) (accessToken sv)"
  by (simp add: accessToken_def preserves)

lemma sends_signingCtx [preserves]: "keeps (sends log P) (signingCtx sv)"
  unfolding keeps_def signingCtx_def by (auto split: prod.splits intro!: sends_nothing)

lemma UniversalAuthLogin_log:
  assumes "UniversalAuthLogin sv c i s w = (r, c', w')"
  shows "log w' = log w"
proof -
  have "log w1 = log w" if "ensureSDKClient sv c w = (k, c1, w1)" for k c1 w1
    using that log_sdk_new [of "cl_sdkConfig c" w]
    by (auto simp: ensureSDKClient_def split: option.splits prod.splits)
  moreover have "log w2 = log w1" if "sv_sdk_login sv k i s w1 = (e, w2)" for k w1 e w2
    using that log_sdk_login [of k i s w1] by simp
  ultimately show ?thesis
    using assms by (auto simp: UniversalAuthLogin_def split: prod.splits option.splits)
qed

lemma sends_authenticate [preserves]: "keeps (sends log P) (authenticate sv i s)"
  unfolding keeps_def authenticate_def
  by (auto split: prod.splits intro!: sends_nothing
      dest: UniversalAuthLogin_log UniversalAuthLogin_frame(1))

lemma sends_send [preserves]:
  assumes "\<And>c r. P c (rq c, r)"
  shows "keeps (sends log P) (apiE (\<lambda>c. send sv op (rq (httpClient c)) decode))"
proof (rule keepsI)
  fix s r t
  assume "apiE (\<lambda>c. send sv op (rq (httpClient c)) decode) s = Returns (r, t)"
  then obtain w where "send sv op (rq (httpClient (client s))) decode (world s) = (r, w)" "t = s\<lparr>world := w\<rparr>"
    by (auto simp: apiE_def split: prod.splits)
  with assms send_log [of op "rq (httpClient (client s))" decode "world s" r w] show "sends log P s t"
    by (auto simp: sends_def)
qed

lemma sends_getToken [preserves]: "keeps (sends log P) (getToken sv)"
  unfolding getToken_def by (intro preserves)

lemma sends_withRetryOnAuth [preserves]:
  "(\<And>token. keeps (sends log P) (fn token)) \<Longrightarrow> keeps (sends log P) (withRetryOnAuth sv fn)"
  unfolding withRetryOnAuth_def retry_after_def by (intro preserves)

lemma reads_ListSigners [preserves]:
  "keeps (sends log reading) (apiE (\<lambda>c. ListSigners sv c token))"
  unfolding ListSigners_def by (intro preserves) simp

lemma reads_GetCertificate [preserves]:
  "keeps (sends log reading) (apiE (\<lambda>c. GetCertificate sv c token i))"
  unfolding GetCertificate_def by (intro preserves) simp

lemma sends_caches [preserves]:
  "keeps (sends log P) (modifyE (\<lambda>st. st\<lparr>signer_cache := f st\<rparr>))"
  "keeps (sends log P) (modifyE (\<lambda>st. st\<lparr>cert_cache := g st\<rparr>))"
  "keeps (sends log P) (modifyE (\<lambda>st. st\<lparr>manager := h st\<rparr>))"
  by (auto intro!: keeps_modify sends_nothing)

lemma reads_getSigners [preserves]: "keeps (sends log reading) (getSigners sv)"
  unfolding getSigners_def by (intro preserves)

lemma reads_getSignerBySlot [preserves]: "keeps (sends log reading) (getSignerBySlot sv i)"
  unfolding getSignerBySlot_def by (intro preserves)

lemma reads_getSignerBySignerID [preserves]:
  "keeps (sends log reading) (getSignerBySignerID sv i)"
  unfolding getSignerBySignerID_def by (intro preserves)

text \<open>Getting a token sends nothing over HTTP.\<close>

lemma getToken_log: "getToken sv s = Returns (r, t) \<Longrightarrow> log (world t) = log (world s)"
  using keepsD [OF sends_getToken [of "\<lambda>c x. False"]] by (simp add: sends_False)

lemma accessToken_log: "accessToken sv s = Returns (r, t) \<Longrightarrow> t = s"
  by (simp add: accessToken_def)

lemma authenticate_log: "authenticate sv i p s = Returns (r, t) \<Longrightarrow> log (world t) = log (world s)"
  using keepsD [OF sends_authenticate [where P = "\<lambda>c x. False"]] by (simp add: sends_False)

text \<open>A request in the retry: at most two exchanges, and what the second one presupposes.\<close>

lemma retry_log:
  assumes "withRetryOnAuth sv (\<lambda>token. apiE (\<lambda>c. send sv op (rq (httpClient c) token) decode)) s
      = Returns (r, t)"
  shows "\<exists>xs. log (world t) = log (world s) @ xs
    \<and> retried (rq (httpClient (client s))) (Method (Auth (config s)) = authMethodToken) xs
    \<and> answered sv op decode xs r"
proof -
  let ?call = "\<lambda>token. apiE (\<lambda>c. send sv op (rq (httpClient c) token) decode)"
  let ?rq = "rq (httpClient (client s))"
  have call: "\<exists>x. log (world s2) = log (world s1) @ [(?rq token, x)]
      \<and> answered sv op decode [(?rq token, x)] r1 \<and> same_core s1 s2"
    if c: "?call token s1 = Returns (r1, s2)" and co: "same_core s s1" for token s1 r1 s2
  proof -
    obtain w where "send sv op (rq (httpClient (client s1)) token) decode (world s1) = (r1, w)"
      "s2 = s1\<lparr>world := w\<rparr>" using apiE_Returns [OF c] by blast
    then show ?thesis
      using send_log co by (fastforce simp: same_core_def answered_def)
  qed
  note core = core.trans [of s]
  from assms show ?thesis unfolding withRetryOnAuth_def
  proof (cases rule: bindE_ReturnsE)
    case (err e)
    then show ?thesis
      using getToken_log getToken_error by (fastforce simp: retried_def answered_def)
  next
    case (ok token s1)
    then have l1: "log (world s1) = log (world s)" "same_core s s1"
      using getToken_log keepsD [OF core_getToken] by auto
    from ok(2) obtain r1 s2 where c1: "?call token s1 = Returns (r1, s2)"
      and rest: "(case r1 of Inr x \<Rightarrow> returnE x | Inl err \<Rightarrow> retry_after sv token ?call err) s2
        = Returns (r, t)"
      unfolding retry_after_def by (rule catchE_ReturnsE)
    from call [OF c1 l1(2)] obtain x where x: "log (world s2) = log (world s) @ [(?rq token, x)]"
      "answered sv op decode [(?rq token, x)] r1" "same_core s1 s2" by (auto simp: l1)
    show ?thesis
    proof (cases r1)
      case (Inr v)
      with rest x show ?thesis by (intro exI [of _ "[(?rq token, x)]"]) (auto simp: retried_def)
    next
      case (Inl e)
      with rest have again: "retry_after sv token ?call e s2 = Returns (r, t)" by simp
      have s2: "same_core s s2" using l1(2) x(3) core.trans by blast
      show ?thesis
      proof (cases rule: retry_afterE [OF again])
        case 1
        then have "log (world t) = log (world s2)" by (auto dest: authenticate_log)
        with 1 x Inl show ?thesis by (intro exI [of _ "[(?rq token, x)]"]) (auto simp: retried_def)
      next
        case (2 e')
        with authenticate_log [OF 2(2)] authenticate_error [OF 2(2)] x show ?thesis
          by (intro exI [of _ "[(?rq token, x)]"]) (auto simp: retried_def answered_def)
      next
        case (3 newToken a s3)
        then have "same_core s2 s3" "log (world s3) = log (world s2)"
          by (auto dest: authenticate_log keepsD [OF core_authenticate] simp: core.refl)
        then have s3: "same_core s s3" "log (world s3) = log (world s2)"
          using s2 core.trans by blast+
        from call [OF 3(6) s3(1)] obtain y where y:
          "log (world t) = log (world s3) @ [(?rq newToken, y)]"
          "answered sv op decode [(?rq newToken, y)] r" by blast
        from x(2) 3(1,2) Inl obtain resp where "x = Inr resp" "rs_status resp = 401"
          by (auto simp: answered_def)
        with 3 s2 s3 x(1) y show ?thesis
          by (intro exI [of _ "[(?rq token, x), (?rq newToken, y)]"])
             (auto simp: retried_def answered_def same_core_def)
      qed
    qed
  qed
qed

end

section \<open>Services that carry their log\<close>

definition traced :: "'w services \<Rightarrow> ('w \<times> exchange list) services" where
  "traced sv =
     \<lparr>sv_parsers = sv_parsers sv,
      sv_os = (\<lambda>(w, l). sv_os sv w),
      sv_now = (\<lambda>(w, l). case sv_now sv w of (t, w) \<Rightarrow> (t, w, l)),
      sv_http = (\<lambda>rq (w, l). case sv_http sv rq w of (r, w) \<Rightarrow> (r, w, l @ [(rq, r)])),
      sv_decode_signers = sv_decode_signers sv,
      sv_decode_certificate = sv_decode_certificate sv,
      sv_decode_signature = sv_decode_signature sv,
      sv_decode_approval = sv_decode_approval sv,
      sv_decode_error = sv_decode_error sv,
      sv_sdk_new = (\<lambda>c (w, l). case sv_sdk_new sv c w of (k, w) \<Rightarrow> (k, w, l)),
      sv_sdk_login = (\<lambda>k i p (w, l). case sv_sdk_login sv k i p w of (r, w) \<Rightarrow> (r, w, l)),
      sv_sdk_token = (\<lambda>k (w, l). sv_sdk_token sv k w),
      sv_append_ca = sv_append_ca sv,
      sv_pem_Decode = sv_pem_Decode sv,
      sv_parse_certificate = sv_parse_certificate sv,
      sv_attribute = sv_attribute sv\<rparr>"

interpretation traced: observed_services "traced sv" snd for sv
  by unfold_locales (auto simp: traced_def split: prod.splits)

text \<open>Carrying the log changes no answer.\<close>

lemma traced_services [simp]:
  "sv_parsers (traced sv) = sv_parsers sv"
  "sv_os (traced sv) (w, l) = sv_os sv w"
  "fst (sv_http (traced sv) rq (w, l)) = fst (sv_http sv rq w)"
  "fst (snd (sv_http (traced sv) rq (w, l))) = snd (sv_http sv rq w)"
  "sv_decode_signers (traced sv) = sv_decode_signers sv"
  "sv_decode_certificate (traced sv) = sv_decode_certificate sv"
  "sv_decode_signature (traced sv) = sv_decode_signature sv"
  "sv_decode_approval (traced sv) = sv_decode_approval sv"
  "sv_decode_error (traced sv) = sv_decode_error sv"
  "sv_sdk_token (traced sv) k (w, l) = sv_sdk_token sv k w"
  "sv_pem_Decode (traced sv) = sv_pem_Decode sv"
  "sv_parse_certificate (traced sv) = sv_parse_certificate sv"
  "sv_attribute (traced sv) = sv_attribute sv"
  by (simp_all add: traced_def split: prod.splits)

lemma newAPIError_traced [simp]: "newAPIError (traced sv) = newAPIError sv"
  by (simp add: newAPIError_def fun_eq_iff)

text \<open>
  The exchanges of a run on traced services: what went through the module's own HTTP client.
  Logins go through the SDK, which has a client of its own, and are not in this log.
\<close>

abbreviation exchanges :: "('w \<times> exchange list) backend \<Rightarrow> exchange list" where
  "exchanges st \<equiv> snd (world st)"

section \<open>Services for the examples\<close>

text \<open>
  A small server: a world is the number of logins so far, the SDK's token names it, and the
  server accepts every token but the first. It has one RSA and one EC signer.
\<close>

definition rsa_signer :: signerResponse where
  "rsa_signer = \<lparr>ID = ''rsa-1'', Name = ''release'', Status = ''active'', CertificateID = ''c1'',
     KeyAlgorithm = ''RSA_2048'', ApprovalPolicyID = None\<rparr>"

definition ec_signer :: signerResponse where
  "ec_signer = \<lparr>ID = ''ec-1'', Name = ''nightly'', Status = ''active'', CertificateID = ''c2'',
     KeyAlgorithm = ''EC_prime256v1'', ApprovalPolicyID = None\<rparr>"

definition example_sdk_token :: "nat \<Rightarrow> string" where
  "example_sdk_token n = (if n = 0 then [] else if n = 1 then ''t1'' else ''t2'')"

definition attribute_bytes :: "attr_value \<Rightarrow> bytes" where
  "attribute_bytes v =
     (case v of VBool b \<Rightarrow> [if b then 1 else 0]
      | VUint n \<Rightarrow> map (\<lambda>i. ucast (drop_bit (8 * i) n)) [0..<8]
      | VBytes b \<Rightarrow> b)"

definition example_services :: "(http_request \<Rightarrow> http_response) \<Rightarrow> nat services" where
  "example_services server =
     \<lparr>sv_parsers = example_parsers, sv_os = (\<lambda>w. example_os []), sv_now = (\<lambda>w. (0, w)),
      sv_http = (\<lambda>rq w. (Inr (server rq), w)),
      sv_decode_signers = (\<lambda>r. Inr [rsa_signer, ec_signer]),
      sv_decode_certificate = (\<lambda>r. Inr ''pem''),
      sv_decode_signature = (\<lambda>r. Inr (string_of_bytes (rs_body r))),
      sv_decode_approval = (\<lambda>r. Inr \<lparr>ar_ID = ''q1'', ar_Status = ''pending''\<rparr>),
      sv_decode_error =
        (\<lambda>b. (\<lparr>eb_Message = [], eb_Error = string_of_bytes b, eb_HasPendingRequest = False\<rparr>, True)),
      sv_sdk_new = (\<lambda>c w. (0, w)), sv_sdk_login = (\<lambda>k i p w. (None, Suc w)),
      sv_sdk_token = (\<lambda>k w. example_sdk_token w),
      sv_append_ca = (\<lambda>b. True), sv_pem_Decode = (\<lambda>s. Some [48, 0]),
      sv_parse_certificate =
        (\<lambda>b. Some \<lparr>RawSubject = [48, 1], RawIssuer = [48, 2], SerialNumber = 7,
                 PublicKey = RSAKey 35 3\<rparr>),
      sv_attribute = attribute_bytes\<rparr>"

definition ok_response :: "string \<Rightarrow> http_response" where
  "ok_response body = \<lparr>rs_status = 200, rs_body = bytes_of_string body\<rparr>"

definition expiring_server :: "http_request \<Rightarrow> http_response" where
  "expiring_server rq =
     (if rq_token rq = ''t1'' then \<lparr>rs_status = 401, rs_body = []\<rparr> else ok_response ''AQID'')"

text \<open>An initialized module over that server, without sessions.\<close>

definition example_client :: InfisicalClient where
  "example_client =
     \<lparr>httpClient =
        \<lparr>BaseURL = ''https://app.infisical.com'', InsecureSkipVerify = False, MinVersion = 0x0303,
         RootCAs = None, Timeout = 30000000000, UserAgentHeader = userAgent\<rparr>,
      sdkClient = Some 0,
      cl_sdkConfig = \<lparr>SiteUrl = ''https://app.infisical.com'', CaCertificate = [],
        UserAgent = userAgent, SilentMode = True\<rparr>\<rparr>"

definition example_state :: "'w \<Rightarrow> 'w backend" where
  "example_state w =
     \<lparr>world = w, captured = None, initialized = True, config = fill_method example_config,
      client = example_client, manager = newSessionManager,
      signer_cache = newSignerCache 300, cert_cache = newCertDataCache 3600\<rparr>"

lemmas fetch_defs = getSignerBySlot_def getSigners_def withRetryOnAuth_def retry_after_def
  getToken_def accessToken_def authenticate_def UniversalAuthLogin_def ensureSDKClient_def
  GetAccessToken_def bindE_def catchE_def apiE_def nowE_def send_def

lemmas example_run_defs = traced_def example_services_def example_state_def fill_method_def
  example_config_def example_client_def example_sdk_token_def ok_response_def

section \<open>Properties\<close>

text \<open>
  C10: a request made through the retry wrapper is sent at most twice, with the same content
  apart from the token; the second time only outside token authentication, with a new token,
  and only after the server answered the first with status 401. A result or API error it
  returns is the server's answer to the last exchange, and without an exchange there is
  neither.
\<close>

theorem withRetryOnAuth_retries_once:
  assumes "withRetryOnAuth (traced sv)
      (\<lambda>token. apiE (\<lambda>c. send (traced sv) op (rq (httpClient c) token) decode)) s = Returns (r, t)"
  shows "\<exists>xs. exchanges t = exchanges s @ xs
    \<and> retried (rq (httpClient (client s))) (Method (Auth (config s)) = authMethodToken) xs
    \<and> answered (traced sv) op decode xs r"
  using traced.retry_log [OF assms] .

lemma expiring_run:
  "\<exists>r t. withRetryOnAuth (traced (example_services expiring_server))
      (\<lambda>token. apiE (\<lambda>c. send (traced (example_services expiring_server)) ''list-signers''
        (listSigners_request (httpClient c) token) (\<lambda>r. Inr (rs_status r)))) (example_state (1, []))
      = Returns (r, t)
    \<and> r = Inr 200 \<and> map (rq_token \<circ> fst) (exchanges t) = [''t1'', ''t2'']"
  by (simp add: fetch_defs example_run_defs expiring_server_def listSigners_request_def)

theorem withRetryOnAuth_retries_once_witness:
  "\<exists>xs. map (rq_token \<circ> fst) xs = [''t1'', ''t2'']
    \<and> retried (listSigners_request (httpClient example_client)) False xs
    \<and> answered (traced (example_services expiring_server)) ''list-signers''
        (\<lambda>r. Inr (rs_status r)) xs (Inr 200)"
proof -
  obtain r t where run: "withRetryOnAuth (traced (example_services expiring_server))
      (\<lambda>token. apiE (\<lambda>c. send (traced (example_services expiring_server)) ''list-signers''
        (listSigners_request (httpClient c) token) (\<lambda>r. Inr (rs_status r)))) (example_state (1, []))
      = Returns (r, t)" and r: "r = Inr 200" "map (rq_token \<circ> fst) (exchanges t) = [''t1'', ''t2'']"
    using expiring_run by (elim exE conjE)
  from withRetryOnAuth_retries_once [OF run] r show ?thesis
    by (intro exI [of _ "exchanges t"]) (simp add: example_state_def example_config_def fill_method_def)
qed

end
