(* ===== verification/Slot_Ops.thy ===== *)
theory Slot_Ops
  imports Requests
begin

text \<open>
  \<^verbatim>\<open>backend.go\<close>, second part: slots, tokens and mechanisms, sessions, login and logout. A
  slot is an index into the list of signers.
\<close>

section \<open>Strings of fixed length\<close>

definition padString :: "string \<Rightarrow> nat \<Rightarrow> string" where
  "padString s n = (if length s \<ge> n then take n s else s @ replicate (n - length s) CHR '' '')"

definition truncateTo :: "string \<Rightarrow> nat \<Rightarrow> string" where
  "truncateTo s maxLen = (if length s \<le> maxLen then s else take maxLen s)"

lemma length_padString [simp]: "length (padString s n) = n"
  by (simp add: padString_def)

lemma length_truncateTo: "length (truncateTo s n) \<le> n"
  by (simp add: truncateTo_def)

section \<open>Slots and tokens\<close>

definition GetSlotList :: "'w services \<Rightarrow> bool \<Rightarrow> ('w, uint list) call" where
  "GetSlotList sv tokenPresent =
     bindE (getSigners sv) (\<lambda>signers. returnE (map of_nat [0..<length signers]))"

record SlotInfo =
  si_SlotDescription :: string
  si_ManufacturerID :: string
  si_Flags :: uint
  si_HardwareVersion :: "byte \<times> byte"
  si_FirmwareVersion :: "byte \<times> byte"

definition GetSlotInfo :: "'w services \<Rightarrow> uint \<Rightarrow> ('w, SlotInfo) call" where
  "GetSlotInfo sv slot =
     bindE (getSignerBySlot sv slot) (\<lambda>signer. returnE
       \<lparr>si_SlotDescription = padString (Name signer) 64,
        si_ManufacturerID = padString ''Infisical'' 32,
        si_Flags = CKF_TOKEN_PRESENT OR CKF_HW_SLOT,
        si_HardwareVersion = (1, 0), si_FirmwareVersion = (1, 0)\<rparr>)"

record TokenInfo =
  ti_Label :: string
  ti_ManufacturerID :: string
  ti_Model :: string
  ti_SerialNumber :: string
  ti_Flags :: uint
  ti_MaxSessionCount :: uint
  ti_SessionCount :: uint
  ti_MaxPinLen :: uint
  ti_MinPinLen :: uint
  ti_HardwareVersion :: "byte \<times> byte"
  ti_FirmwareVersion :: "byte \<times> byte"

definition GetTokenInfo :: "'w services \<Rightarrow> uint \<Rightarrow> ('w, TokenInfo) call" where
  "GetTokenInfo sv slot =
     bindE (getSignerBySlot sv slot) (\<lambda>signer.
     bindE (getE config) (\<lambda>cfg.
       let flags = CKF_TOKEN_INITIALIZED;
           flags = (if \<not> hasConfigCredentials cfg \<and> \<not> isTokenAuth cfg
                    then flags OR CKF_LOGIN_REQUIRED else flags)
       in returnE
         \<lparr>ti_Label = padString (Name signer) 32,
          ti_ManufacturerID = padString ''Infisical'' 32,
          ti_Model = padString ''Code Signing'' 16,
          ti_SerialNumber = padString (truncateTo (ID signer) 16) 16,
          ti_Flags = flags, ti_MaxSessionCount = 64, ti_SessionCount = 0, ti_MaxPinLen = 4096,
          ti_MinPinLen = 1, ti_HardwareVersion = (1, 0), ti_FirmwareVersion = (1, 0)\<rparr>))"

text \<open>\<^verbatim>\<open>GetMechanismList\<close>; the mechanism objects it builds carry only their number.\<close>

definition GetMechanismList :: "'w services \<Rightarrow> uint \<Rightarrow> ('w, uint list) call" where
  "GetMechanismList sv slot =
     bindE (getSignerBySlot sv slot) (\<lambda>signer.
       let keyAlg = keyAlgorithm signer
       in returnE (if contains keyAlg ''rsa'' then rsaMechanisms
                   else if contains keyAlg ''ec'' then ecMechanisms
                   else rsaMechanisms @ ecMechanisms))"

section \<open>Sessions\<close>

definition updateManager :: "(sessionManager \<Rightarrow> sessionManager) \<Rightarrow> ('w, unit) call" where
  "updateManager f = modifyE (\<lambda>st. st\<lparr>manager := f (manager st)\<rparr>)"

text \<open>\<^verbatim>\<open>b.sessions.get(sh)\<close> with the check every operation on a session starts with.\<close>

definition getSession :: "uint \<Rightarrow> ('w, session) call" where
  "getSession sh =
     bindE (getE (\<lambda>st. sm_get (manager st) sh)) (\<lambda>found.
       case found of None \<Rightarrow> throwE ErrSessionHandleInvalid | Some sess \<Rightarrow> returnE sess)"

text \<open>\<^verbatim>\<open>OpenSession\<close>, after the slot is known to exist.\<close>

definition openIn :: "'w services \<Rightarrow> uint \<Rightarrow> ('w, uint) call" where
  "openIn sv slot =
     bindE (getE (\<lambda>st. sm_open (manager st) slot)) (\<lambda>(handle, m).
     bindE (updateManager (\<lambda>_. m)) (\<lambda>_.
     bindE (getE config) (\<lambda>cfg.
     bindE (accessToken sv) (\<lambda>token.
     bindE (if isTokenAuth cfg \<or> (hasConfigCredentials cfg \<and> token \<noteq> [])
            then updateManager (\<lambda>m. setLoggedIn m handle True) else returnE ()) (\<lambda>_.
       returnE handle)))))"

definition OpenSession :: "'w services \<Rightarrow> uint \<Rightarrow> uint \<Rightarrow> ('w, uint) call" where
  "OpenSession sv slot flags = bindE (getSignerBySlot sv slot) (\<lambda>_. openIn sv slot)"

definition CloseSession :: "uint \<Rightarrow> ('w, unit) call" where
  "CloseSession sh =
     bindE (getE (\<lambda>st. sm_close (manager st) sh)) (\<lambda>(ok, m).
     bindE (updateManager (\<lambda>_. m)) (\<lambda>_.
       if \<not> ok then throwE ErrSessionHandleInvalid else returnE ()))"

text \<open>The two calls every successful path of \<^verbatim>\<open>Login\<close> ends with.\<close>

definition loginSlot :: "uint \<Rightarrow> uint \<Rightarrow> ('w, unit) call" where
  "loginSlot sh slot =
     bindE (updateManager (\<lambda>m. setLoggedIn m sh True)) (\<lambda>_.
       updateManager (\<lambda>m. setAllLoggedInForSlot m slot True))"

text \<open>\<^verbatim>\<open>strings.SplitN(pin, ":", 2)\<close>, and both parts non-empty.\<close>

definition splitClientCreds :: "string \<Rightarrow> (string \<times> string) option" where
  "splitClientCreds pin =
     (case cut pin CHR '':'' of (clientID, clientSecret, found) \<Rightarrow>
        if found \<and> clientID \<noteq> [] \<and> clientSecret \<noteq> [] then Some (clientID, clientSecret) else None)"

definition setConfigToken :: "string \<Rightarrow> ('w, unit) call" where
  "setConfigToken pin =
     modifyE (\<lambda>st. st\<lparr>config := (config st)\<lparr>Auth :=
       (Auth (config st))\<lparr>Method := authMethodToken, Token := pin\<rparr>\<rparr>\<rparr>)"

definition Login :: "'w services \<Rightarrow> uint \<Rightarrow> uint \<Rightarrow> string \<Rightarrow> ('w, unit) call" where
  "Login sv sh userType pin =
     bindE (getSession sh) (\<lambda>sess.
       if pin \<noteq> [] then
         (case splitClientCreds pin of
            Some (clientID, clientSecret) \<Rightarrow>
              bindE (authenticate sv clientID clientSecret) (\<lambda>_. loginSlot sh (slotID sess))
          | None \<Rightarrow> bindE (setConfigToken pin) (\<lambda>_. loginSlot sh (slotID sess)))
       else
         bindE (getE config) (\<lambda>cfg.
           if Method (Auth cfg) = authMethodToken then
             (if Token (Auth cfg) = [] then throwE (Errorf ''token auth: no token provided'')
              else loginSlot sh (slotID sess))
           else
             bindE (accessToken sv) (\<lambda>token.
               if token \<noteq> [] \<and> hasConfigCredentials cfg then loginSlot sh (slotID sess)
               else if ClientID (Auth cfg) = [] then throwE (Errorf ''no credentials'')
               else bindE (authenticate sv (ClientID (Auth cfg)) (ClientSecret (Auth cfg))) (\<lambda>_.
                      loginSlot sh (slotID sess)))))"

definition Logout :: "uint \<Rightarrow> ('w, unit) call" where
  "Logout sh =
     bindE (getSession sh) (\<lambda>sess.
       updateManager (\<lambda>m. setAllLoggedInForSlot m (slotID sess) False))"

record SessionInfo =
  ss_SlotID :: uint
  ss_State :: uint
  ss_Flags :: uint

definition GetSessionInfo :: "uint \<Rightarrow> ('w, SessionInfo) call" where
  "GetSessionInfo sh =
     bindE (getSession sh) (\<lambda>sess. returnE
       \<lparr>ss_SlotID = slotID sess,
        ss_State = (if loggedIn sess then CKS_RO_USER_FUNCTIONS else CKS_RO_PUBLIC_SESSION),
        ss_Flags = CKF_SERIAL_SESSION\<rparr>)"

section \<open>What the operations leave alone\<close>

lemma core_slot_queries [preserves]:
  "keeps same_core (GetSlotList sv b)" "keeps same_core (GetSlotInfo sv slot)"
  "keeps same_core (GetTokenInfo sv slot)" "keeps same_core (GetMechanismList sv slot)"
  unfolding GetSlotList_def GetSlotInfo_def GetTokenInfo_def GetMechanismList_def Let_def
  by (intro preserves)+

lemma core_getSession [preserves]: "keeps same_core (getSession sh)"
  "keeps same_core (GetSessionInfo sh)"
  unfolding getSession_def GetSessionInfo_def by (intro preserves)+

lemma safe_slot_ops [safety]:
  "safe (updateManager f)" "safe (getSession sh)" "safe (loginSlot sh slot)"
  "safe (GetSlotList sv b)" "safe (GetSlotInfo sv slot)" "safe (GetTokenInfo sv slot)"
  "safe (GetMechanismList sv slot)" "safe (OpenSession sv slot flags)" "safe (CloseSession sh)"
  "safe (Login sv sh u pin)" "safe (Logout sh)" "safe (GetSessionInfo sh)"
  unfolding updateManager_def getSession_def loginSlot_def GetSlotList_def GetSlotInfo_def
    GetTokenInfo_def GetMechanismList_def OpenSession_def openIn_def CloseSession_def Login_def Logout_def
    GetSessionInfo_def setConfigToken_def Let_def
  by (intro safety)+

context observed_services
begin

lemma reads_slot_ops [preserves]:
  "keeps (sends log reading) (updateManager f)" "keeps (sends log reading) (getSession sh)"
  "keeps (sends log reading) (loginSlot sh slot)" "keeps (sends log reading) (GetSlotList sv b)"
  "keeps (sends log reading) (GetSlotInfo sv slot)"
  "keeps (sends log reading) (GetTokenInfo sv slot)"
  "keeps (sends log reading) (GetMechanismList sv slot)"
  "keeps (sends log reading) (OpenSession sv slot flags)"
  "keeps (sends log reading) (CloseSession sh)" "keeps (sends log reading) (Logout sh)"
  "keeps (sends log reading) (GetSessionInfo sh)"
  unfolding updateManager_def getSession_def loginSlot_def GetSlotList_def GetSlotInfo_def
    GetTokenInfo_def GetMechanismList_def OpenSession_def openIn_def CloseSession_def Logout_def
    GetSessionInfo_def Let_def
  by (intro preserves)+

lemma reads_Login [preserves]: "keeps (sends log reading) (Login sv sh u pin)"
proof -
  have "keeps (sends log reading) (setConfigToken p)" for p
    unfolding setConfigToken_def by (rule keeps_modify) (simp add: sends_nothing)
  then show ?thesis unfolding Login_def by (intro preserves)
qed

end

section \<open>How the operations run\<close>

lemma getSession_run:
  "getSession sh s = Returns (case sm_get (manager s) sh of
     None \<Rightarrow> Inl ErrSessionHandleInvalid | Some sess \<Rightarrow> Inr sess, s)"
  by (simp add: getSession_def split: option.splits)

lemma bind_getSession:
  "bindE (getSession sh) g s =
     (case sm_get (manager s) sh of
        None \<Rightarrow> Returns (Inl ErrSessionHandleInvalid, s) | Some sess \<Rightarrow> g sess s)"
  by (simp add: bindE_def catchE_def getSession_run split: option.splits)

lemma updateManager_run [simp]:
  "updateManager f s = Returns (Inr (), s\<lparr>manager := f (manager s)\<rparr>)"
  by (simp add: updateManager_def)

lemma openIn_run:
  assumes "openIn sv slot s = Returns (Inr h, t)"
  shows "\<exists>m. sm_open (manager s) slot = (h, m) \<and>
    (manager t = m \<or> manager t = setLoggedIn m h True
       \<and> (isTokenAuth (config s) \<or> hasConfigCredentials (config s)))"
proof -
  obtain h1 m where "sm_open (manager s) slot = (h1, m)" by fastforce
  with assms show ?thesis
    by (simp add: openIn_def accessToken_def bindE_Inr split: if_split_asm) auto
qed

lemma loginSlot_run:
  "loginSlot sh slot s = Returns (Inr (), s\<lparr>manager :=
     setAllLoggedInForSlot (setLoggedIn (manager s) sh True) slot True\<rparr>)"
  by (simp add: loginSlot_def bindE_Inr)

lemma loginSlot_sessions:
  assumes "sm_get m sh = Some sess"
  shows "sm_get (setAllLoggedInForSlot (setLoggedIn m sh True) (slotID sess) True) h =
    map_option (\<lambda>x. if slotID x = slotID sess then x\<lparr>loggedIn := True\<rparr> else x) (sm_get m h)"
  using assms by (auto simp: sm_defs map_at_def split: option.splits)

lemma getSigners_cached:
  assumes "getSigners sv s = Returns (Inr signers, t)"
  shows "\<exists>e. sc_entry (signer_cache t) = Some e \<and> entry_value e = signers"
  using assms
  by (auto simp: getSigners_def nowE_def sc_get_def sc_set_def elim!: bindE_InrE
      split: prod.splits option.splits if_splits)

lemma getSigners_hit:
  assumes "sc_get (signer_cache s) (fst (sv_now sv (world s))) = Some signers"
  shows "getSigners sv s = Returns (Inr signers, s\<lparr>world := snd (sv_now sv (world s))\<rparr>)"
  using assms by (auto simp: getSigners_def bindE_def catchE_def nowE_def split: prod.splits)

lemma getSignerBySlot_hit:
  assumes "sc_get (signer_cache s) (fst (sv_now sv (world s))) = Some signers"
  shows "getSignerBySlot sv slot s =
    Returns (if slot \<ge> of_nat (length signers) then Inl (Wrapf ''slot'' ErrSlotIDInvalid)
             else Inr (signers ! unat slot), s\<lparr>world := snd (sv_now sv (world s))\<rparr>)"
  using getSigners_hit [OF assms] by (simp add: getSignerBySlot_def bindE_def catchE_def)

section \<open>Properties\<close>

text \<open>
  The slot list numbers the signers from 0, and while the list is cached the slots it
  returned, and no others, are valid: each resolves to its signer without a request, and
  every other slot is refused.
\<close>

theorem slot_list_resolves:
  assumes "GetSlotList sv b s = Returns (Inr slots, t)"
    "sc_get (signer_cache t) (fst (sv_now sv (world t))) = Some signers"
    "length signers < 2 ^ 64"
  shows "slots = map of_nat [0..<length signers]
    \<and> getSignerBySlot sv slot t =
        Returns (if slot \<in> set slots then Inr (signers ! unat slot)
                 else Inl (Wrapf ''slot'' ErrSlotIDInvalid), t\<lparr>world := snd (sv_now sv (world t))\<rparr>)"
proof -
  from assms(1) obtain found where f: "getSigners sv s = Returns (Inr found, t)"
    "slots = map of_nat [0..<length found]"
    by (auto simp: GetSlotList_def elim!: bindE_InrE)
  then have "found = signers"
    using getSigners_cached [OF f(1)] assms(2) by (auto simp: sc_get_def split: if_splits)
  moreover have "slot \<in> of_nat ` {0..<length signers} \<longleftrightarrow> \<not> slot \<ge> of_nat (length signers)"
  proof
    assume "\<not> slot \<ge> of_nat (length signers)"
    then have "unat slot < length signers"
      using word_le_of_nat_iff [OF assms(3), of slot] by simp
    then show "slot \<in> of_nat ` {0..<length signers}"
      by (intro image_eqI [of _ _ "unat slot"]) auto
  next
    assume "slot \<in> of_nat ` {0..<length signers}"
    then obtain i where "slot = of_nat i" "i < length signers" by auto
    then show "\<not> slot \<ge> of_nat (length signers)"
      using word_le_of_nat_iff [OF assms(3), of slot] assms(3) by (simp add: unat_of_nat_u64)
  qed
  ultimately show ?thesis using f(2) getSignerBySlot_hit [OF assms(2)] by simp
qed

definition ok_server :: "http_request \<Rightarrow> http_response" where
  "ok_server rq = ok_response ''AQID''"

lemma example_slot_list:
  "\<exists>t. GetSlotList (example_services ok_server) True (example_state 1) = Returns (Inr [0, 1], t)
    \<and> sc_get (signer_cache t) (fst (sv_now (example_services ok_server) (world t)))
        = Some [rsa_signer, ec_signer]"
  by (simp add: GetSlotList_def fetch_defs example_run_defs ok_server_def ListSigners_def
      newSignerCache_def cache_defs seconds_exact)

theorem slot_list_resolves_witness:
  "\<exists>t. getSignerBySlot (example_services ok_server) 1 t = Returns (Inr ec_signer, t)"
proof -
  obtain t where "GetSlotList (example_services ok_server) True (example_state 1) = Returns (Inr [0, 1], t)"
    "sc_get (signer_cache t) (fst (sv_now (example_services ok_server) (world t)))
        = Some [rsa_signer, ec_signer]"
    using example_slot_list by blast
  from slot_list_resolves [OF this, of 1] have
    "getSignerBySlot (example_services ok_server) 1 t = Returns (Inr ec_signer, t)"
    by (simp add: example_services_def)
  then show ?thesis by blast
qed

text \<open>
  C30: a session that opens gets a handle that was not in use, belongs to the slot asked for
  and starts without any active operation; it is logged in only if the configuration holds a
  token or client credentials; no other session changes.
\<close>

theorem OpenSession_fresh:
  assumes "OpenSession sv slot flags s = Returns (Inr h, t)" "sm_inv (manager s)"
  shows "sm_get (manager s) h = None
    \<and> (\<exists>sess. sm_get (manager t) h = Some sess \<and> sess\<lparr>loggedIn := False\<rparr> = new_session slot
         \<and> (loggedIn sess \<longrightarrow> isTokenAuth (config s) \<or> hasConfigCredentials (config s)))
    \<and> (\<forall>h'. h' \<noteq> h \<longrightarrow> sm_get (manager t) h' = sm_get (manager s) h')"
proof -
  from assms(1) obtain signer s1 where g: "getSignerBySlot sv slot s = Returns (Inr signer, s1)"
    and rest: "openIn sv slot s1 = Returns (Inr h, t)"
    unfolding OpenSession_def openIn_def by (rule bindE_InrE)
  have core: "manager s1 = manager s" "config s1 = config s"
    using keepsD [OF core_getSignerBySlot g] by (auto simp: same_core_def)
  obtain m where open_: "sm_open (manager s) slot = (h, m)"
    and mt: "manager t = m \<or>
      manager t = sm_update m h (\<lambda>s. s\<lparr>loggedIn := True\<rparr>)
      \<and> (isTokenAuth (config s) \<or> hasConfigCredentials (config s))"
    using openIn_run [OF rest] core by (auto simp: setLoggedIn_def)
  have lookup: "sm_get m h' = (if h' = h then Some (new_session slot) else sm_get (manager s) h')" for h'
    using sess.lookup_create [OF open_] .
  show ?thesis
    using sess.create_unused [OF assms(2) open_] mt lookup
    by (auto simp: sess.lookup_modify new_session_def)
qed

lemma example_open:
  "\<exists>t. OpenSession (example_services ok_server) 1 0 (example_state 1) = Returns (Inr 1, t)"
  by (simp add: OpenSession_def openIn_def fetch_defs example_run_defs ok_server_def ListSigners_def
      newSignerCache_def cache_defs seconds_exact sm_open_def newSessionManager_def
      isTokenAuth_def hasConfigCredentials_def word_le_nat_alt)

theorem OpenSession_fresh_witness:
  "\<exists>t sess. OpenSession (example_services ok_server) 1 0 (example_state 1) = Returns (Inr 1, t)
    \<and> sm_get (manager t) 1 = Some sess \<and> slotID sess = 1"
proof -
  obtain t where t: "OpenSession (example_services ok_server) 1 0 (example_state 1) = Returns (Inr 1, t)"
    using example_open by blast
  have "sm_inv (manager (example_state (1 :: nat)))" by (simp add: example_state_def sm_inv_new)
  from OpenSession_fresh [OF t this] obtain sess where
    "sm_get (manager t) 1 = Some sess" "sess\<lparr>loggedIn := False\<rparr> = new_session 1" by blast
  moreover have "slotID (sess\<lparr>loggedIn := False\<rparr>) = slotID sess" by simp
  ultimately show ?thesis using t by (auto simp: new_session_def)
qed

text \<open>The two ways a login ends.\<close>

lemma Login_cases:
  assumes "Login sv h u pin s = Returns (r, t)"
  obtains (failed) e where "r = Inl e" "manager t = manager s" "config t = config s"
      "mapErrorToRV e \<in> {CKR_SESSION_HANDLE_INVALID, CKR_GENERAL_ERROR}"
  | (success) sess s1 where "r = Inr ()" "sm_get (manager s) h = Some sess"
      "manager s1 = manager s" "loginSlot h (slotID sess) s1 = Returns (Inr (), t)"
      "if pin \<noteq> [] \<and> splitClientCreds pin = None
       then Method (Auth (config s1)) = authMethodToken \<and> Token (Auth (config s1)) = pin
       else config s1 = config s"
proof (cases "sm_get (manager s) h")
  case None
  with assms have "r = Inl ErrSessionHandleInvalid" "t = s"
    by (auto simp: Login_def bind_getSession)
  with failed show thesis by (simp add: mapErrorToRV_root)
next
  case (Some sess)
  let ?finish = "loginSlot h (slotID sess)"
  note run = assms [unfolded Login_def bind_getSession Some option.case]
  have auth: thesis if "bindE (authenticate sv i p) (\<lambda>_. ?finish) s = Returns (r, t)"
    "pin = [] \<or> splitClientCreds pin \<noteq> None" for i p
    using that(1)
  proof (cases rule: bindE_ReturnsE)
    case (err e)
    then show ?thesis
      using failed keepsD [OF core_authenticate err(1)] authenticate_error [OF err(1)]
      by (auto simp: same_core_def)
  next
    case (ok x s1)
    then show ?thesis
      using success [of sess s1] Some keepsD [OF core_authenticate ok(1)] that(2)
      by (auto simp: same_core_def loginSlot_run)
  qed
  show thesis
  proof (cases "pin = []")
    case False
    show thesis
    proof (cases "splitClientCreds pin")
      case None
      let ?s1 = "s\<lparr>config := (config s)\<lparr>Auth :=
        (Auth (config s))\<lparr>Method := authMethodToken, Token := pin\<rparr>\<rparr>\<rparr>"
      have "?finish ?s1 = Returns (r, t)"
        using run False None by (simp add: setConfigToken_def)
      then show thesis using success [of sess ?s1] Some False None by (simp add: loginSlot_run)
    next
      case (Some creds)
      with run False auth show thesis by (cases creds) auto
    qed
  next
    case True
    consider m where "r = Inl (Errorf m)" "t = s" | "?finish s = Returns (r, t)"
      | i p where "bindE (authenticate sv i p) (\<lambda>_. ?finish) s = Returns (r, t)"
      using run True by (auto simp: accessToken_def split: if_split_asm)
    then show thesis
    proof cases
      case 1
      with failed show thesis by auto
    next
      case 2
      with success [of sess s] Some True show thesis by (simp add: loginSlot_run)
    next
      case 3
      with auth True show thesis by blast
    qed
  qed
qed

text \<open>
  C31: a successful login logs in exactly the sessions of the caller's slot, whatever the kind
  of credential; a failed one changes neither a session nor the configuration.
\<close>

theorem Login_scope:
  assumes "Login sv h u pin s = Returns (r, t)"
  shows "case r of
      Inl e \<Rightarrow> manager t = manager s \<and> config t = config s
    | Inr _ \<Rightarrow> \<exists>sess. sm_get (manager s) h = Some sess \<and>
        (\<forall>h'. sm_get (manager t) h' =
          map_option (\<lambda>x. if slotID x = slotID sess then x\<lparr>loggedIn := True\<rparr> else x)
            (sm_get (manager s) h'))"
  using assms
proof (cases rule: Login_cases)
  case (success sess s1)
  then show ?thesis by (auto simp: loginSlot_run loginSlot_sessions)
qed simp

definition two_sessions :: "(nat \<times> exchange list) backend" where
  "two_sessions = (example_state (1, []))\<lparr>manager := snd (sm_open (snd (sm_open newSessionManager 0)) 1)\<rparr>"

lemma two_sessions_get:
  "sm_get (manager two_sessions) 1 = Some (new_session 0)"
  "sm_get (manager two_sessions) 2 = Some (new_session 1)"
  by (simp_all add: two_sessions_def sm_defs newSessionManager_def)

theorem Login_scope_witness:
  "\<exists>t. Login (traced (example_services ok_server)) 1 1 ''tok'' two_sessions = Returns (Inr (), t)
    \<and> sm_get (manager t) 1 = Some ((new_session 0)\<lparr>loggedIn := True\<rparr>)
    \<and> sm_get (manager t) 2 = Some (new_session 1)"
proof -
  have "splitClientCreds ''tok'' = None" by (simp add: splitClientCreds_def)
  then obtain t where
    t: "Login (traced (example_services ok_server)) 1 1 ''tok'' two_sessions = Returns (Inr (), t)"
    by (simp add: Login_def bind_getSession two_sessions_get setConfigToken_def loginSlot_run)
  from Login_scope [OF t] t show ?thesis by (auto simp: two_sessions_get new_session_def)
qed

text \<open>
  After a login whose PIN is not of the form id:secret, the PIN is the token every later
  request carries.
\<close>

theorem Login_pin_is_token:
  assumes "Login sv h u pin s = Returns (Inr (), t)" "pin \<noteq> []" "splitClientCreds pin = None"
  shows "getToken sv t = Returns (Inr pin, t)"
  using assms(1)
proof (cases rule: Login_cases)
  case (success sess s1)
  with assms(2,3) show ?thesis by (auto simp: getToken_def loginSlot_run)
qed simp

theorem Login_pin_is_token_witness:
  "\<exists>t. getToken (traced (example_services ok_server)) t = Returns (Inr ''tok'', t)"
proof -
  have "splitClientCreds ''tok'' = None" by (simp add: splitClientCreds_def)
  moreover then obtain t where
    "Login (traced (example_services ok_server)) 1 1 ''tok'' two_sessions = Returns (Inr (), t)"
    by (simp add: Login_def bind_getSession two_sessions_get setConfigToken_def loginSlot_run)
  ultimately show ?thesis
    using Login_pin_is_token [of "traced (example_services ok_server)" 1 1 "''tok''"] by blast
qed

text \<open>
  C37: client credentials given as the PIN are not what later requests use when the module is
  in token authentication: the login succeeds with them, the method stays, and requests go on
  with the configured token.
\<close>

theorem Login_credentials_keep_token:
  assumes "Login sv h u pin s = Returns (Inr (), t)" "splitClientCreds pin = Some creds"
    "isTokenAuth (config s)"
  shows "getToken sv t = Returns (Inr (Token (Auth (config s))), t)"
  using assms(1)
proof (cases rule: Login_cases)
  case (success sess s1)
  with assms(2,3) show ?thesis by (auto simp: getToken_def loginSlot_run isTokenAuth_def)
qed simp

definition token_sessions :: "(nat \<times> exchange list) backend" where
  "token_sessions = two_sessions\<lparr>config := (config two_sessions)\<lparr>Auth :=
     \<lparr>Method = authMethodToken, ClientID = [], ClientSecret = [], Token = ''static''\<rparr>\<rparr>\<rparr>"

theorem Login_credentials_keep_token_witness:
  "\<exists>t. Login (traced (example_services ok_server)) 1 1 ''id:secret'' token_sessions = Returns (Inr (), t)
    \<and> getToken (traced (example_services ok_server)) t = Returns (Inr ''static'', t)"
proof -
  let ?sv = "traced (example_services ok_server)"
  have creds: "splitClientCreds ''id:secret'' = Some (''id'', ''secret'')"
    by (simp add: splitClientCreds_def)
  have tok: "isTokenAuth (config token_sessions)" "Token (Auth (config token_sessions)) = ''static''"
    "sm_get (manager token_sessions) 1 = Some (new_session 0)"
    using two_sessions_get(1) by (simp_all add: token_sessions_def isTokenAuth_def)
  obtain t1 where "authenticate ?sv ''id'' ''secret'' token_sessions = Returns (Inr (), t1)"
    by (simp add: fetch_defs example_run_defs token_sessions_def two_sessions_def)
  then obtain t where t: "Login ?sv 1 1 ''id:secret'' token_sessions = Returns (Inr (), t)"
    by (simp add: Login_def bind_getSession tok creds bindE_Inr loginSlot_run)
  from Login_credentials_keep_token [OF t creds tok(1)] t tok(2) show ?thesis by auto
qed

text \<open>
  A logout ends the login of every session of the slot and of no other, and touches
  nothing else of any session; in particular a signing operation that is active stays active.
\<close>

theorem Logout_scope:
  assumes "Logout h s = Returns (Inr (), t)"
  shows "\<exists>sess. sm_get (manager s) h = Some sess \<and>
    (\<forall>h'. sm_get (manager t) h' =
      map_option (\<lambda>x. if slotID x = slotID sess then x\<lparr>loggedIn := False\<rparr> else x)
        (sm_get (manager s) h'))"
  using assms
  by (auto simp: Logout_def bind_getSession setAllLoggedInForSlot_def sm_get_def
      split: option.splits)

theorem Logout_scope_witness:
  "\<exists>t. Logout 1 two_sessions = Returns (Inr (), t) \<and> sm_get (manager t) 2 = Some (new_session 1)"
proof -
  obtain t where t: "Logout 1 two_sessions = Returns (Inr (), t)"
    by (simp add: Logout_def bind_getSession two_sessions_get)
  from Logout_scope [OF t] t show ?thesis by (auto simp: two_sessions_get new_session_def)
qed

end
