(* ===== verification/Object_Keys.thy ===== *)
theory Object_Keys
  imports Slot_Ops
begin

text \<open>
  \<^verbatim>\<open>backend.go\<close>, third part: the certificate of a signer, fetched and cached, and the key
  data the module derives from it for the attributes of RSA and EC keys.
\<close>

section \<open>Certificates\<close>

definition getKeyType :: "signerResponse \<Rightarrow> uint" where
  "getKeyType signer =
     (let keyAlg = keyAlgorithm signer
      in if contains keyAlg ''rsa'' then CKK_RSA
         else if contains keyAlg ''ec'' then CKK_EC
         else CKK_RSA)"

text \<open>\<^verbatim>\<open>getCertificateData\<close> after a miss in the cache.\<close>

definition fetchCertificate :: "'w services \<Rightarrow> string \<Rightarrow> signerResponse \<Rightarrow> ('w, bytes) call" where
  "fetchCertificate sv signerID signer =
     (if CertificateID signer = [] then throwE (Errorf ''signer has no certificate'')
      else
        bindE (withRetryOnAuth sv (\<lambda>token. apiE (\<lambda>c. GetCertificate sv c token (ID signer)))) (\<lambda>pem.
          case sv_pem_Decode sv pem of
            None \<Rightarrow> throwE (Errorf ''failed to decode PEM certificate from API'')
          | Some der \<Rightarrow>
              bindE (nowE sv) (\<lambda>t.
              bindE (modifyE (\<lambda>st. st\<lparr>cert_cache := setCert (cert_cache st) signerID der t\<rparr>)) (\<lambda>_.
                returnE der))))"

definition getCertificateData :: "'w services \<Rightarrow> string \<Rightarrow> ('w, bytes) call" where
  "getCertificateData sv signerID =
     bindE (nowE sv) (\<lambda>t.
     bindE (getE (\<lambda>st. getCert (cert_cache st) signerID t)) (\<lambda>hit.
       case hit of
         Some data \<Rightarrow> returnE data
       | None \<Rightarrow>
           catchE (getSignerBySignerID sv signerID) (\<lambda>r.
             case r of
               Inl err \<Rightarrow> throwE (Wrapf ''failed to resolve signer for certificate'' err)
             | Inr signer \<Rightarrow> fetchCertificate sv signerID signer)))"

text \<open>The fetch and the parse that every use of the certificate starts with.\<close>

definition getCertificate :: "'w services \<Rightarrow> string \<Rightarrow> ('w, certificate) call" where
  "getCertificate sv signerID =
     bindE (getCertificateData sv signerID) (\<lambda>certData.
       case sv_parse_certificate sv certData of
         None \<Rightarrow> throwE (Wrapf ''failed to parse certificate'' (Errorf ''x509''))
       | Some cert \<Rightarrow> returnE cert)"

section \<open>RSA keys\<close>

record rsaKeyData =
  modulus :: bytes
  exponent :: bytes

definition rsaKeyOf :: "certificate \<Rightarrow> rsaKeyData result" where
  "rsaKeyOf cert =
     (case PublicKey cert of
        RSAKey n e \<Rightarrow> Inr \<lparr>modulus = nat_bytes n, exponent = nat_bytes (nat \<bar>sint e\<bar>)\<rparr>
      | _ \<Rightarrow> Inl (Errorf ''certificate does not contain an RSA public key''))"

definition getPublicKeyData :: "'w services \<Rightarrow> string \<Rightarrow> ('w, rsaKeyData) call" where
  "getPublicKeyData sv signerID =
     bindE (nowE sv) (\<lambda>t.
     bindE (getE (\<lambda>st. getPubKey (cert_cache st) signerID t)) (\<lambda>hit.
       case hit of
         Some pk \<Rightarrow> returnE \<lparr>modulus = PublicKeyDER pk, exponent = Exponent pk\<rparr>
       | None \<Rightarrow>
           bindE (getCertificate sv signerID) (\<lambda>cert.
           bindE (liftR (rsaKeyOf cert)) (\<lambda>data.
           bindE (nowE sv) (\<lambda>t.
           bindE (modifyE (\<lambda>st. st\<lparr>cert_cache := setPubKey (cert_cache st) signerID
             \<lparr>PublicKeyDER = modulus data, Exponent = exponent data, ECParams = [], ECPoint = [],
              Algorithm = ''RSA''\<rparr> t\<rparr>)) (\<lambda>_.
             returnE data))))))"

section \<open>EC keys\<close>

record ecKeyData =
  ecParams :: bytes
  ecPoint :: bytes

definition oidP256 :: "nat list" where "oidP256 = [1, 2, 840, 10045, 3, 1, 7]"
definition oidP384 :: "nat list" where "oidP384 = [1, 3, 132, 0, 34]"
definition oidP521 :: "nat list" where "oidP521 = [1, 3, 132, 0, 35]"

text \<open>The identifier and the bit size of the curves the code supports.\<close>

definition curveOID :: "curve \<Rightarrow> (nat list \<times> nat) option" where
  "curveOID c =
     (case c of P256 \<Rightarrow> Some (oidP256, 256) | P384 \<Rightarrow> Some (oidP384, 384)
      | P521 \<Rightarrow> Some (oidP521, 521) | OtherCurve _ \<Rightarrow> None)"

text \<open>The uncompressed point; \<^verbatim>\<open>FillBytes\<close> panics when a coordinate does not fit.\<close>

definition pointBytes :: "nat \<Rightarrow> nat \<Rightarrow> nat \<Rightarrow> bytes outcome" where
  "pointBytes byteLen x y =
     (case fillBytes x byteLen of
        Panics \<Rightarrow> Panics
      | Returns xs \<Rightarrow> (case fillBytes y byteLen of
                         Panics \<Rightarrow> Panics
                       | Returns ys \<Rightarrow> Returns (0x04 # xs @ ys)))"

definition ecKeyOf :: "certificate \<Rightarrow> ecKeyData result outcome" where
  "ecKeyOf cert =
     (case PublicKey cert of
        ECKey c x y \<Rightarrow>
          (case curveOID c of
             None \<Rightarrow> Returns (Inl (Errorf ''unsupported EC curve''))
           | Some (oid, bitSize) \<Rightarrow>
               (case marshalOID oid of
                  None \<Rightarrow> Returns (Inl (Wrapf ''failed to marshal EC params'' (Errorf ''asn1'')))
                | Some ecParamsDER \<Rightarrow>
                    (case pointBytes ((bitSize + 7) div 8) x y of
                       Panics \<Rightarrow> Panics
                     | Returns point \<Rightarrow>
                         Returns (Inr \<lparr>ecParams = ecParamsDER, ecPoint = marshalOctetString point\<rparr>))))
      | _ \<Rightarrow> Returns (Inl (Errorf ''certificate does not contain an EC public key'')))"

definition liftO :: "'a result outcome \<Rightarrow> ('s, 'a) go" where
  "liftO r = (case r of Panics \<Rightarrow> panicE | Returns r \<Rightarrow> liftR r)"

definition getECPublicKeyData :: "'w services \<Rightarrow> string \<Rightarrow> ('w, ecKeyData) call" where
  "getECPublicKeyData sv signerID =
     bindE (nowE sv) (\<lambda>t.
     bindE (getE (\<lambda>st. getPubKey (cert_cache st) signerID t)) (\<lambda>hit.
       case (case hit of Some pk \<Rightarrow> if Algorithm pk = ''EC'' then Some pk else None | None \<Rightarrow> None) of
         Some pk \<Rightarrow> returnE \<lparr>ecParams = ECParams pk, ecPoint = ECPoint pk\<rparr>
       | None \<Rightarrow>
           bindE (getCertificate sv signerID) (\<lambda>cert.
           bindE (liftO (ecKeyOf cert)) (\<lambda>data.
           bindE (nowE sv) (\<lambda>t.
           bindE (modifyE (\<lambda>st. st\<lparr>cert_cache := setPubKey (cert_cache st) signerID
             \<lparr>PublicKeyDER = [], Exponent = [], ECParams = ecParams data, ECPoint = ecPoint data,
              Algorithm = ''EC''\<rparr> t\<rparr>)) (\<lambda>_.
             returnE data))))))"

section \<open>What they leave alone\<close>

lemma core_liftO [preserves]: "keeps same_core (liftO r)"
  unfolding liftO_def by (cases r) (auto intro: preserves)

lemma core_getCertificateData [preserves]: "keeps same_core (getCertificateData sv i)"
  unfolding getCertificateData_def fetchCertificate_def by (intro preserves)

lemma core_keys [preserves]:
  "keeps same_core (getCertificate sv i)" "keeps same_core (getPublicKeyData sv i)"
  "keeps same_core (getECPublicKeyData sv i)"
  unfolding getCertificate_def getPublicKeyData_def getECPublicKeyData_def by (intro preserves)+

lemma safe_getCertificateData [safety]: "safe (getCertificateData sv i)"
  unfolding getCertificateData_def fetchCertificate_def by (intro safety)

lemma safe_getCertificate [safety]: "safe (getCertificate sv i)"
  unfolding getCertificate_def by (intro safety)

lemma safe_getPublicKeyData [safety]: "safe (getPublicKeyData sv i)"
  unfolding getPublicKeyData_def by (intro safety)

context observed_services
begin

lemma reads_liftO [preserves]: "keeps (sends log reading) (liftO r)"
  unfolding liftO_def by (cases r) (auto intro: preserves)

lemma reads_getCertificateData [preserves]: "keeps (sends log reading) (getCertificateData sv i)"
  unfolding getCertificateData_def fetchCertificate_def by (intro preserves)

lemma reads_keys [preserves]:
  "keeps (sends log reading) (getCertificate sv i)" "keeps (sends log reading) (getPublicKeyData sv i)"
  "keeps (sends log reading) (getECPublicKeyData sv i)"
  unfolding getCertificate_def getPublicKeyData_def getECPublicKeyData_def by (intro preserves)+

end

section \<open>Panics of the EC encoding\<close>

text \<open>
  What \<^verbatim>\<open>x509.ParseCertificate\<close> guarantees of the EC keys it returns: the point is on the
  curve, so each coordinate is below \<open>2 ^ bits\<close>.
\<close>

definition coordinates_fit :: "certificate \<Rightarrow> bool" where
  "coordinates_fit cert \<longleftrightarrow>
     (case PublicKey cert of
        ECKey c x y \<Rightarrow> (case curveOID c of None \<Rightarrow> True | Some (oid, bits) \<Rightarrow> x < 2 ^ bits \<and> y < 2 ^ bits)
      | _ \<Rightarrow> True)"

definition points_on_curve :: "'w services \<Rightarrow> bool" where
  "points_on_curve sv \<longleftrightarrow>
     (\<forall>der. case sv_parse_certificate sv der of None \<Rightarrow> True | Some cert \<Rightarrow> coordinates_fit cert)"

lemma fillBytes_fits:
  assumes "x < 2 ^ (8 * k)"
  shows "fillBytes x k = Returns (replicate (k - length (nat_bytes x)) 0 @ nat_bytes x)"
    and "length (nat_bytes x) \<le> k"
proof -
  from assms have "x < 256 ^ k" by (simp add: power_mult)
  then show "length (nat_bytes x) \<le> k" by (rule length_nat_bytes_le)
  then show "fillBytes x k = Returns (replicate (k - length (nat_bytes x)) 0 @ nat_bytes x)"
    by (simp add: fillBytes_def)
qed

lemma curve_bits:
  "curveOID c = Some (oid, bits) \<Longrightarrow>
     (oid, bits) \<in> {(oidP256, 256), (oidP384, 384), (oidP521, 521)}"
  by (auto simp: curveOID_def split: curve.splits)

lemma fits_bytes: "x < 2 ^ bits \<Longrightarrow> (x :: nat) < 2 ^ (8 * ((bits + 7) div 8))"
proof -
  assume "x < 2 ^ bits"
  moreover have "bits \<le> 8 * ((bits + 7) div 8)" by linarith
  then have "(2 :: nat) ^ bits \<le> 2 ^ (8 * ((bits + 7) div 8))" by (rule power_increasing) simp
  ultimately show ?thesis by linarith
qed

lemma ecKeyOf_safe: "coordinates_fit cert \<Longrightarrow> ecKeyOf cert \<noteq> Panics"
  by (auto simp: coordinates_fit_def ecKeyOf_def pointBytes_def
      fillBytes_fits(1) [OF fits_bytes] split: public_key.splits option.splits outcome.splits)

section \<open>Properties\<close>

lemma bytes_nat_zeros: "bytes_nat (replicate k 0 @ bs) = bytes_nat bs"
  by (induction k) (simp_all add: bytes_nat_def)

lemma fillBytes_value:
  assumes "x < 2 ^ bits"
  obtains xs where "fillBytes x ((bits + 7) div 8) = Returns xs" "length xs = (bits + 7) div 8"
    "bytes_nat xs = x"
  using that fillBytes_fits [OF fits_bytes [OF assms]] by (auto simp: bytes_nat_zeros bytes_nat_bytes)

lemma curve_oid_content:
  assumes "curveOID c = Some (oid, bits)"
  obtains content where "marshalOID oid = Some (derValue 6 content)" "length content < 2 ^ 31"
    "parseObjectIdentifier content = Some oid"
proof -
  obtain a b arcs where oid: "oid = a # b # arcs" "a \<le> 2" "a < 2 \<longrightarrow> b < 40"
    "\<forall>n \<in> set ((a * 40 + b) # arcs). n < 2 ^ 31" "length arcs \<le> 5"
    using curve_bits [OF assms] by (auto simp: oidP256_def oidP384_def oidP521_def)
  let ?c = "base128 (a * 40 + b) @ concat (map base128 arcs)"
  have "length (base128 n) \<le> 5" if "n < 2 ^ 31" for n
  proof -
    have "n div 128 < 128 ^ 4" using that by simp
    then show ?thesis using length_base128_high_le by (fastforce simp: base128_def)
  qed
  then have "length (concat (map base128 ns)) \<le> 5 * length ns" if "\<forall>n \<in> set ns. n < 2 ^ 31" for ns
    using that by (induction ns) fastforce+
  from this [of "(a * 40 + b) # arcs"] oid(4,5) have "length ?c < 2 ^ 31" by simp
  moreover have "marshalOID oid = Some (derValue 6 ?c)"
    using oid by (auto simp: marshalOID_def)
  ultimately show thesis
    using that parseObjectIdentifier_marshal [OF oid(2-4)] oid(1) by blast
qed

lemma parse_derValue_universal:
  assumes "length content < 2 ^ 31" "tag < 31"
  shows "parseUniversal tag False (derValue tag content) = Some (content, [])"
  using parseValue_derValue [of tag content "[]"] assms by (auto simp: parseUniversal_def)

text \<open>
  C20: for a key on one of the three supported curves the EC attributes are well-formed DER
  that decodes to the key: \<^verbatim>\<open>CKA_EC_PARAMS\<close> to the object identifier of the curve,
  \<^verbatim>\<open>CKA_EC_POINT\<close> to an octet string with the uncompressed point, both coordinates at the
  full width of the field.
\<close>

theorem ec_key_roundtrip:
  assumes "PublicKey cert = ECKey c x y" "coordinates_fit cert" "curveOID c = Some (oid, bits)"
  shows "\<exists>data oidBytes xs ys. ecKeyOf cert = Returns (Inr data)
    \<and> parseUniversal 6 False (ecParams data) = Some (oidBytes, [])
    \<and> parseObjectIdentifier oidBytes = Some oid
    \<and> parseUniversal 4 False (ecPoint data) = Some (0x04 # xs @ ys, [])
    \<and> length xs = (bits + 7) div 8 \<and> length ys = (bits + 7) div 8
    \<and> bytes_nat xs = x \<and> bytes_nat ys = y"
proof -
  from assms have xy: "x < 2 ^ bits" "y < 2 ^ bits" by (auto simp: coordinates_fit_def)
  obtain xs where xs: "fillBytes x ((bits + 7) div 8) = Returns xs" "length xs = (bits + 7) div 8"
    "bytes_nat xs = x" using fillBytes_value [OF xy(1)] .
  obtain ys where ys: "fillBytes y ((bits + 7) div 8) = Returns ys" "length ys = (bits + 7) div 8"
    "bytes_nat ys = y" using fillBytes_value [OF xy(2)] .
  obtain content where c: "marshalOID oid = Some (derValue 6 content)" "length content < 2 ^ 31"
    "parseObjectIdentifier content = Some oid" using curve_oid_content [OF assms(3)] .
  have "length (0x04 # xs @ ys) < 2 ^ 31"
    using xs(2) ys(2) curve_bits [OF assms(3)] by auto
  then have "parseUniversal 4 False (marshalOctetString (0x04 # xs @ ys)) = Some (0x04 # xs @ ys, [])"
    using parse_derValue_universal by (simp add: marshalOctetString_def)
  moreover have "ecKeyOf cert = Returns (Inr \<lparr>ecParams = derValue 6 content,
      ecPoint = marshalOctetString (0x04 # xs @ ys)\<rparr>)"
    using assms xs(1) ys(1) c(1) by (simp add: ecKeyOf_def pointBytes_def)
  ultimately show ?thesis
    using xs ys c parse_derValue_universal [of content 6] by (intro exI) auto
qed

theorem ec_key_roundtrip_witness:
  "\<exists>data xs ys. ecKeyOf \<lparr>RawSubject = [], RawIssuer = [], SerialNumber = 1,
        PublicKey = ECKey P521 5 (2 ^ 520)\<rparr> = Returns (Inr data)
    \<and> parseUniversal 4 False (ecPoint data) = Some (0x04 # xs @ ys, [])
    \<and> length xs = 66 \<and> bytes_nat xs = 5 \<and> bytes_nat ys = 2 ^ 520"
  using ec_key_roundtrip [of "\<lparr>RawSubject = [], RawIssuer = [], SerialNumber = 1,
        PublicKey = ECKey P521 5 (2 ^ 520)\<rparr>" P521 5 "2 ^ 520" oidP521 521]
  by (auto simp: coordinates_fit_def curveOID_def)

lemma nat_bytes_bounds:
  "n < 256 ^ length (nat_bytes n) \<and> (n \<noteq> 0 \<longrightarrow> 256 ^ (length (nat_bytes n) - 1) \<le> n)"
proof (induction n rule: nat_bytes.induct)
  case (1 n)
  show ?case
  proof (cases "n = 0")
    case False
    let ?k = "length (nat_bytes (n div 256))"
    have len: "length (nat_bytes n) = Suc ?k" using False by (subst nat_bytes.simps) simp
    have n: "n = 256 * (n div 256) + n mod 256" "n mod 256 < 256" by simp_all
    from 1 False have IH: "n div 256 < 256 ^ ?k" "n div 256 \<noteq> 0 \<longrightarrow> 256 ^ (?k - 1) \<le> n div 256"
      by auto
    have "256 * (n div 256) + 256 \<le> 256 * 256 ^ ?k" using IH(1) by simp
    then have "n < 256 ^ Suc ?k" using n by (simp del: mult_div_mod_eq)
    moreover have "256 ^ ?k \<le> n"
    proof (cases "n div 256 = 0")
      case False
      then obtain j where "?k = Suc j" using nat_bytes_no_leading_zero by (cases ?k) auto
      with IH(2) False have "256 ^ ?k \<le> 256 * (n div 256)" by simp
      then show ?thesis using n(1) by linarith
    qed (use \<open>n \<noteq> 0\<close> in simp)
    ultimately show ?thesis using len by simp
  qed simp
qed

text \<open>
  The RSA attributes hold the big-endian modulus and exponent without leading zeros, and
  \<^verbatim>\<open>CKA_MODULUS_BITS\<close>, eight times the number of bytes, is the bit length of the modulus
  rounded up to a multiple of eight.
\<close>

theorem rsa_key_bytes:
  assumes "PublicKey cert = RSAKey n e" "n \<noteq> 0"
  shows "\<exists>data. rsaKeyOf cert = Inr data
    \<and> bytes_nat (modulus data) = n \<and> hd (modulus data) \<noteq> 0
    \<and> n < 2 ^ (8 * length (modulus data)) \<and> 2 ^ (8 * length (modulus data) - 8) \<le> n
    \<and> (0 \<le> sint e \<longrightarrow> int (bytes_nat (exponent data)) = sint e)"
proof -
  have "8 * length (nat_bytes n) - 8 = 8 * (length (nat_bytes n) - 1)" by simp
  then have "n < 2 ^ (8 * length (nat_bytes n))" "2 ^ (8 * length (nat_bytes n) - 8) \<le> n"
    using nat_bytes_bounds [of n] assms(2) by (simp_all add: power_mult)
  then show ?thesis
    using assms nat_bytes_no_leading_zero [OF assms(2)]
    by (simp add: rsaKeyOf_def bytes_nat_bytes)
qed

theorem rsa_key_bytes_witness:
  "\<exists>data. rsaKeyOf \<lparr>RawSubject = [], RawIssuer = [], SerialNumber = 1, PublicKey = RSAKey 3233 17\<rparr>
      = Inr data \<and> bytes_nat (modulus data) = 3233"
  using rsa_key_bytes [of "\<lparr>RawSubject = [], RawIssuer = [], SerialNumber = 1,
    PublicKey = RSAKey 3233 17\<rparr>" 3233 17] by auto

end
