(* ===== verification/Object_Ops.thy ===== *)
theory Object_Ops
  imports Object_Keys
begin

text \<open>
  \<^verbatim>\<open>backend.go\<close>, fourth part: searching for objects and reading their attributes. Every slot
  has three objects, the private key, the public key and the certificate of its signer.
\<close>

section \<open>Search\<close>

definition updateSession :: "uint \<Rightarrow> (session \<Rightarrow> session) \<Rightarrow> ('w, unit) call" where
  "updateSession sh f = updateManager (\<lambda>m. sm_update m sh f)"

definition setFindResult :: "uint \<Rightarrow> Attribute list \<Rightarrow> uint list \<Rightarrow> ('w, unit) call" where
  "setFindResult sh template results =
     updateSession sh (\<lambda>s. s\<lparr>findActive := True, findTemplate := template,
       findResults := results, findPos := 0\<rparr>)"

definition setEmptyFindResult :: "uint \<Rightarrow> Attribute list \<Rightarrow> ('w, unit) call" where
  "setEmptyFindResult sh template = setFindResult sh template []"

text \<open>What the loop over the template collects.\<close>

record findFilter =
  requestedClass :: "uint option"
  requestedID :: "bytes option"
  requestedLabel :: "bytes option"
  requestedSubject :: "bytes option"

text \<open>The class is the first four bytes of the value, least significant first.\<close>

definition classOf :: "bytes \<Rightarrow> uint" where
  "classOf v = ucast (v ! 0) OR push_bit 8 (ucast (v ! 1)) OR push_bit 16 (ucast (v ! 2))
     OR push_bit 24 (ucast (v ! 3))"

definition collectAttr :: "Attribute \<Rightarrow> findFilter \<Rightarrow> findFilter" where
  "collectAttr attr f =
     (if Type attr = CKA_CLASS then
        (case Value attr of
           None \<Rightarrow> f
         | Some v \<Rightarrow> if length v \<ge> 4 then f\<lparr>requestedClass := Some (classOf v)\<rparr> else f)
      else if Type attr = CKA_ID then f\<lparr>requestedID := Value attr\<rparr>
      else if Type attr = CKA_LABEL then f\<lparr>requestedLabel := Value attr\<rparr>
      else if Type attr = CKA_SUBJECT then f\<lparr>requestedSubject := Value attr\<rparr>
      else f)"

definition collectTemplate :: "Attribute list \<Rightarrow> findFilter" where
  "collectTemplate template =
     fold collectAttr template
       \<lparr>requestedClass = None, requestedID = None, requestedLabel = None, requestedSubject = None\<rparr>"

text \<open>The handles by class.\<close>

definition findHandles :: "uint option \<Rightarrow> uint \<Rightarrow> uint list" where
  "findHandles cls slotIdx =
     (case cls of
        Some c \<Rightarrow>
          if c = CKO_PRIVATE_KEY then [makePrivateKeyHandle slotIdx]
          else if c = CKO_CERTIFICATE then [makeCertificateHandle slotIdx]
          else if c = CKO_PUBLIC_KEY then [makePublicKeyHandle slotIdx]
          else []
      | None \<Rightarrow> [makePrivateKeyHandle slotIdx, makePublicKeyHandle slotIdx,
                 makeCertificateHandle slotIdx])"

text \<open>
  The two filters of \<^verbatim>\<open>FindObjectsInit\<close>, each with the answer whether the search goes on:
  by identifier and label, and by the subject of the certificate.
\<close>

definition matchesIDLabel :: "'w services \<Rightarrow> findFilter \<Rightarrow> uint \<Rightarrow> ('w, bool) call" where
  "matchesIDLabel sv f slotIdx =
     (if requestedID f = None \<and> requestedLabel f = None then returnE True
      else bindE (getSignerBySlot sv slotIdx) (\<lambda>signer.
        if (case requestedID f of None \<Rightarrow> False
            | Some i \<Rightarrow> string_of_bytes i \<noteq> truncateTo (ID signer) 20) then returnE False
        else if (case requestedLabel f of None \<Rightarrow> False
                 | Some l \<Rightarrow> string_of_bytes l \<noteq> Name signer) then returnE False
        else returnE True))"

definition matchesSubject :: "'w services \<Rightarrow> findFilter \<Rightarrow> uint \<Rightarrow> ('w, bool) call" where
  "matchesSubject sv f slotIdx =
     (case requestedSubject f of
        None \<Rightarrow> returnE True
      | Some subject \<Rightarrow>
          bindE (getSignerBySlot sv slotIdx) (\<lambda>signer.
            catchE (getCertificate sv (ID signer)) (\<lambda>r.
              case r of
                Inl err \<Rightarrow> returnE False
              | Inr cert \<Rightarrow> returnE (subject = RawSubject cert))))"

definition FindObjectsInit :: "'w services \<Rightarrow> uint \<Rightarrow> Attribute list \<Rightarrow> ('w, unit) call" where
  "FindObjectsInit sv sh template =
     bindE (getSession sh) (\<lambda>sess.
       if findActive sess then throwE ErrFindAlreadyActive
       else
         let f = collectTemplate template; slotIdx = slotID sess
         in bindE (matchesIDLabel sv f slotIdx) (\<lambda>ok.
              if \<not> ok then setEmptyFindResult sh template
              else bindE (matchesSubject sv f slotIdx) (\<lambda>ok.
                if \<not> ok then setEmptyFindResult sh template
                else setFindResult sh template (findHandles (requestedClass f) slotIdx))))"

text \<open>\<^verbatim>\<open>make\<close> panics on a negative count.\<close>

definition FindObjects :: "uint \<Rightarrow> int \<Rightarrow> ('w, uint list) call" where
  "FindObjects sh maxCount =
     bindE (getSession sh) (\<lambda>sess.
       if \<not> findActive sess then throwE ErrFindNotActive
       else
         let remaining = int (length (findResults sess)) - int (findPos sess)
         in if remaining \<le> 0 then returnE []
            else
              let count = (if maxCount > remaining then remaining else maxCount)
              in if count < 0 then panicE
                 else bindE (updateSession sh (\<lambda>s. s\<lparr>findPos := findPos s + nat count\<rparr>)) (\<lambda>_.
                   returnE (take (nat count) (drop (findPos sess) (findResults sess)))))"

definition FindObjectsFinal :: "uint \<Rightarrow> ('w, unit) call" where
  "FindObjectsFinal sh =
     bindE (getSession sh) (\<lambda>_.
       updateSession sh (\<lambda>s. s\<lparr>findActive := False, findResults := [], findPos := 0\<rparr>))"

section \<open>Attributes\<close>

definition isKey :: "uint \<Rightarrow> bool" where
  "isKey objType \<longleftrightarrow> objType = objPrivateKey \<or> objType = objPublicKey"

text \<open>
  The three shapes of the attribute cases that need the certificate: a part of an RSA key, a
  part of an EC key, a field of the certificate. Where the object has no such attribute or
  the data cannot be had, the value is empty.
\<close>

definition rsaAttr ::
  "'w services \<Rightarrow> signerResponse \<Rightarrow> uint \<Rightarrow> attr_value \<Rightarrow> (rsaKeyData \<Rightarrow> attr_value) \<Rightarrow> ('w, attr_value) call"
where
  "rsaAttr sv signer objType absent f =
     (if isKey objType \<and> getKeyType signer = CKK_RSA then
        catchE (getPublicKeyData sv (ID signer)) (\<lambda>r.
          case r of Inr pk \<Rightarrow> returnE (f pk) | Inl err \<Rightarrow> returnE absent)
      else returnE absent)"

definition ecAttr ::
  "'w services \<Rightarrow> signerResponse \<Rightarrow> uint \<Rightarrow> (ecKeyData \<Rightarrow> bytes) \<Rightarrow> ('w, attr_value) call" where
  "ecAttr sv signer objType f =
     (if isKey objType \<and> getKeyType signer = CKK_EC then
        catchE (getECPublicKeyData sv (ID signer)) (\<lambda>r.
          case r of Inr ec \<Rightarrow> returnE (VBytes (f ec)) | Inl err \<Rightarrow> returnE (VBytes []))
      else returnE (VBytes []))"

definition certAttr ::
  "'w services \<Rightarrow> signerResponse \<Rightarrow> uint \<Rightarrow> (certificate \<Rightarrow> bytes) \<Rightarrow> ('w, attr_value) call" where
  "certAttr sv signer objType f =
     (if objType = objCertificate then
        catchE (getCertificate sv (ID signer)) (\<lambda>r.
          case r of Inr cert \<Rightarrow> returnE (VBytes (f cert)) | Inl err \<Rightarrow> returnE (VBytes []))
      else returnE (VBytes []))"

definition falseAttributes :: "uint list" where
  "falseAttributes = [CKA_ENCRYPT, CKA_DECRYPT, CKA_WRAP, CKA_UNWRAP, CKA_VERIFY_RECOVER,
     CKA_SIGN_RECOVER, CKA_DERIVE, CKA_TRUSTED, CKA_WRAP_WITH_TRUSTED, CKA_LOCAL]"

definition classValue :: "uint \<Rightarrow> attr_value" where
  "classValue objType =
     (if objType = objPrivateKey then VUint CKO_PRIVATE_KEY
      else if objType = objPublicKey then VUint CKO_PUBLIC_KEY
      else if objType = objCertificate then VUint CKO_CERTIFICATE
      else VBytes [])"

text \<open>The switch over the type of one template attribute.\<close>

definition attributeValue ::
  "'w services \<Rightarrow> signerResponse \<Rightarrow> uint \<Rightarrow> uint \<Rightarrow> ('w, attr_value) call" where
  "attributeValue sv signer objType ty =
     (if ty = CKA_CLASS then returnE (classValue objType)
      else if ty = CKA_TOKEN then returnE (VBool True)
      else if ty = CKA_PRIVATE then returnE (VBool (objType = objPrivateKey))
      else if ty = CKA_SENSITIVE then returnE (VBool (objType = objPrivateKey))
      else if ty = CKA_EXTRACTABLE then returnE (VBool False)
      else if ty = CKA_ALWAYS_AUTHENTICATE then returnE (VBool False)
      else if ty = CKA_LABEL then returnE (VBytes (bytes_of_string (Name signer)))
      else if ty = CKA_ID then returnE (VBytes (bytes_of_string (truncateTo (ID signer) 20)))
      else if ty = CKA_SIGN then returnE (VBool (objType = objPrivateKey))
      else if ty = CKA_KEY_TYPE then returnE (VUint (getKeyType signer))
      else if ty = CKA_MODULUS then rsaAttr sv signer objType (VBytes []) (\<lambda>pk. VBytes (modulus pk))
      else if ty = CKA_PUBLIC_EXPONENT then
        rsaAttr sv signer objType (VBytes []) (\<lambda>pk. VBytes (exponent pk))
      else if ty = CKA_MODULUS_BITS then
        rsaAttr sv signer objType (VUint 0) (\<lambda>pk. VUint (of_nat (length (modulus pk) * 8)))
      else if ty = CKA_VALUE then
        (if objType = objCertificate then
           catchE (getCertificateData sv (ID signer)) (\<lambda>r.
             case r of Inl err \<Rightarrow> returnE (VBytes []) | Inr certData \<Rightarrow> returnE (VBytes certData))
         else returnE (VBytes []))
      else if ty = CKA_CERTIFICATE_TYPE then
        returnE (if objType = objCertificate then VUint CKC_X_509 else VBytes [])
      else if ty = CKA_VERIFY then returnE (VBool (objType = objPublicKey))
      else if List.member falseAttributes ty then returnE (VBool False)
      else if ty = CKA_NEVER_EXTRACTABLE then returnE (VBool (objType = objPrivateKey))
      else if ty = CKA_ALWAYS_SENSITIVE then returnE (VBool (objType = objPrivateKey))
      else if ty = CKA_EC_PARAMS then ecAttr sv signer objType ecParams
      else if ty = CKA_EC_POINT then ecAttr sv signer objType ecPoint
      else if ty = CKA_SUBJECT then certAttr sv signer objType RawSubject
      else if ty = CKA_ISSUER then certAttr sv signer objType RawIssuer
      else if ty = CKA_SERIAL_NUMBER then
        certAttr sv signer objType (\<lambda>cert. nat_bytes (nat \<bar>SerialNumber cert\<bar>))
      else returnE (VBytes []))"

definition newAttribute :: "'w services \<Rightarrow> uint \<Rightarrow> attr_value \<Rightarrow> Attribute" where
  "newAttribute sv ty v = \<lparr>Type = ty, Value = Some (sv_attribute sv v)\<rparr>"

fun attributeLoop ::
  "'w services \<Rightarrow> signerResponse \<Rightarrow> uint \<Rightarrow> Attribute list \<Rightarrow> ('w, Attribute list) call" where
  "attributeLoop sv signer objType [] = returnE []"
| "attributeLoop sv signer objType (attr # template) =
     bindE (attributeValue sv signer objType (Type attr)) (\<lambda>v.
     bindE (attributeLoop sv signer objType template) (\<lambda>rest.
       returnE (newAttribute sv (Type attr) v # rest)))"

definition GetAttributeValue ::
  "'w services \<Rightarrow> uint \<Rightarrow> uint \<Rightarrow> Attribute list \<Rightarrow> ('w, Attribute list) call" where
  "GetAttributeValue sv sh obj template =
     bindE (getSession sh) (\<lambda>_.
       case parseObjectHandle obj of
         (objType, slotIdx) \<Rightarrow>
           bindE (getSignerBySlot sv slotIdx) (\<lambda>signer. attributeLoop sv signer objType template))"

section \<open>Operations on one session\<close>

text \<open>
  What an operation on the session \<open>sh\<close> may change: the fields of that session other than its
  slot and login. All other sessions and the rest of the core stay.
\<close>

definition touches :: "uint \<Rightarrow> 'w backend \<Rightarrow> 'w backend \<Rightarrow> bool" where
  "touches sh s t \<longleftrightarrow>
     initialized t = initialized s \<and> config t = config s
     \<and> httpClient (client t) = httpClient (client s)
     \<and> nextID (manager t) = nextID (manager s)
     \<and> (\<forall>h. h \<noteq> sh \<longrightarrow> sm_get (manager t) h = sm_get (manager s) h)
     \<and> map_option slotID (sm_get (manager t) sh) = map_option slotID (sm_get (manager s) sh)
     \<and> map_option loggedIn (sm_get (manager t) sh) = map_option loggedIn (sm_get (manager s) sh)"

interpretation touching: frame_relation "touches sh" for sh
  by unfold_locales (auto simp: touches_def)

lemma touches_core: "same_core s t \<Longrightarrow> touches sh s t"
  by (simp add: touches_def same_core_def)

lemma keeps_touches: "keeps same_core f \<Longrightarrow> keeps (touches sh) f"
  by (auto simp: keeps_def intro: touches_core)

lemma touches_updateSession [preserves]:
  "(\<And>x. slotID (f x) = slotID x \<and> loggedIn (f x) = loggedIn x) \<Longrightarrow>
   keeps (touches sh) (updateSession sh f)"
  by (auto simp: keeps_def updateSession_def touches_def sm_defs option.map_comp comp_def)

section \<open>What the operations leave alone\<close>

lemma core_matches [preserves]:
  "keeps same_core (matchesIDLabel sv f i)" "keeps same_core (matchesSubject sv f i)"
  unfolding matchesIDLabel_def matchesSubject_def by (intro preserves)+

lemma touches_find [preserves]:
  "keeps (touches sh) (setFindResult sh template results)"
  "keeps (touches sh) (setEmptyFindResult sh template)"
  unfolding setFindResult_def setEmptyFindResult_def by (intro preserves; simp)+

lemmas touches_queries [preserves] =
  core_getSession(1) [THEN keeps_touches] core_matches [THEN keeps_touches]

lemma touches_FindObjects [preserves]:
  "keeps (touches sh) (FindObjectsInit sv sh template)" "keeps (touches sh) (FindObjects sh n)"
  "keeps (touches sh) (FindObjectsFinal sh)"
  unfolding FindObjectsInit_def FindObjects_def FindObjectsFinal_def Let_def
  by (intro preserves; simp)+

lemma core_attributes [preserves]:
  "keeps same_core (rsaAttr sv sg o' a f)" "keeps same_core (ecAttr sv sg o' g)"
  "keeps same_core (certAttr sv sg o' h)"
  unfolding rsaAttr_def ecAttr_def certAttr_def by (intro preserves)+

lemma core_attributeValue [preserves]: "keeps same_core (attributeValue sv sg o' ty)"
  unfolding attributeValue_def by (intro preserves)

lemma core_attributeLoop [preserves]: "keeps same_core (attributeLoop sv sg o' template)"
  by (induction template) (unfold attributeLoop.simps, (intro preserves | assumption)+)

lemma core_GetAttributeValue [preserves]: "keeps same_core (GetAttributeValue sv sh obj template)"
  unfolding GetAttributeValue_def by (intro preserves)

context observed_services
begin

lemma reads_find [preserves]:
  "keeps (sends log reading) (FindObjectsInit sv sh template)"
  "keeps (sends log reading) (FindObjects sh n)" "keeps (sends log reading) (FindObjectsFinal sh)"
  unfolding FindObjectsInit_def FindObjects_def FindObjectsFinal_def matchesIDLabel_def
    matchesSubject_def setEmptyFindResult_def setFindResult_def updateSession_def Let_def
  by (intro preserves)+

lemma reads_attributeValue [preserves]:
  "keeps (sends log reading) (attributeValue sv sg o' ty)"
  unfolding attributeValue_def rsaAttr_def ecAttr_def certAttr_def by (intro preserves)

lemma reads_attributeLoop [preserves]:
  "keeps (sends log reading) (attributeLoop sv sg o' template)"
  by (induction template) (unfold attributeLoop.simps, (intro preserves | assumption)+)

lemma reads_GetAttributeValue [preserves]:
  "keeps (sends log reading) (GetAttributeValue sv sh obj template)"
  unfolding GetAttributeValue_def by (intro preserves)

end

section \<open>Panics\<close>

lemma safe_updateSession [safety]: "safe (updateSession sh f)"
  by (simp add: updateSession_def safety)

lemma safe_FindObjectsInit [safety]: "safe (FindObjectsInit sv sh template)"
  unfolding FindObjectsInit_def matchesIDLabel_def matchesSubject_def setEmptyFindResult_def
    setFindResult_def Let_def
  by (intro safety)

lemma safe_FindObjectsFinal [safety]: "safe (FindObjectsFinal sh)"
  unfolding FindObjectsFinal_def by (intro safety)

lemma safe_FindObjects: "0 \<le> n \<Longrightarrow> safe (FindObjects sh n)"
  by (auto simp: safe_def FindObjects_def bind_getSession updateSession_def bindE_Inr Let_def
      split: option.splits)

lemma safe_bind_result:
  assumes "safe f" "\<And>s x t. f s = Returns (Inr x, t) \<Longrightarrow> safe (g x)"
  shows "safe (bindE f g)"
  unfolding safe_def
proof
  fix s
  obtain r t where "f s = Returns (r, t)" using safeD [OF assms(1)] by blast
  then show "bindE f g s \<noteq> Panics"
    using assms(2) by (cases r) (auto simp: bindE_Inl bindE_Inr safe_def)
qed

lemma getCertificate_parsed:
  "getCertificate sv i s = Returns (Inr cert, t) \<Longrightarrow> \<exists>der. sv_parse_certificate sv der = Some cert"
  by (auto simp: getCertificate_def elim!: bindE_InrE split: option.splits)

lemma safe_liftO: "r \<noteq> Panics \<Longrightarrow> safe (liftO r)"
  by (cases r) (auto simp: liftO_def safety)

lemma safe_getECPublicKeyData:
  assumes "points_on_curve sv"
  shows "safe (getECPublicKeyData sv i)"
proof -
  have key: "safe (bindE (getCertificate sv i) (\<lambda>cert. liftO (ecKeyOf cert)))"
  proof (rule safe_bind_result [OF safe_getCertificate])
    fix s cert t
    assume "getCertificate sv i s = Returns (Inr cert, t)"
    then obtain der where "sv_parse_certificate sv der = Some cert"
      using getCertificate_parsed by blast
    then have "coordinates_fit cert"
      using assms by (auto simp: points_on_curve_def split: option.splits dest: spec [of _ der])
    then show "safe (liftO (ecKeyOf cert))" by (intro safe_liftO ecKeyOf_safe)
  qed
  have step: "safe (bindE (getCertificate sv i) (\<lambda>cert. bindE (liftO (ecKeyOf cert)) k))"
    if "\<And>d. safe (k d)" for k :: "ecKeyData \<Rightarrow> ('a, ecKeyData) call"
    using safe_bind [OF key that] by (simp add: bindE_assoc)
  show ?thesis
    unfolding getECPublicKeyData_def by (intro step safety)
qed

lemma safe_GetAttributeValue:
  assumes "points_on_curve sv"
  shows "safe (GetAttributeValue sv sh obj template)"
proof -
  have "safe (attributeValue sv sg o' ty)" for sg o' ty
    unfolding attributeValue_def rsaAttr_def ecAttr_def certAttr_def
    by (intro safety safe_getECPublicKeyData [OF assms])
  note value_safe = this
  have "safe (attributeLoop sv sg o' ts)" for sg o' ts
    by (induction ts) (unfold attributeLoop.simps, (intro value_safe safety | assumption)+)
  then show ?thesis
    unfolding GetAttributeValue_def by (intro safety)
qed

section \<open>How a search runs\<close>

lemma sm_get_update: "sm_get (sm_update m sh f) h = (if h = sh then map_option f (sm_get m sh) else sm_get m h)"
  by (rule sess.lookup_modify)

lemma nextID_update [simp]: "nextID (sm_update m sh f) = nextID m"
  by (simp add: sm_update_def)

lemma setFindResult_run:
  "setFindResult sh template results s = Returns (Inr (), s\<lparr>manager := sm_update (manager s) sh
     (\<lambda>x. x\<lparr>findActive := True, findTemplate := template, findResults := results, findPos := 0\<rparr>)\<rparr>)"
  by (simp add: setFindResult_def updateSession_def)

lemma FindObjects_run:
  assumes "sm_get (manager s) sh = Some x" "findActive x" "findPos x \<le> length (findResults x)" "0 \<le> n"
  shows "\<exists>t. FindObjects sh n s = Returns (Inr (take (nat n) (drop (findPos x) (findResults x))), t)
    \<and> sm_get (manager t) sh = Some (x\<lparr>findPos :=
        min (length (findResults x)) (findPos x + nat n)\<rparr>)"
proof (cases "findPos x = length (findResults x)")
  case True
  with assms show ?thesis by (simp add: FindObjects_def bind_getSession)
next
  case False
  let ?rem = "int (length (findResults x)) - int (findPos x)"
  let ?count = "if n > ?rem then ?rem else n"
  from False assms(3) have pos: "0 < ?rem" by simp
  have run: "FindObjects sh n s = Returns (Inr (take (nat ?count) (drop (findPos x) (findResults x))),
      s\<lparr>manager := sm_update (manager s) sh (\<lambda>s. s\<lparr>findPos := findPos s + nat ?count\<rparr>)\<rparr>)"
    using assms pos by (auto simp: FindObjects_def bind_getSession updateSession_def bindE_Inr Let_def)
  have taken: "take (nat ?count) (drop (findPos x) (findResults x))
      = take (nat n) (drop (findPos x) (findResults x))"
    using pos by (auto simp: min_def)
  have "findPos x + nat ?count = min (length (findResults x)) (findPos x + nat n)"
    using pos assms(4) by auto
  with run taken assms(1) show ?thesis by (simp add: sm_get_update)
qed

text \<open>A client reading a search: one call per entry of \<open>ns\<close>, the maximal counts.\<close>

fun searchAll :: "uint \<Rightarrow> int list \<Rightarrow> ('w, uint list list) call" where
  "searchAll sh [] = returnE []"
| "searchAll sh (n # ns) =
     bindE (FindObjects sh n) (\<lambda>found.
     bindE (searchAll sh ns) (\<lambda>rest. returnE (found # rest)))"

lemma searchAll_run:
  assumes "sm_get (manager s) sh = Some x" "findActive x" "findPos x \<le> length (findResults x)"
    "\<forall>n \<in> set ns. 0 \<le> n"
  shows "\<exists>found t. searchAll sh ns s = Returns (Inr found, t)
    \<and> concat found = take (sum_list (map nat ns)) (drop (findPos x) (findResults x))
    \<and> list_all2 (\<lambda>f n. int (length f) \<le> n) found ns"
  using assms
proof (induction ns arbitrary: s x)
  case (Cons n ns)
  then obtain t where t:
    "FindObjects sh n s = Returns (Inr (take (nat n) (drop (findPos x) (findResults x))), t)"
    "sm_get (manager t) sh = Some (x\<lparr>findPos := min (length (findResults x)) (findPos x + nat n)\<rparr>)"
    using FindObjects_run by (metis list.set_intros(1))
  obtain found u where u: "searchAll sh ns t = Returns (Inr found, u)"
    "concat found = take (sum_list (map nat ns))
       (drop (min (length (findResults x)) (findPos x + nat n)) (findResults x))"
    "list_all2 (\<lambda>f n. int (length f) \<le> n) found ns"
    using Cons.IH [OF t(2)] Cons.prems by auto
  have "drop (min (length (findResults x)) (findPos x + nat n)) (findResults x)
      = drop (nat n) (drop (findPos x) (findResults x))"
    by (simp add: min_def add.commute)
  with u(2) have "take (nat n) (drop (findPos x) (findResults x)) @ concat found
      = take (nat n + sum_list (map nat ns)) (drop (findPos x) (findResults x))"
    by (simp add: take_add)
  with t(1) u Cons.prems(4) show ?case by (auto simp: bindE_Inr)
qed simp

section \<open>How attributes are read\<close>

lemma attributeLoop_all2:
  "attributeLoop sv sg o' template s = Returns (Inr result, t) \<Longrightarrow>
   list_all2 (\<lambda>a r. \<exists>v s1 s2. attributeValue sv sg o' (Type a) s1 = Returns (Inr v, s2)
     \<and> r = newAttribute sv (Type a) v) template result"
  by (induction template arbitrary: s result) (fastforce elim!: bindE_InrE)+

lemma GetAttributeValue_all2:
  assumes "GetAttributeValue sv sh obj template s = Returns (Inr result, t)"
  shows "\<exists>signer. list_all2 (\<lambda>a r. \<exists>v s1 s2.
      attributeValue sv signer (fst (parseObjectHandle obj)) (Type a) s1 = Returns (Inr v, s2)
      \<and> r = newAttribute sv (Type a) v) template result"
proof -
  obtain o' i where "parseObjectHandle obj = (o', i)" by fastforce
  with assms obtain signer s1 where "attributeLoop sv signer o' template s1 = Returns (Inr result, t)"
    by (auto simp: GetAttributeValue_def bind_getSession elim!: bindE_InrE split: option.splits)
  with attributeLoop_all2 \<open>parseObjectHandle obj = _\<close> show ?thesis by fastforce
qed

section \<open>The types of attributes\<close>

text \<open>
  PKCS#11 gives every attribute a type: a \<^verbatim>\<open>CK_BBOOL\<close>, a \<^verbatim>\<open>CK_ULONG\<close>, or an array of bytes. A
  number the object does not have is an empty value.
\<close>

definition booleanAttributes :: "uint list" where
  "booleanAttributes =
     [CKA_TOKEN, CKA_PRIVATE, CKA_SENSITIVE, CKA_EXTRACTABLE, CKA_ALWAYS_AUTHENTICATE, CKA_SIGN,
      CKA_VERIFY, CKA_NEVER_EXTRACTABLE, CKA_ALWAYS_SENSITIVE] @ falseAttributes"

definition numberAttributes :: "uint list" where
  "numberAttributes = [CKA_CLASS, CKA_KEY_TYPE, CKA_CERTIFICATE_TYPE, CKA_MODULUS_BITS]"

definition attribute_typed :: "uint \<Rightarrow> attr_value \<Rightarrow> bool" where
  "attribute_typed ty v =
     (case v of
        VBool b \<Rightarrow> ty \<in> set booleanAttributes
      | VUint n \<Rightarrow> ty \<in> set numberAttributes
      | VBytes b \<Rightarrow> ty \<notin> set booleanAttributes \<and> (ty \<in> set numberAttributes \<longrightarrow> b = []))"

lemma attr_results:
  "rsaAttr sv sg o' a f s = Returns (Inr v, t) \<Longrightarrow> v = a \<or> (\<exists>pk. v = f pk)"
  "ecAttr sv sg o' g s = Returns (Inr v, t) \<Longrightarrow> \<exists>b. v = VBytes b"
  "certAttr sv sg o' h s = Returns (Inr v, t) \<Longrightarrow> \<exists>b. v = VBytes b"
  by (auto simp: rsaAttr_def ecAttr_def certAttr_def split: if_splits sum.splits
      elim!: catchE_ReturnsE)

lemma attribute_typed_intros:
  "ty \<in> set booleanAttributes \<Longrightarrow> attribute_typed ty (VBool b)"
  "ty \<in> set numberAttributes \<Longrightarrow> attribute_typed ty (VUint n)"
  "ty \<notin> set booleanAttributes \<Longrightarrow> attribute_typed ty (VBytes [])"
  "ty \<notin> set booleanAttributes \<Longrightarrow> ty \<notin> set numberAttributes \<Longrightarrow> attribute_typed ty (VBytes bs)"
  by (simp_all add: attribute_typed_def)

lemma number_attributes: "\<forall>ty \<in> set numberAttributes. ty \<notin> set booleanAttributes"
  by (simp add: booleanAttributes_def numberAttributes_def falseAttributes_def const_vals)

lemma attributeValue_number:
  "attributeValue sv sg o' CKA_CLASS = returnE (classValue o')"
  "attributeValue sv sg o' CKA_KEY_TYPE = returnE (VUint (getKeyType sg))"
  "attributeValue sv sg o' CKA_CERTIFICATE_TYPE
    = returnE (if o' = objCertificate then VUint CKC_X_509 else VBytes [])"
  "attributeValue sv sg o' CKA_MODULUS_BITS
    = rsaAttr sv sg o' (VUint 0) (\<lambda>pk. VUint (of_nat (length (modulus pk) * 8)))"
  by (simp_all add: attributeValue_def falseAttributes_def const_vals)

lemma attributeValue_boolean:
  "\<forall>ty \<in> set booleanAttributes. attributeValue sv sg o' ty = returnE (VBool
     (if ty \<in> set [CKA_PRIVATE, CKA_SENSITIVE, CKA_SIGN, CKA_NEVER_EXTRACTABLE, CKA_ALWAYS_SENSITIVE]
      then o' = objPrivateKey else if ty = CKA_VERIFY then o' = objPublicKey else ty = CKA_TOKEN))"
  by (simp add: booleanAttributes_def falseAttributes_def attributeValue_def const_vals)

lemma attributeValue_bytes:
  assumes "attributeValue sv sg o' ty s = Returns (Inr v, t)"
    "ty \<notin> set booleanAttributes" "ty \<notin> set numberAttributes"
  shows "\<exists>b. v = VBytes b"
  using assms
  by (auto simp: attributeValue_def booleanAttributes_def numberAttributes_def split: if_split_asm
      sum.splits dest!: attr_results elim!: catchE_ReturnsE)

lemma attributeValue_typed:
  assumes "attributeValue sv sg o' ty s = Returns (Inr v, t)"
  shows "attribute_typed ty v"
proof -
  consider "ty \<in> set booleanAttributes" | "ty \<in> set numberAttributes"
    | "ty \<notin> set booleanAttributes" "ty \<notin> set numberAttributes" by blast
  then show ?thesis
  proof cases
    case 1
    with assms show ?thesis
      by (auto simp: bspec [OF attributeValue_boolean] intro: attribute_typed_intros)
  next
    case 2
    then have "(\<exists>n. v = VUint n) \<or> v = VBytes []"
      using assms
      by (auto simp: numberAttributes_def attributeValue_number classValue_def split: if_splits
          dest!: attr_results(1))
    with 2 number_attributes show ?thesis by (auto intro: attribute_typed_intros)
  next
    case 3
    with attributeValue_bytes [OF assms] show ?thesis by (auto intro: attribute_typed_intros)
  qed
qed

section \<open>Properties\<close>

text \<open>
  C26: a client that reads an active search with any sequence of maximal counts gets the found
  handles in order, none twice and none skipped, and in each call at most as many as it
  asked for; with counts that add up to at least the number found it gets them all.
\<close>

theorem search_enumerates:
  assumes "sm_get (manager s) sh = Some x" "findActive x" "findPos x = 0" "\<forall>n \<in> set ns. 0 \<le> n"
  shows "\<exists>found t. searchAll sh ns s = Returns (Inr found, t)
    \<and> concat found = take (sum_list (map nat ns)) (findResults x)
    \<and> list_all2 (\<lambda>f n. int (length f) \<le> n) found ns"
  using searchAll_run [of s sh x ns] assms by simp

definition search_session :: session where
  "search_session = (new_session 0)\<lparr>findActive := True, findResults := findHandles None 0\<rparr>"

definition search_state :: "nat backend" where
  "search_state = (example_state 1)\<lparr>manager := \<lparr>sessions = [1 \<mapsto> search_session], nextID = 2\<rparr>\<rparr>"

theorem search_enumerates_witness:
  "\<exists>found t. searchAll 1 [2, 0, 5] search_state = Returns (Inr found, t)
    \<and> concat found = findHandles None 0"
proof -
  have "sm_get (manager search_state) 1 = Some search_session"
    by (simp add: search_state_def sm_get_def)
  from search_enumerates [OF this, of "[2, 0, 5]"] obtain found t where
    "searchAll 1 [2, 0, 5] search_state = Returns (Inr found, t)"
    "concat found = take 7 (findResults search_session)"
    by (auto simp: search_session_def new_session_def)
  then show ?thesis by (auto simp: search_session_def findHandles_def)
qed

definition le_bytes :: "uint \<Rightarrow> bytes" where
  "le_bytes c = map (\<lambda>i. ucast (drop_bit (8 * i) c)) [0..<8]"

lemma classOf_bytes: "classOf (le_bytes c) = take_bit 32 c"
proof -
  have bits: "bit (classOf (le_bytes c)) n = (n < 32 \<and> bit c n)" if "n < 64" for n
    using that by (cases "n < 24"; cases "n < 16")
      (auto simp: classOf_def le_bytes_def bit_simps upt_rec)
  show ?thesis by (rule bit_word_eqI) (use bits in \<open>auto simp: bit_simps\<close>)
qed

lemma classOf_le_bytes: "c < 2 ^ 32 \<Longrightarrow> classOf (le_bytes c) = c"
  by (simp add: classOf_bytes take_bit_eq_mask less_mask_eq)

lemma collect_irrelevant:
  "\<forall>a \<in> set as. Type a \<notin> {CKA_CLASS, CKA_ID, CKA_LABEL, CKA_SUBJECT} \<Longrightarrow> fold collectAttr as f = f"
  by (induction as) (auto simp: collectAttr_def)

text \<open>
  C32: a search whose template names an object class, as an eight byte little-endian number,
  and sets no other filter goes by the low 32 bits of that number alone. When they are one of
  the three classes, it finds exactly one object, whose handle leads back to the session's slot
  and to an object that reports the class of those low bits; otherwise it finds nothing. The
  slot has to fit the 28 bits a handle has for it. So a number of no class at all, such as
  \<open>2 ^ 32 + 3\<close>, finds the private key.
\<close>

theorem class_search:
  assumes "sm_get (manager s) sh = Some x" "\<not> findActive x" "slotID x < 2 ^ 28"
    "\<forall>a \<in> set (pre @ post). Type a \<notin> {CKA_CLASS, CKA_ID, CKA_LABEL, CKA_SUBJECT}"
  shows "\<exists>t y. FindObjectsInit sv sh (pre @ \<lparr>Type = CKA_CLASS, Value = Some (le_bytes c)\<rparr> # post) s
        = Returns (Inr (), t)
    \<and> sm_get (manager t) sh = Some y \<and> findActive y \<and> findPos y = 0
    \<and> (if take_bit 32 c \<in> {CKO_PRIVATE_KEY, CKO_CERTIFICATE, CKO_PUBLIC_KEY}
       then \<exists>h ty. findResults y = [h] \<and> parseObjectHandle h = (ty, slotID x)
         \<and> classValue ty = VUint (take_bit 32 c)
       else findResults y = [])"
proof -
  let ?template = "pre @ \<lparr>Type = CKA_CLASS, Value = Some (le_bytes c)\<rparr> # post"
  have "8 \<le> length (le_bytes c)" by (simp add: le_bytes_def)
  then have f: "collectTemplate ?template = \<lparr>requestedClass = Some (take_bit 32 c), requestedID = None,
      requestedLabel = None, requestedSubject = None\<rparr>"
    using assms(4) by (simp add: collectTemplate_def collect_irrelevant)
      (simp add: collectAttr_def classOf_bytes)
  have "FindObjectsInit sv sh ?template s
      = setFindResult sh ?template (findHandles (Some (take_bit 32 c)) (slotID x)) s"
    using assms(1,2) f
    by (simp add: FindObjectsInit_def bind_getSession matchesIDLabel_def matchesSubject_def Let_def)
  then show ?thesis
    using assms(1,3) parse_make [OF assms(3)]
    by (auto simp: setFindResult_run sm_get_update findHandles_def classValue_def const_vals)
qed

theorem class_search_witness:
  "\<exists>t y. FindObjectsInit (example_services ok_server) 1
        [\<lparr>Type = CKA_TOKEN, Value = Some [1]\<rparr>, \<lparr>Type = CKA_CLASS, Value = Some (le_bytes 4294967299)\<rparr>]
        ((example_state 1)\<lparr>manager := \<lparr>sessions = [1 \<mapsto> new_session 1], nextID = 2\<rparr>\<rparr>)
      = Returns (Inr (), t)
    \<and> sm_get (manager t) 1 = Some y
    \<and> (\<exists>h ty. findResults y = [h] \<and> parseObjectHandle h = (ty, 1) \<and> classValue ty = VUint CKO_PRIVATE_KEY)"
proof -
  have low: "take_bit 32 4294967299 = CKO_PRIVATE_KEY" by (simp add: const_vals take_bit_numeral_bit1)
  show ?thesis
    using class_search [of "(example_state 1)\<lparr>manager := \<lparr>sessions = [1 \<mapsto> new_session 1], nextID = 2\<rparr>\<rparr>"
        1 "new_session 1" "[\<lparr>Type = CKA_TOKEN, Value = Some [1]\<rparr>]" "[]" "example_services ok_server" 4294967299]
    unfolding low
    by (auto simp: sm_get_def new_session_def const_vals word_less_nat_alt)
qed

text \<open>
  C36: every attribute of the template produces exactly one attribute of the result, in the
  order of the template, with its type and a value of the kind the type calls for: a boolean,
  a number (or nothing, where the object has no such number), or bytes. Reading attributes
  changes no session and no configuration.
\<close>

theorem attributes_match_template:
  assumes "GetAttributeValue sv sh obj template s = Returns (Inr result, t)"
  shows "list_all2 (\<lambda>a r. Type r = Type a \<and>
        (\<exists>v. Value r = Some (sv_attribute sv v) \<and> attribute_typed (Type a) v)) template result
    \<and> manager t = manager s \<and> config t = config s"
proof -
  obtain signer where "list_all2 (\<lambda>a r. \<exists>v s1 s2.
      attributeValue sv signer (fst (parseObjectHandle obj)) (Type a) s1 = Returns (Inr v, s2)
      \<and> r = newAttribute sv (Type a) v) template result"
    using GetAttributeValue_all2 [OF assms] by blast
  then have "list_all2 (\<lambda>a r. Type r = Type a \<and>
        (\<exists>v. Value r = Some (sv_attribute sv v) \<and> attribute_typed (Type a) v)) template result"
    by (rule list_all2_mono) (auto simp: newAttribute_def dest: attributeValue_typed)
  with keepsD [OF core_GetAttributeValue assms] show ?thesis by (simp add: same_core_def)
qed

text \<open>
  The attributes that describe how a private key may be used: it signs, it is sensitive, it
  was never and is not extractable, and it has no value.
\<close>

definition privateKeyPolicy :: "uint \<Rightarrow> attr_value option" where
  "privateKeyPolicy = map_of
     [(CKA_CLASS, VUint CKO_PRIVATE_KEY), (CKA_PRIVATE, VBool True), (CKA_SENSITIVE, VBool True),
      (CKA_ALWAYS_SENSITIVE, VBool True), (CKA_EXTRACTABLE, VBool False),
      (CKA_NEVER_EXTRACTABLE, VBool True), (CKA_VALUE, VBytes []), (CKA_SIGN, VBool True),
      (CKA_VERIFY, VBool False), (CKA_DECRYPT, VBool False), (CKA_UNWRAP, VBool False),
      (CKA_DERIVE, VBool False)]"

text \<open>
  C19: a private key object always reports this policy: no answer of the server and no state
  of the caches makes a key extractable, gives it a value or a use other than signing.
\<close>

theorem private_key_policy:
  assumes "GetAttributeValue sv sh obj template s = Returns (Inr result, t)"
    "fst (parseObjectHandle obj) = objPrivateKey" "r \<in> set result"
    "privateKeyPolicy (Type r) = Some v"
  shows "Value r = Some (sv_attribute sv v)"
proof -
  obtain signer where "list_all2 (\<lambda>a r. \<exists>v s1 s2.
      attributeValue sv signer objPrivateKey (Type a) s1 = Returns (Inr v, s2)
      \<and> r = newAttribute sv (Type a) v) template result"
    using GetAttributeValue_all2 [OF assms(1)] assms(2) by auto
  then obtain w s1 s2 where w: "attributeValue sv signer objPrivateKey (Type r) s1 = Returns (Inr w, s2)"
    "r = newAttribute sv (Type r) w"
    using assms(3) by (auto simp: list_all2_conv_all_nth in_set_conv_nth newAttribute_def)
  have "attributeValue sv signer objPrivateKey (Type r) = returnE v"
    using assms(4)
    by (auto simp: privateKeyPolicy_def attributeValue_def classValue_def falseAttributes_def
        const_vals split: if_splits)
  with w show ?thesis by (simp add: newAttribute_def) (metis Attribute.select_convs(2))
qed

definition policy_state :: "nat backend" where
  "policy_state = (example_state 1)\<lparr>manager := \<lparr>sessions = [1 \<mapsto> new_session 0], nextID = 2\<rparr>\<rparr>"

lemma example_attributes:
  "\<exists>t. GetAttributeValue (example_services ok_server) 1 (makePrivateKeyHandle 0)
      [\<lparr>Type = CKA_EXTRACTABLE, Value = None\<rparr>, \<lparr>Type = CKA_LABEL, Value = None\<rparr>] policy_state
    = Returns (Inr [\<lparr>Type = CKA_EXTRACTABLE, Value = Some [0]\<rparr>,
        \<lparr>Type = CKA_LABEL, Value = Some (bytes_of_string ''release'')\<rparr>], t)"
  by (simp add: GetAttributeValue_def getSession_run policy_state_def sm_get_def parse_make
      attributeValue_def newAttribute_def const_vals fetch_defs example_run_defs ok_server_def
      ListSigners_def newSignerCache_def cache_defs seconds_exact attribute_bytes_def rsa_signer_def)

theorem attributes_match_template_witness:
  "\<exists>result t. GetAttributeValue (example_services ok_server) 1 (makePrivateKeyHandle 0)
      [\<lparr>Type = CKA_EXTRACTABLE, Value = None\<rparr>, \<lparr>Type = CKA_LABEL, Value = None\<rparr>] policy_state
      = Returns (Inr result, t) \<and> map Type result = [CKA_EXTRACTABLE, CKA_LABEL]"
proof -
  obtain result t where run: "GetAttributeValue (example_services ok_server) 1 (makePrivateKeyHandle 0)
      [\<lparr>Type = CKA_EXTRACTABLE, Value = None\<rparr>, \<lparr>Type = CKA_LABEL, Value = None\<rparr>] policy_state
      = Returns (Inr result, t)" using example_attributes by blast
  from attributes_match_template [OF this] have "map Type result = [CKA_EXTRACTABLE, CKA_LABEL]"
    by (auto simp: list_all2_Cons1)
  with run show ?thesis by (intro exI conjI)
qed
theorem private_key_policy_witness:
  "\<exists>result t. GetAttributeValue (example_services ok_server) 1 (makePrivateKeyHandle 0)
      [\<lparr>Type = CKA_EXTRACTABLE, Value = None\<rparr>, \<lparr>Type = CKA_LABEL, Value = None\<rparr>] policy_state
      = Returns (Inr result, t)
    \<and> Value (hd result) = Some (sv_attribute (example_services ok_server) (VBool False))"
proof -
  obtain t where t: "GetAttributeValue (example_services ok_server) 1 (makePrivateKeyHandle 0)
      [\<lparr>Type = CKA_EXTRACTABLE, Value = None\<rparr>, \<lparr>Type = CKA_LABEL, Value = None\<rparr>] policy_state
    = Returns (Inr [\<lparr>Type = CKA_EXTRACTABLE, Value = Some [0]\<rparr>,
        \<lparr>Type = CKA_LABEL, Value = Some (bytes_of_string ''release'')\<rparr>], t)"
    using example_attributes by blast
  have "fst (parseObjectHandle (makePrivateKeyHandle 0)) = objPrivateKey" by (simp add: parse_make)
  from private_key_policy [OF t this, of "\<lparr>Type = CKA_EXTRACTABLE, Value = Some [0]\<rparr>" "VBool False"] t
  show ?thesis by (auto simp: privateKeyPolicy_def const_vals)
qed

end
