(* ===== verification/Sign_Ops.thy ===== *)
theory Sign_Ops
  imports Object_Ops
begin

text \<open>
  \<^verbatim>\<open>backend.go\<close>, fifth part: signing. An operation is started by \<^verbatim>\<open>SignInit\<close>, fed in one part
  (\<^verbatim>\<open>Sign\<close>) or several (\<^verbatim>\<open>SignUpdate\<close>, \<^verbatim>\<open>SignFinal\<close>) and ended when the signature has been
  handed out; a signature that did not fit the caller's buffer is kept for the next attempt.
  When the server wants an approval, the module may open the request itself.
\<close>

section \<open>Starting an operation\<close>

definition startSign :: "uint \<Rightarrow> uint \<Rightarrow> session \<Rightarrow> session" where
  "startSign mech slotIdx s =
     s\<lparr>signActive := True, signMech := mech, signKeyIndex := slotIdx, signBuffer := []\<rparr>"

definition SignInit :: "uint \<Rightarrow> uint list \<Rightarrow> uint \<Rightarrow> ('w, unit) call" where
  "SignInit sh mechanism key =
     bindE (getSession sh) (\<lambda>sess.
       if \<not> loggedIn sess then throwE ErrNotLoggedIn
       else if signActive sess then throwE ErrSignAlreadyActive
       else if mechanism = [] then throwE (Errorf ''no mechanism provided'')
       else updateSession sh (startSign (hd mechanism) (snd (parseObjectHandle key))))"

definition clearSign :: "session \<Rightarrow> session" where
  "clearSign s =
     s\<lparr>signActive := False, signMech := 0, signKeyIndex := 0, signBuffer := [],
       cachedSignature := None\<rparr>"

definition clearSignState :: "uint \<Rightarrow> ('w, unit) call" where
  "clearSignState sh = updateSession sh clearSign"

text \<open>By handle; nothing happens when the session does not exist.\<close>

definition clearSignStateByHandle :: "uint \<Rightarrow> ('w, unit) call" where
  "clearSignStateByHandle sh =
     bindE (getE (\<lambda>st. sm_get (manager st) sh)) (\<lambda>found.
       case found of None \<Rightarrow> returnE () | Some _ \<Rightarrow> clearSignState sh)"

definition cacheSignResult :: "uint \<Rightarrow> bytes \<Rightarrow> ('w, unit) call" where
  "cacheSignResult sh sig =
     bindE (getE (\<lambda>st. sm_get (manager st) sh)) (\<lambda>found.
       case found of None \<Rightarrow> returnE ()
       | Some _ \<Rightarrow> updateSession sh (\<lambda>s. s\<lparr>cachedSignature := Some sig\<rparr>))"

section \<open>Approval\<close>

definition approvalJustification :: "string \<Rightarrow> string" where
  "approvalJustification hostname =
     (if hostname = [] then ''Auto-requested by the Infisical PKCS#11 module''
      else ''Auto-requested by the Infisical PKCS#11 module on '' @ hostname)"

definition approvalFor :: "ApprovalConfig \<Rightarrow> signingContext \<Rightarrow> string \<Rightarrow> approvalRequest" where
  "approvalFor cfg signCtx dataHash =
     \<lparr>Justification = approvalJustification (Hostname signCtx),
      RequestedSignings = (if SigningCount cfg > 0 then SigningCount cfg else 0),
      RequestedWindowDuration = (if SigningDuration cfg \<noteq> [] then SigningDuration cfg else []),
      Scope = requestScope signCtx dataHash (ExcludeScopeFields cfg) (cfgIPAddress cfg)\<rparr>"

definition requestApproval ::
  "'w services \<Rightarrow> signerResponse \<Rightarrow> string \<Rightarrow> ('w, approvalRequestResponse) call" where
  "requestApproval sv signer dataHash =
     bindE (getE config) (\<lambda>cfg.
     bindE (signingCtx sv) (\<lambda>signCtx.
     bindE (getToken sv) (\<lambda>token.
       apiE (\<lambda>c. RequestApproval sv c token (ID signer)
         (approvalFor (Approval cfg) signCtx dataHash)))))"

text \<open>\<^verbatim>\<open>reportApprovalDenial\<close>; its messages go to the log.\<close>

definition reportApprovalDenial ::
  "'w services \<Rightarrow> signerResponse \<Rightarrow> bytes \<Rightarrow> go_error \<Rightarrow> ('w, bool) call" where
  "reportApprovalDenial sv signer signData signErr =
     (case errorsAsAPI signErr of
        None \<Rightarrow> returnE False
      | Some apiErr \<Rightarrow>
          if \<not> IsApprovalRequired apiErr then returnE False
          else if HasPendingRequest apiErr then returnE True
          else bindE (getE config) (\<lambda>cfg.
            if SigningCount (Approval cfg) = 0 \<and> SigningDuration (Approval cfg) = []
            then returnE True
            else catchE (requestApproval sv signer (hexEncode (sum256 signData)))
                   (\<lambda>r. returnE True)))"

section \<open>Signing\<close>

text \<open>
  The first part of \<^verbatim>\<open>signInternal\<close>: the algorithm, the data to send, and whether it is a
  digest.
\<close>

definition prepareSign :: "uint \<Rightarrow> bytes \<Rightarrow> (string \<times> bytes \<times> bool) result" where
  "prepareSign mech data =
     (if mech = CKM_RSA_PKCS then
        (case parseDigestInfo data of
           Inl err \<Rightarrow> Inl (Errorf ''invalid DigestInfo for CKM_RSA_PKCS'')
         | Inr (alg, digest) \<Rightarrow> Inr (alg, digest, True))
      else if mech = CKM_ECDSA then
        Inr (if length data = 48 then AlgECDSASHA384
             else if length data = 64 then AlgECDSASHA512 else AlgECDSASHA256, data, True)
      else if isPSSMechanism mech then
        (case mechanismToAlgorithm mech of Inl err \<Rightarrow> Inl err | Inr alg \<Rightarrow> Inr (alg, data, False))
      else
        (case mechanismToAlgorithm mech of
           Inl err \<Rightarrow> Inl err
         | Inr alg \<Rightarrow> Inr (alg, hashDataForMechanism mech data, True)))"

definition signRequestFor :: "string \<Rightarrow> bytes \<Rightarrow> bool \<Rightarrow> signingContext \<Rightarrow> signRequest" where
  "signRequestFor algorithm signData isDigest signCtx =
     \<lparr>Data = b64_encode signData, SigningAlgorithm = algorithm, IsDigest = isDigest,
      ClientMetadata = clientMetadata_of signCtx\<rparr>"

text \<open>The rest of \<^verbatim>\<open>signInternal\<close>: the request, and what becomes of its answer.\<close>

definition sendSign ::
  "'w services \<Rightarrow> signerResponse \<Rightarrow> bytes \<Rightarrow> signRequest \<Rightarrow> ('w, bytes) call" where
  "sendSign sv signer signData req =
     catchE (withRetryOnAuth sv (\<lambda>token. apiE (\<lambda>c. client_Sign sv c token (ID signer) req))) (\<lambda>r.
       case r of
         Inl err \<Rightarrow> bindE (reportApprovalDenial sv signer signData err) (\<lambda>_. throwE err)
       | Inr signature \<Rightarrow>
           (case b64_decode signature of
              None \<Rightarrow> throwE (Wrapf ''failed to decode signature'' (Errorf ''base64''))
            | Some sig \<Rightarrow> returnE sig))"

definition signInternal :: "'w services \<Rightarrow> session \<Rightarrow> bytes \<Rightarrow> ('w, bytes) call" where
  "signInternal sv sess data =
     bindE (getSignerBySlot sv (signKeyIndex sess)) (\<lambda>signer.
     bindE (liftR (prepareSign (signMech sess) data)) (\<lambda>(algorithm, signData, isDigest).
     bindE (signingCtx sv) (\<lambda>signCtx.
       sendSign sv signer signData (signRequestFor algorithm signData isDigest signCtx))))"

text \<open>What \<^verbatim>\<open>Sign\<close> and \<^verbatim>\<open>SignFinal\<close> share: the kept signature, else the signing of \<open>data\<close>.\<close>

definition finishSign :: "'w services \<Rightarrow> uint \<Rightarrow> (session \<Rightarrow> bytes) \<Rightarrow> ('w, bytes) call" where
  "finishSign sv sh data =
     bindE (getSession sh) (\<lambda>sess.
       if \<not> signActive sess then throwE ErrSignNotActive
       else case cachedSignature sess of
         Some sig \<Rightarrow> bindE (clearSignState sh) (\<lambda>_. returnE sig)
       | None \<Rightarrow>
           catchE (signInternal sv sess (data sess)) (\<lambda>r.
             case r of
               Inl err \<Rightarrow> bindE (clearSignState sh) (\<lambda>_. throwE err)
             | Inr sig \<Rightarrow> returnE sig))"

definition Sign :: "'w services \<Rightarrow> uint \<Rightarrow> bytes \<Rightarrow> ('w, bytes) call" where
  "Sign sv sh data = finishSign sv sh (\<lambda>_. data)"

definition SignFinal :: "'w services \<Rightarrow> uint \<Rightarrow> ('w, bytes) call" where
  "SignFinal sv sh = finishSign sv sh signBuffer"

text \<open>\<^verbatim>\<open>SignUpdate\<close>; on overflow the session is left as it was.\<close>

definition SignUpdate :: "uint \<Rightarrow> bytes \<Rightarrow> ('w, unit) call" where
  "SignUpdate sh data =
     bindE (getSession sh) (\<lambda>sess.
       if \<not> signActive sess then throwE ErrSignNotActive
       else bindE (liftR (appendSignBuffer sess data)) (\<lambda>sess'.
         updateSession sh (\<lambda>_. sess')))"

definition signatureSize :: "signerResponse \<Rightarrow> nat" where
  "signatureSize signer =
     (let keyAlg = keyAlgorithm signer
      in if contains keyAlg ''4096'' then 512
         else if contains keyAlg ''3072'' then 384
         else if contains keyAlg ''2048'' then 256
         else if contains keyAlg ''ec'' \<or> contains keyAlg ''ecdsa'' then 132
         else 512)"

definition EstimateSignatureSize :: "'w services \<Rightarrow> uint \<Rightarrow> ('w, nat) call" where
  "EstimateSignatureSize sv sh =
     bindE (getE (\<lambda>st. sm_get (manager st) sh)) (\<lambda>found.
       case found of
         None \<Rightarrow> returnE 512
       | Some sess \<Rightarrow>
           catchE (getSignerBySlot sv (signKeyIndex sess)) (\<lambda>r.
             case r of Inl err \<Rightarrow> returnE 512 | Inr signer \<Rightarrow> returnE (signatureSize signer)))"

section \<open>What signing leaves alone\<close>

lemma core_sign [preserves]:
  "keeps same_core (requestApproval sv signer h)"
  "keeps same_core (reportApprovalDenial sv signer d e)"
  "keeps same_core (sendSign sv signer d req)" "keeps same_core (signInternal sv sess d)"
  "keeps same_core (EstimateSignatureSize sv sh)"
  unfolding requestApproval_def reportApprovalDenial_def sendSign_def signInternal_def
    EstimateSignatureSize_def
  by (intro preserves)+

lemma touches_clear [preserves]:
  "keeps (touches sh) (clearSignState sh)" "keeps (touches sh) (clearSignStateByHandle sh)"
  "keeps (touches sh) (cacheSignResult sh sig)"
  "keeps (touches sh) (updateSession sh (startSign m i))"
  unfolding clearSignState_def clearSignStateByHandle_def cacheSignResult_def
  by (intro preserves; simp add: clearSign_def startSign_def)+

lemmas touches_sign_parts [preserves] = core_sign [THEN keeps_touches]

lemma touches_SignInit [preserves]: "keeps (touches sh) (SignInit sh mechanism key)"
  unfolding SignInit_def by (intro preserves)

lemma touches_finishSign [preserves]: "keeps (touches sh) (finishSign sv sh d)"
  unfolding finishSign_def by (intro preserves)

lemma touches_Sign [preserves]:
  "keeps (touches sh) (Sign sv sh data)" "keeps (touches sh) (SignFinal sv sh)"
  unfolding Sign_def SignFinal_def by (intro preserves)+

lemma safe_sign [safety]:
  "safe (SignInit sh mechanism key)" "safe (clearSignState sh)"
  "safe (clearSignStateByHandle sh)" "safe (cacheSignResult sh sig)"
  "safe (requestApproval sv signer h)" "safe (reportApprovalDenial sv signer d e)"
  "safe (sendSign sv signer d req)" "safe (signInternal sv sess d)"
  "safe (Sign sv sh data)" "safe (SignFinal sv sh)" "safe (SignUpdate sh data)"
  "safe (EstimateSignatureSize sv sh)"
  unfolding SignInit_def clearSignState_def clearSignStateByHandle_def cacheSignResult_def
    requestApproval_def reportApprovalDenial_def sendSign_def signInternal_def
    Sign_def SignFinal_def finishSign_def SignUpdate_def EstimateSignatureSize_def
  by (intro safety)+

lemma SignUpdate_run:
  "SignUpdate sh data s =
     (case sm_get (manager s) sh of
        None \<Rightarrow> Returns (Inl ErrSessionHandleInvalid, s)
      | Some x \<Rightarrow>
          if \<not> signActive x then Returns (Inl ErrSignNotActive, s)
          else if length (signBuffer x) + length data > maxSignBuffer
          then Returns (Inl (Errorf ''sign buffer exceeds maximum size''), s)
          else Returns (Inr (), s\<lparr>manager := sm_update (manager s) sh
                 (\<lambda>_. x\<lparr>signBuffer := signBuffer x @ data\<rparr>)\<rparr>))"
  by (simp add: SignUpdate_def bind_getSession updateSession_def appendSignBuffer_def Let_def
      bindE_Inl bindE_Inr split: option.splits)

lemma touches_SignUpdate [preserves]: "keeps (touches sh) (SignUpdate sh data)"
  unfolding keeps_def SignUpdate_run
  by (auto simp: touches_def sm_get_update split: option.splits if_splits)

section \<open>The exchanges of a signature\<close>

text \<open>
  The exchanges of one signing: \<open>xs\<close> are the sign requests, \<open>ys\<close> the approval request if one
  was opened.
\<close>

definition approvalOpened ::
  "'w services \<Rightarrow> restyClient \<Rightarrow> ApprovalConfig \<Rightarrow> signerResponse \<Rightarrow> bytes \<Rightarrow> signingContext \<Rightarrow>
   exchange list \<Rightarrow> exchange list \<Rightarrow> bool" where
  "approvalOpened sv hc cfg signer d ctx xs ys \<longleftrightarrow>
     (\<exists>resp a. xs \<noteq> [] \<and> snd (last xs) = Inr resp \<and> a = newAPIError sv ''sign'' resp
        \<and> IsApprovalRequired a \<and> \<not> HasPendingRequest a)
   \<and> (SigningCount cfg \<noteq> 0 \<or> SigningDuration cfg \<noteq> [])
   \<and> (\<exists>token x. ys = [(approval_request hc token (ID signer)
        (approvalFor cfg ctx (hexEncode (sum256 d))), x)])"

definition signatureAnswered :: "'w services \<Rightarrow> exchange list \<Rightarrow> bytes \<Rightarrow> bool" where
  "signatureAnswered sv xs sig \<longleftrightarrow>
     (\<exists>resp text. xs \<noteq> [] \<and> snd (last xs) = Inr resp \<and> rs_status resp \<le> 399
        \<and> sv_decode_signature sv resp = Inr text \<and> b64_decode text = Some sig)"

lemma signingCtx_run:
  assumes "captured s = Some c"
  shows "signingCtx sv s = Returns (Inr c, s)"
proof -
  have "s\<lparr>captured := Some c\<rparr> = s" using assms by (cases s) simp
  with assms show ?thesis by (simp add: signingCtx_def currentSigningContext_def)
qed

lemma signingCtx_result:
  obtains ctx t where "signingCtx sv s = Returns (Inr ctx, t)" "captured t = Some ctx"
    "same_core s t" "world t = world s" "client t = client s"
  by (cases "captured s")
     (auto simp: signingCtx_def currentSigningContext_def Let_def same_core_def)

context observed_services
begin

lemma requestApproval_log:
  assumes "requestApproval sv signer h s = Returns (r, t)" "captured s = Some ctx"
  shows "log (world t) = log (world s) \<or>
    (\<exists>token x. log (world t) = log (world s) @
      [(approval_request (httpClient (client s)) token (ID signer) (approvalFor (Approval (config s)) ctx h), x)])"
proof -
  let ?req = "approvalFor (Approval (config s)) ctx h"
  have "bindE (getToken sv) (\<lambda>token. apiE (\<lambda>c. RequestApproval sv c token (ID signer) ?req)) s = Returns (r, t)"
    using assms(1) signingCtx_run [OF assms(2)] by (simp add: requestApproval_def bindE_Inr)
  then show ?thesis
  proof (cases rule: bindE_ReturnsE)
    case (err e)
    then show ?thesis using getToken_log by blast
  next
    case (ok token s1)
    then have s1: "log (world s1) = log (world s)" "httpClient (client s1) = httpClient (client s)"
      using getToken_log keepsD [OF core_getToken ok(1)] by (auto simp: same_core_def)
    obtain w where "RequestApproval sv (client s1) token (ID signer) ?req (world s1) = (r, w)"
      "t = s1\<lparr>world := w\<rparr>" using apiE_Returns [OF ok(2)] by blast
    with s1 send_log show ?thesis by (fastforce simp: RequestApproval_def)
  qed
qed

lemma reportApprovalDenial_log:
  assumes "reportApprovalDenial sv signer d e s = Returns (r, t)" "captured s = Some ctx"
  shows "log (world t) = log (world s) \<or>
    (\<exists>a token x. errorsAsAPI e = Some a \<and> IsApprovalRequired a \<and> \<not> HasPendingRequest a
      \<and> (SigningCount (Approval (config s)) \<noteq> 0 \<or> SigningDuration (Approval (config s)) \<noteq> [])
      \<and> log (world t) = log (world s) @
        [(approval_request (httpClient (client s)) token (ID signer)
          (approvalFor (Approval (config s)) ctx (hexEncode (sum256 d))), x)])"
  using assms
  by (auto simp: reportApprovalDenial_def split: option.splits if_splits elim!: catchE_ReturnsE
      dest!: requestApproval_log)

lemma sendSign_log:
  assumes "sendSign sv signer d req s = Returns (r, t)" "captured s = Some ctx"
  shows "\<exists>xs ys. log (world t) = log (world s) @ xs @ ys
    \<and> retried (\<lambda>token. sign_request (httpClient (client s)) token (ID signer) req)
        (Method (Auth (config s)) = authMethodToken) xs
    \<and> (ys = [] \<or> (\<exists>e. r = Inl e)
        \<and> approvalOpened sv (httpClient (client s)) (Approval (config s)) signer d ctx xs ys)
    \<and> (\<forall>sig. r = Inr sig \<longrightarrow> ys = [] \<and> signatureAnswered sv xs sig)"
proof -
  let ?call = "withRetryOnAuth sv (\<lambda>token. apiE (\<lambda>c. client_Sign sv c token (ID signer) req))"
  have core_call: "keeps same_core ?call" by (intro preserves)
  from assms(1) obtain r1 s1 where run: "?call s = Returns (r1, s1)"
    and rest: "(case r1 of
        Inl err \<Rightarrow> bindE (reportApprovalDenial sv signer d err) (\<lambda>_. throwE err)
      | Inr signature \<Rightarrow> (case b64_decode signature of
          None \<Rightarrow> throwE (Wrapf ''failed to decode signature'' (Errorf ''base64''))
        | Some sig \<Rightarrow> returnE sig)) s1 = Returns (r, t)"
    unfolding sendSign_def by (rule catchE_ReturnsE)
  obtain xs where xs: "log (world s1) = log (world s) @ xs"
    "retried (\<lambda>token. sign_request (httpClient (client s)) token (ID signer) req)
        (Method (Auth (config s)) = authMethodToken) xs"
    "answered sv ''sign'' (sv_decode_signature sv) xs r1"
    using retry_log [of "''sign''" "\<lambda>c token. sign_request c token (ID signer) req"] run
    unfolding client_Sign_def by blast
  have s1: "same_core s s1" "captured s1 = Some ctx"
    using keepsD [OF core_call run] assms(2) by (auto simp: same_core_def)
  show ?thesis
  proof (cases r1)
    case (Inr b64)
    with rest xs(3) have "t = s1" "\<forall>sig. r = Inr sig \<longrightarrow> signatureAnswered sv xs sig"
      by (auto simp: signatureAnswered_def answered_def split: option.splits)
    with xs show ?thesis by (intro exI [of _ xs] exI [of _ "[]"]) simp
  next
    case (Inl e)
    with rest have "bindE (reportApprovalDenial sv signer d e) (\<lambda>_. throwE e) s1 = Returns (r, t)" by simp
    then obtain r2 where "reportApprovalDenial sv signer d e s1 = Returns (r2, t)" and r: "\<exists>e. r = Inl e"
      by (cases rule: bindE_ReturnsE) auto
    from reportApprovalDenial_log [OF this(1) s1(2)] obtain ys where
      "log (world t) = log (world s1) @ ys"
      "ys = [] \<or> approvalOpened sv (httpClient (client s)) (Approval (config s)) signer d ctx xs ys"
      using xs(3) s1(1) Inl by (fastforce simp: approvalOpened_def answered_def same_core_def)
    with xs r show ?thesis by (intro exI [of _ xs] exI [of _ ys]) auto
  qed
qed

lemma signInternal_log:
  assumes "signInternal sv sess data s = Returns (r, t)"
  obtains (unresolved) e where "getSignerBySlot sv (signKeyIndex sess) s = Returns (Inl e, t)" "r = Inl e"
  | (refused) signer e where "getSignerBySlot sv (signKeyIndex sess) s = Returns (Inr signer, t)"
      "prepareSign (signMech sess) data = Inl e" "r = Inl e"
  | (sent) signer s1 alg d dig ctx xs ys where
      "getSignerBySlot sv (signKeyIndex sess) s = Returns (Inr signer, s1)"
      "prepareSign (signMech sess) data = Inr (alg, d, dig)"
      "log (world t) = log (world s1) @ xs @ ys"
      "retried (\<lambda>token. sign_request (httpClient (client s)) token (ID signer)
          (signRequestFor alg d dig ctx)) (Method (Auth (config s)) = authMethodToken) xs"
      "ys = [] \<or> (\<exists>e. r = Inl e)
        \<and> approvalOpened sv (httpClient (client s)) (Approval (config s)) signer d ctx xs ys"
      "\<And>sig. r = Inr sig \<Longrightarrow> ys = [] \<and> signatureAnswered sv xs sig"
      "captured s \<noteq> None \<Longrightarrow> captured s = Some ctx"
  using assms unfolding signInternal_def
proof (cases rule: bindE_ReturnsE)
  case (err e)
  then show thesis using unresolved by blast
next
  case (ok signer s1)
  note slot = ok(1)
  show thesis
  proof (cases "prepareSign (signMech sess) data")
    case (Inl e)
    with ok show thesis using refused by (simp add: bindE_Inl)
  next
    case (Inr p)
    obtain alg d dig where p: "p = (alg, d, dig)" by (cases p)
    obtain ctx s2 where ctx: "signingCtx sv s1 = Returns (Inr ctx, s2)" "captured s2 = Some ctx"
      and s2: "same_core s1 s2" "world s2 = world s1" "client s2 = client s1"
      by (rule signingCtx_result)
    have "sendSign sv signer d (signRequestFor alg d dig ctx) s2 = Returns (r, t)"
      using ok(2) Inr p ctx(1) by (simp add: bindE_Inr)
    from sendSign_log [OF this ctx(2)] obtain xs ys where
      "log (world t) = log (world s2) @ xs @ ys"
      "retried (\<lambda>token. sign_request (httpClient (client s2)) token (ID signer)
          (signRequestFor alg d dig ctx)) (Method (Auth (config s2)) = authMethodToken) xs"
      "ys = [] \<or> (\<exists>e. r = Inl e)
        \<and> approvalOpened sv (httpClient (client s2)) (Approval (config s2)) signer d ctx xs ys"
      "\<And>sig. r = Inr sig \<Longrightarrow> ys = [] \<and> signatureAnswered sv xs sig"
      by (elim exE conjE) blast
    moreover have "same_core s s2"
      using keepsD [OF core_getSignerBySlot slot] s2(1) by (rule core.trans)
    ultimately show thesis
      using ctx(2) s2(2) by (intro sent [OF slot Inr [unfolded p]]) (auto simp: same_core_def)
  qed
qed

lemma getSignerBySlot_reads:
  assumes "getSignerBySlot sv i s = Returns (r, t)"
  shows "\<exists>rs. log (world t) = log (world s) @ rs \<and> (\<forall>x \<in> set rs. reading (httpClient (client s)) x)"
  using keepsD [OF reads_getSignerBySlot assms] by (simp add: sends_def)

end

text \<open>How \<^verbatim>\<open>Sign\<close> and \<^verbatim>\<open>SignFinal\<close> run.\<close>

lemma clearSignState_run:
  "clearSignState sh s = Returns (Inr (), s\<lparr>manager := sm_update (manager s) sh clearSign\<rparr>)"
  by (simp add: clearSignState_def updateSession_def)

lemma finishSign_run:
  "finishSign sv sh data s =
     (case sm_get (manager s) sh of
        None \<Rightarrow> Returns (Inl ErrSessionHandleInvalid, s)
      | Some x \<Rightarrow>
          if \<not> signActive x then Returns (Inl ErrSignNotActive, s)
          else (case cachedSignature x of
            Some sig \<Rightarrow> Returns (Inr sig, s\<lparr>manager := sm_update (manager s) sh clearSign\<rparr>)
          | None \<Rightarrow>
              (case signInternal sv x (data x) s of
                 Panics \<Rightarrow> Panics
               | Returns (Inr sig, t) \<Rightarrow> Returns (Inr sig, t)
               | Returns (Inl err, t) \<Rightarrow>
                   Returns (Inl err, t\<lparr>manager := sm_update (manager t) sh clearSign\<rparr>))))"
  by (auto simp: finishSign_def bind_getSession clearSignState_run bindE_Inr catchE_def
      split: option.splits outcome.splits sum.splits prod.splits)

lemma finishSign_fresh:
  assumes "finishSign sv sh data s = Returns (Inr sig, t)" "sm_get (manager s) sh = Some x"
    "cachedSignature x = None"
  shows "signInternal sv x (data x) s = Returns (Inr sig, t)"
  using assms
  by (auto simp: finishSign_run split: option.splits outcome.splits sum.splits prod.splits if_splits)

end
