(* ===== verification/Signing.thy ===== *)
theory Signing
  imports Sign_Ops
begin

text \<open>
  What signing promises: the signature comes from the server, approvals are requested only
  where the configuration wants them, and the data sent fit the mechanism.
\<close>

section \<open>Properties of signing\<close>

text \<open>
  C4: a signature that is handed out, and was not kept from before, is the decoded answer of
  the server to the last sign request sent; that request names the signer the key handle
  resolved to and carries the algorithm, the data and the digest flag the mechanism and the
  caller's data call for. Before it there were only reading requests and at most one sign
  request that was answered 401; no approval was requested.
\<close>

theorem signature_is_servers_answer:
  assumes "Sign (traced sv) sh data s = Returns (Inr sig, t)"
    "sm_get (manager s) sh = Some x" "cachedSignature x = None"
  shows "\<exists>signer s1 rs xs alg d dig ctx.
      getSignerBySlot (traced sv) (signKeyIndex x) s = Returns (Inr signer, s1)
    \<and> exchanges s1 = exchanges s @ rs \<and> (\<forall>y \<in> set rs. reading (httpClient (client s)) y)
    \<and> exchanges t = exchanges s1 @ xs
    \<and> prepareSign (signMech x) data = Inr (alg, d, dig)
    \<and> retried (\<lambda>token. sign_request (httpClient (client s)) token (ID signer)
        (signRequestFor alg d dig ctx)) (Method (Auth (config s)) = authMethodToken) xs
    \<and> signatureAnswered sv xs sig"
proof -
  have same: "signatureAnswered (traced sv) = signatureAnswered sv"
    by (simp add: signatureAnswered_def fun_eq_iff)
  have "signInternal (traced sv) x data s = Returns (Inr sig, t)"
    using finishSign_fresh [OF assms [unfolded Sign_def]] .
  then show ?thesis
  proof (cases rule: traced.signInternal_log)
    case (sent signer s1 alg d dig ctx xs ys)
    obtain rs where "exchanges s1 = exchanges s @ rs" "\<forall>y \<in> set rs. reading (httpClient (client s)) y"
      using traced.getSignerBySlot_reads [OF sent(1)] by blast
    moreover have "ys = []" "signatureAnswered sv xs sig" using sent(6) same by auto
    ultimately show ?thesis using sent by fastforce
  qed auto
qed

text \<open>A session on slot 1 that has started to sign with the EC key, over services with a log.\<close>

definition example_context :: signingContext where
  "example_context = \<lparr>Command = ''osslsigncode sign'', Application = ''osslsigncode'',
     ApplicationHash = [], Hostname = ''ci-1'', OSUsername = ''builder''\<rparr>"

definition signing_session :: "uint \<Rightarrow> session" where
  "signing_session mech =
     (new_session 1)\<lparr>loggedIn := True, signActive := True, signMech := mech, signKeyIndex := 1\<rparr>"

definition signing_state :: "uint \<Rightarrow> (nat \<times> exchange list) backend" where
  "signing_state mech = (example_state (1, []))\<lparr>captured := Some example_context,
     manager := \<lparr>sessions = [1 \<mapsto> signing_session mech], nextID = 2\<rparr>\<rparr>"

lemma signing_state_session [simp]:
  "sm_get (manager (signing_state mech)) 1 = Some (signing_session mech)"
  "captured (signing_state mech) = Some example_context"
  "initialized (signing_state mech)"
  by (simp_all add: signing_state_def sm_get_def example_state_def)

lemma signing_session_fields [simp]:
  "signActive (signing_session mech)" "loggedIn (signing_session mech)"
  "cachedSignature (signing_session mech) = None" "signMech (signing_session mech) = mech"
  "signKeyIndex (signing_session mech) = 1" "signBuffer (signing_session mech) = []"
  by (simp_all add: signing_session_def new_session_def)

lemma b64_AQID: "b64_decode ''AQID'' = Some [1, 2, 3]"
  by code_simp

lemmas signing_example_defs = fetch_defs example_run_defs ListSigners_def listSigners_request_def
  client_Sign_def newSignerCache_def cache_defs seconds_exact signingCtx_def
  currentSigningContext_def sendSign_def signInternal_def prepareSign_def

lemma example_sign:
  "\<exists>t. Sign (traced (example_services ok_server)) 1 (replicate 32 1) (signing_state CKM_ECDSA)
      = Returns (Inr [1, 2, 3], t) \<and> length (exchanges t) = 2"
  by (simp add: Sign_def finishSign_run)
     (simp add: signing_example_defs signing_state_def ok_server_def b64_AQID const_vals
      word_le_nat_alt)

theorem signature_is_servers_answer_witness:
  "\<exists>t xs. Sign (traced (example_services ok_server)) 1 (replicate 32 1) (signing_state CKM_ECDSA)
      = Returns (Inr [1, 2, 3], t)
    \<and> suffix xs (exchanges t) \<and> signatureAnswered (example_services ok_server) xs [1, 2, 3]"
proof -
  obtain t where t: "Sign (traced (example_services ok_server)) 1 (replicate 32 1)
      (signing_state CKM_ECDSA) = Returns (Inr [1, 2, 3], t)"
    using example_sign by blast
  from signature_is_servers_answer [OF t signing_state_session(1)] t show ?thesis
    by (auto simp: suffix_def)
qed

text \<open>
  C7: however a one-part signing ends, it sends reading requests, then at most two sign
  requests, and at most one approval request after them: only when the server answered the
  last sign request with status 403 and the code \<^verbatim>\<open>ApprovalRequired\<close>, reported no request that
  is already pending, and the configuration sets a count or a duration. The operation then
  fails.
\<close>

theorem approval_only_when_required:
  assumes "Sign (traced sv) sh data s = Returns (r, t)"
  shows "\<exists>rs xs ys signer alg d dig ctx. exchanges t = exchanges s @ rs @ xs @ ys
    \<and> (\<forall>y \<in> set rs. reading (httpClient (client s)) y)
    \<and> retried (\<lambda>token. sign_request (httpClient (client s)) token (ID signer)
        (signRequestFor alg d dig ctx)) (Method (Auth (config s)) = authMethodToken) xs
    \<and> (ys = [] \<or> (\<exists>e. r = Inl e)
        \<and> approvalOpened sv (httpClient (client s)) (Approval (config s)) signer d ctx xs ys)"
    (is "?goal t r")
proof -
  have same: "approvalOpened (traced sv) = approvalOpened sv"
    by (simp add: approvalOpened_def fun_eq_iff)
  have none: "retried rq b []" for rq b by (simp add: retried_def)
  have inner: "?goal u q" if "signInternal (traced sv) x data s = Returns (q, u)" for x q u
    using that
  proof (cases rule: traced.signInternal_log)
    case (unresolved e)
    with traced.getSignerBySlot_reads none show ?thesis by (metis append_Nil2)
  next
    case (refused signer e)
    with traced.getSignerBySlot_reads none show ?thesis by (metis append_Nil2)
  next
    case (sent signer s1 alg d dig ctx xs ys)
    obtain rs where "exchanges s1 = exchanges s @ rs" "\<forall>y \<in> set rs. reading (httpClient (client s)) y"
      using traced.getSignerBySlot_reads [OF sent(1)] by blast
    with sent(3,4,5) same show ?thesis by (metis append_assoc)
  qed
  have quiet: "?goal t r" if "exchanges t = exchanges s"
    using that none by (metis append_Nil2 empty_iff list.set(1))
  consider "exchanges t = exchanges s" | x q u where "signInternal (traced sv) x data s = Returns (q, u)"
      "exchanges u = exchanges t" "\<forall>e. q = Inl e \<longrightarrow> r = Inl e"
    using assms
    by (auto simp: Sign_def finishSign_run split: option.splits outcome.splits sum.splits if_splits)
  then show ?thesis
  proof cases
    case (2 x q u)
    with inner [OF 2(1)] show ?thesis by (metis sum.exhaust)
  qed (rule quiet)
qed

text \<open>A server that wants an approval for every signature.\<close>

definition approval_server :: "http_request \<Rightarrow> http_response" where
  "approval_server rq =
     (case rq_body rq of
        SignBody b \<Rightarrow> \<lparr>rs_status = 403, rs_body = bytes_of_string ErrorCodeApprovalRequired\<rparr>
      | _ \<Rightarrow> ok_response ''{}'')"

lemma example_denied:
  "\<exists>e t. Sign (traced (example_services approval_server)) 1 (replicate 32 1)
        (signing_state CKM_ECDSA) = Returns (Inl e, t)
    \<and> map (rq_method \<circ> fst) (exchanges t) = [GET, POST, POST]
    \<and> (\<exists>req. rq_body (fst (last (exchanges t))) = ApprovalBody req)"
  by (simp add: Sign_def finishSign_run)
     (simp add: signing_example_defs signing_state_def approval_server_def const_vals
      word_le_nat_alt sign_request_def approval_request_def reportApprovalDenial_def
      IsApprovalRequired_def requestApproval_def RequestApproval_def)

lemma retried_body:
  assumes "retried (\<lambda>token. sign_request c token i req) b xs" "x \<in> set xs"
  shows "rq_body (fst x) = SignBody req"
  using assms
  by (auto simp: retried_def sign_request_def split: list.splits)

theorem approval_only_when_required_witness:
  "\<exists>e t xs ys signer d ctx. Sign (traced (example_services approval_server)) 1 (replicate 32 1)
        (signing_state CKM_ECDSA) = Returns (Inl e, t)
    \<and> suffix (xs @ ys) (exchanges t)
    \<and> approvalOpened (example_services approval_server) (httpClient example_client)
        (Approval example_config) signer d ctx xs ys"
proof -
  let ?sv = "example_services approval_server"
  obtain e t where t: "Sign (traced ?sv) 1 (replicate 32 1) (signing_state CKM_ECDSA)
        = Returns (Inl e, t)"
    and last: "exchanges t \<noteq> []" "\<exists>req. rq_body (fst (last (exchanges t))) = ApprovalBody req"
    using example_denied by fastforce
  have start: "exchanges (signing_state CKM_ECDSA) = []"
    "httpClient (client (signing_state CKM_ECDSA)) = httpClient example_client"
    "Approval (config (signing_state CKM_ECDSA)) = Approval example_config"
    by (simp_all add: signing_state_def example_state_def fill_method_def)
  from approval_only_when_required [OF t] obtain rs xs ys signer alg d dig ctx where
    run: "exchanges t = rs @ xs @ ys" "\<forall>y \<in> set rs. reading (httpClient example_client) y"
    "retried (\<lambda>token. sign_request (httpClient example_client) token (ID signer)
        (signRequestFor alg d dig ctx)) (Method (Auth (config (signing_state CKM_ECDSA))) = authMethodToken) xs"
    "ys = [] \<or> (\<exists>e'. (Inl e :: bytes result) = Inl e') \<and> approvalOpened ?sv
        (httpClient example_client) (Approval example_config) signer d ctx xs ys"
    unfolding start append_Nil by (elim exE conjE) (rule that)
  have "ys \<noteq> []"
  proof
    assume "ys = []"
    then have "last (exchanges t) \<in> set rs \<or> last (exchanges t) \<in> set xs"
      using run(1) last_in_set [OF last(1)] by simp
    then show False
    proof
      assume "last (exchanges t) \<in> set rs"
      with run(2) last(2) show False by (auto simp: reading_def)
    next
      assume "last (exchanges t) \<in> set xs"
      with retried_body [OF run(3)] last(2) show False by fastforce
    qed
  qed
  with run(4) have "approvalOpened ?sv (httpClient example_client) (Approval example_config) signer d ctx xs ys"
    by simp
  moreover have "suffix (xs @ ys) (exchanges t)" using run(1) by (simp add: suffix_def)
  ultimately show ?thesis using t by blast
qed

section \<open>The data of a signature\<close>

text \<open>
  C27: what is sent to the server fits the mechanism: only the advertised mechanisms produce a
  request; PSS mechanisms send the caller's data as they are and flagged as no digest, all
  others a digest of exactly the length of the algorithm's hash, which for the raw RSA
  mechanism is a piece of the caller's DigestInfo. The raw ECDSA mechanism is the exception:
  data of a length that is none of the three digest lengths are sent as a SHA-256 digest.
\<close>

theorem prepareSign_data:
  assumes "prepareSign mech data = Inr (alg, d, dig)"
  shows "mech \<in> set (rsaMechanisms @ ecMechanisms)
    \<and> dig = (\<not> isPSSMechanism mech)
    \<and> (if isPSSMechanism mech then d = data
       else if mech = CKM_ECDSA then d = data
         \<and> (algorithmDigestLen alg = length data
            \<or> length data \<notin> {32, 48, 64} \<and> alg = AlgECDSASHA256)
       else length d = algorithmDigestLen alg \<and> (mech = CKM_RSA_PKCS \<longrightarrow> sublist d data))"
proof (cases "mech = CKM_RSA_PKCS")
  case True
  with assms have "parseDigestInfo data = Inr (alg, d)" "dig"
    by (auto simp: prepareSign_def split: sum.splits)
  with True parseDigestInfo_length [of data alg d] parseDigestInfo_sublist [of data alg d] show ?thesis
    by (auto simp: rsaMechanisms_def isPSSMechanism_def const_vals alg_defs algorithmDigestLen_def
        hasSuffix_def)
next
  case False
  with assms show ?thesis
    by (auto simp: prepareSign_def rsaMechanisms_def ecMechanisms_def mechanismToAlgorithm_def
        isPSSMechanism_def hashDataForMechanism_def const_vals alg_defs algorithmDigestLen_def
        hasSuffix_def split: if_split_asm)
qed

theorem prepareSign_data_witness:
  "\<exists>alg d. prepareSign CKM_SHA384_RSA_PKCS_PSS [1, 2, 3] = Inr (alg, d, False) \<and> d = [1, 2, 3]"
proof -
  have "prepareSign CKM_SHA384_RSA_PKCS_PSS [1, 2, 3] = Inr (AlgRSAPSSSHA384, [1, 2, 3], False)"
    by (simp add: prepareSign_def mechanismToAlgorithm_def isPSSMechanism_def const_vals)
  from prepareSign_data [OF this] this show ?thesis by (auto simp: isPSSMechanism_def)
qed

section \<open>Signing in parts\<close>

text \<open>
  A computation is blind to the sessions when it neither reads nor writes the session
  manager: run on other sessions it does the same and leaves those as they are.
\<close>

definition blind :: "('w, 'a) call \<Rightarrow> bool" where
  "blind f \<longleftrightarrow> (\<forall>s m. f (s\<lparr>manager := m\<rparr>) =
     (case f s of Panics \<Rightarrow> Panics | Returns (r, t) \<Rightarrow> Returns (r, t\<lparr>manager := m\<rparr>)))"

named_theorems blinds "computations that are blind to the sessions"

lemma blindI:
  "(\<And>s m. f (s\<lparr>manager := m\<rparr>) =
     (case f s of Panics \<Rightarrow> Panics | Returns (r, t) \<Rightarrow> Returns (r, t\<lparr>manager := m\<rparr>))) \<Longrightarrow> blind f"
  by (simp add: blind_def)

lemma blindD:
  "blind f \<Longrightarrow> f (s\<lparr>manager := m\<rparr>) =
     (case f s of Panics \<Rightarrow> Panics | Returns (r, t) \<Rightarrow> Returns (r, t\<lparr>manager := m\<rparr>))"
  by (simp add: blind_def)

lemma blind_basic [blinds]:
  "blind (returnE x)" "blind (throwE e)" "blind (liftR r)" "blind (nowE sv)" "blind (apiE g)"
  "blind (accessToken sv)" "blind (signingCtx sv)" "blind (authenticate sv i p)"
  by (auto intro!: blindI simp: nowE_def apiE_def accessToken_def signingCtx_def authenticate_def
      split: prod.splits)

lemma blind_get [blinds]: "(\<And>s m. f (s\<lparr>manager := m\<rparr>) = f s) \<Longrightarrow> blind (getE f)"
  by (simp add: blind_def)

lemma blind_signer_cache [blinds]: "blind (modifyE (\<lambda>st. st\<lparr>signer_cache := sc_set (signer_cache st) a b\<rparr>))"
  by (simp add: blind_def)

lemma blind_catch [blinds]: "blind f \<Longrightarrow> (\<And>r. blind (h r)) \<Longrightarrow> blind (catchE f h)"
  by (simp add: blind_def catchE_def split: outcome.splits prod.splits)

lemma blind_bind [blinds]: "blind f \<Longrightarrow> (\<And>x. blind (g x)) \<Longrightarrow> blind (bindE f g)"
  unfolding bindE_def by (intro blind_catch) (auto intro: blind_basic split: sum.splits)

lemma blind_cases [blinds]:
  "blind f \<Longrightarrow> blind g \<Longrightarrow> blind (if b then f else g)"
  "blind f \<Longrightarrow> (\<And>x. blind (h x)) \<Longrightarrow> blind (case_option f h v)"
  "(\<And>x. blind (k x)) \<Longrightarrow> (\<And>x. blind (h x)) \<Longrightarrow> blind (case_sum k h w)"
  "(\<And>x y. blind (p x y)) \<Longrightarrow> blind (case_prod p z)"
  by (auto split: option.splits sum.splits prod.splits)

lemma blind_signInternal: "blind (signInternal sv sess d)"
  unfolding signInternal_def sendSign_def getSignerBySlot_def getSigners_def withRetryOnAuth_def
    retry_after_def getToken_def reportApprovalDenial_def requestApproval_def
  by (intro blinds; simp)

text \<open>A caller that hands over the parts one by one; and the end of a signature in \<^verbatim>\<open>main.go\<close>.\<close>

fun updateAll :: "uint \<Rightarrow> bytes list \<Rightarrow> ('w, unit) call" where
  "updateAll sh [] = returnE ()"
| "updateAll sh (part # parts) = bindE (SignUpdate sh part) (\<lambda>_. updateAll sh parts)"

definition handOut :: "uint \<Rightarrow> bytes \<Rightarrow> ('w, bytes) call" where
  "handOut sh sig = bindE (clearSignStateByHandle sh) (\<lambda>_. returnE sig)"

lemma updateAll_run:
  assumes "sm_get (manager s) sh = Some x" "signActive x"
    "length (signBuffer x) + length (concat parts) \<le> maxSignBuffer"
  shows "updateAll sh parts s = Returns (Inr (), s\<lparr>manager := sm_update (manager s) sh
    (\<lambda>y. y\<lparr>signBuffer := signBuffer x @ concat parts\<rparr>)\<rparr>)"
  using assms
proof (induction parts arbitrary: s x)
  case Nil
  have "sm_update (manager s) sh (\<lambda>y. y\<lparr>signBuffer := signBuffer x\<rparr>) = manager s"
    using Nil.prems(1) by (simp add: sm_update_def sm_get_def map_at_def fun_upd_idem)
  then show ?case by simp
next
  case (Cons p parts)
  let ?y = "x\<lparr>signBuffer := signBuffer x @ p\<rparr>"
  let ?s = "s\<lparr>manager := sm_update (manager s) sh (\<lambda>_. ?y)\<rparr>"
  have step: "SignUpdate sh p s = Returns (Inr (), ?s)"
    using Cons.prems by (simp add: SignUpdate_run)
  have merge: "sm_update (sm_update (manager s) sh (\<lambda>_. ?y)) sh f = sm_update (manager s) sh g"
    if "f ?y = g x" for f g
    using that Cons.prems(1) by (auto simp: sm_update_def sm_get_def map_at_def)
  have "updateAll sh parts ?s = Returns (Inr (), ?s\<lparr>manager := sm_update (manager ?s) sh
      (\<lambda>y. y\<lparr>signBuffer := signBuffer ?y @ concat parts\<rparr>)\<rparr>)"
    using Cons.prems by (intro Cons.IH) (auto simp: sm_get_update)
  with step merge [of "\<lambda>y. y\<lparr>signBuffer := signBuffer ?y @ concat parts\<rparr>"
      "\<lambda>y. y\<lparr>signBuffer := signBuffer x @ concat (p # parts)\<rparr>"] show ?case
    by (simp add: bindE_Inr)
qed

lemma clearSignStateByHandle_run:
  "clearSignStateByHandle sh s = Returns (Inr (), s\<lparr>manager := sm_update (manager s) sh clearSign\<rparr>)"
proof (cases "sm_get (manager s) sh")
  case None
  then have "sm_update (manager s) sh clearSign = manager s"
    by (simp add: sm_update_def sm_get_def map_at_def fun_upd_idem)
  with None show ?thesis by (simp add: clearSignStateByHandle_def)
qed (simp add: clearSignStateByHandle_def clearSignState_run)

lemma clearSign_update:
  "sm_update (sm_update m sh (\<lambda>y. y\<lparr>signBuffer := b\<rparr>)) sh clearSign = sm_update m sh clearSign"
  by (cases "sessions m sh") (simp_all add: sm_update_def map_at_def clearSign_def)

text \<open>
  C12: signing in parts is signing the concatenation of the parts: as long as the buffer holds
  them, updates with the parts followed by the final call and the hand-out of the signature
  end with the same result, the same exchanges with the server and the same state as the
  one-part call. (In particular no part is lost, doubled or reordered.)
\<close>

theorem multipart_equals_single:
  assumes "sm_get (manager s) sh = Some x" "signActive x" "signBuffer x = []"
    "cachedSignature x = None" "length (concat parts) \<le> maxSignBuffer"
  shows "bindE (updateAll sh parts) (\<lambda>_. bindE (SignFinal sv sh) (handOut sh)) s
    = bindE (Sign sv sh (concat parts)) (handOut sh) s"
proof -
  let ?m = "sm_update (manager s) sh (\<lambda>y. y\<lparr>signBuffer := concat parts\<rparr>)"
  let ?x = "x\<lparr>signBuffer := concat parts\<rparr>"
  have run: "bindE (updateAll sh parts) g s = g () (s\<lparr>manager := ?m\<rparr>)" for g :: "unit \<Rightarrow> ('a, bytes) call"
    using updateAll_run [of s sh x parts] assms by (simp add: bindE_Inr)
  have x: "sm_get ?m sh = Some ?x" using assms(1) by (simp add: sm_get_update)
  have same: "signInternal sv ?x d = signInternal sv x d" for d
    by (simp add: signInternal_def)
  have core: "manager t = manager s" if "signInternal sv x d s = Returns (r, t)" for d r t
    using keepsD [OF core_sign(4) that] by (simp add: same_core_def)
  show ?thesis
    using assms x blindD [OF blind_signInternal, of sv x "concat parts" ?m s]
    by (simp add: run SignFinal_def Sign_def)
       (auto simp: finishSign_run same bindE_def catchE_def handOut_def
         clearSignStateByHandle_run clearSign_update throwE_def dest: core
         split: outcome.splits sum.splits prod.splits)
qed

theorem multipart_equals_single_witness:
  "bindE (updateAll 1 [[1], [], [2, 3]])
      (\<lambda>_. bindE (SignFinal (traced (example_services ok_server)) 1) (handOut 1))
      (signing_state CKM_SHA256_RSA_PKCS)
    = bindE (Sign (traced (example_services ok_server)) 1 [1, 2, 3]) (handOut 1)
      (signing_state CKM_SHA256_RSA_PKCS)"
  using multipart_equals_single [OF signing_state_session(1), of _ "[[1], [], [2, 3]]"]
  by (simp add: maxSignBuffer_def)

end
