(* ===== verification/Main_Api.thy ===== *)
theory Main_Api
  imports Sign_Ops
begin

text \<open>
  \<^verbatim>\<open>main.go\<close>: the exported functions. A pointer argument is an option, \<^const>\<open>None\<close> for NULL; what
  it points to is part of the argument, and the function returns it as it leaves it, together
  with the return code. A buffer is the list of its elements; writing past its end makes the
  list longer, so a bound on its length is a theorem about the code. A count the caller gives
  is compared with the length of a Go slice as a number: slices are shorter than 2^63, so
  the conversion \<^verbatim>\<open>uint(len(..))\<close> of the code is exact. The functions never return a Go error;
  a Go panic ends the process.
\<close>

section \<open>C memory\<close>

text \<open>
  \<^verbatim>\<open>C.GoBytes(p, C.int(n))\<close> and \<^verbatim>\<open>C.GoStringN\<close>: the length is converted to 32 bits first, and a
  negative length panics.
\<close>

definition goBytes :: "bytes \<Rightarrow> uint \<Rightarrow> bytes outcome" where
  "goBytes mem n = (if c_int n < 0 then Panics else Returns (take (nat (c_int n)) mem))"

definition liftOut :: "'a outcome \<Rightarrow> ('s, 'a) go" where
  "liftOut x = (case x of Panics \<Rightarrow> panicE | Returns a \<Rightarrow> returnE a)"

text \<open>
  \<^verbatim>\<open>copyPaddedString\<close>, \<^verbatim>\<open>copyBytes\<close> (\<^verbatim>\<open>pkcs11_types.h\<close>) and \<^verbatim>\<open>padded_copy\<close> (\<^verbatim>\<open>pkcs11_bridge.c\<close>) on
  \<^verbatim>\<open>C.CString(s)\<close>: blanks, overwritten with the string up to its first NUL.
\<close>

definition c_string :: "string \<Rightarrow> string" where
  "c_string s = takeWhile (\<lambda>c. c \<noteq> CHR 0x00) s"

definition copyPaddedString :: "string \<Rightarrow> nat \<Rightarrow> bytes" where
  "copyPaddedString src n =
     bytes_of_string (overwrite (take n (c_string src)) (replicate n CHR '' ''))"

text \<open>\<^verbatim>\<open>unsafe.Slice(p, n)\<close> on 8-byte elements: the size must be a 64-bit number. (Go also checks the
  end of the slice against the address space, which depends on the address of the array.)\<close>

definition sliceable :: "int \<Rightarrow> bool" where
  "sliceable n \<longleftrightarrow> 0 \<le> n \<and> n < 2 ^ 61"

section \<open>The frame of an exported function\<close>

definition checkInitialized :: "('w, ck_rv) call" where
  "checkInitialized =
     getE (\<lambda>st. if \<not> initialized st then CKR_CRYPTOKI_NOT_INITIALIZED else CKR_OK)"

text \<open>The first three lines of every function; \<open>mem\<close> is the memory it leaves untouched.\<close>

definition guarded :: "'m \<Rightarrow> ('w, ck_rv \<times> 'm) call \<Rightarrow> ('w, ck_rv \<times> 'm) call" where
  "guarded mem body =
     bindE checkInitialized (\<lambda>rv. if rv \<noteq> CKR_OK then returnE (rv, mem) else body)"

text \<open>\<^verbatim>\<open>if err != nil { return mapErrorToRV(err) }\<close>.\<close>

definition orElse ::
  "('s, 'a) go \<Rightarrow> 'm \<Rightarrow> ('a \<Rightarrow> ('s, ck_rv \<times> 'm) go) \<Rightarrow> ('s, ck_rv \<times> 'm) go" where
  "orElse f mem k =
     catchE f (\<lambda>r. case r of Inl err \<Rightarrow> returnE (mapErrorToRV err, mem) | Inr x \<Rightarrow> k x)"

section \<open>General functions\<close>

definition C_Initialize :: "'w services \<Rightarrow> ('w, ck_rv) call" where
  "C_Initialize sv =
     catchE (Initialize sv) (\<lambda>r.
       case r of
         Inl err \<Rightarrow> returnE (if errorsIs err ErrAlreadyInitialized
                            then CKR_CRYPTOKI_ALREADY_INITIALIZED else CKR_GENERAL_ERROR)
       | Inr _ \<Rightarrow> returnE CKR_OK)"

definition C_Finalize :: "('w, ck_rv \<times> unit) call" where
  "C_Finalize =
     guarded () (catchE Finalize (\<lambda>r.
       case r of Inl err \<Rightarrow> returnE (CKR_GENERAL_ERROR, ()) | Inr _ \<Rightarrow> returnE (CKR_OK, ())))"

record ck_info =
  cryptokiVersion :: "byte \<times> byte"
  ci_manufacturerID :: bytes
  ci_flags :: uint
  libraryDescription :: bytes
  libraryVersion :: "byte \<times> byte"

definition C_GetInfo :: "ck_info option \<Rightarrow> ('w, ck_rv \<times> ck_info option) call" where
  "C_GetInfo pInfo =
     (case pInfo of
        None \<Rightarrow> returnE (CKR_ARGUMENTS_BAD, None)
      | Some _ \<Rightarrow> returnE (CKR_OK, Some
          \<lparr>cryptokiVersion = (2, 40), ci_manufacturerID = copyPaddedString ''Infisical'' 32,
           ci_flags = 0, libraryDescription = copyPaddedString ''Infisical PKCS#11 Module'' 32,
           libraryVersion = (1, 0)\<rparr>))"

text \<open>
  The answer of the two functions that fill a list, \<^verbatim>\<open>C_GetSlotList\<close> and \<^verbatim>\<open>C_GetMechanismList\<close>:
  the count only, the list, or the count with an error.
\<close>

definition answerList ::
  "uint list \<Rightarrow> uint list option \<Rightarrow> uint \<Rightarrow> ('w, ck_rv \<times> uint list option \<times> uint option) call" where
  "answerList items pList count =
     (case pList of
        None \<Rightarrow> returnE (CKR_OK, None, Some (of_nat (length items)))
      | Some buf \<Rightarrow>
          if unat count < length items
          then returnE (CKR_BUFFER_TOO_SMALL, Some buf, Some (of_nat (length items)))
          else returnE (CKR_OK, Some (overwrite items buf), Some (of_nat (length items))))"

definition C_GetSlotList ::
  "'w services \<Rightarrow> byte \<Rightarrow> uint list option \<Rightarrow> uint option \<Rightarrow>
   ('w, ck_rv \<times> uint list option \<times> uint option) call" where
  "C_GetSlotList sv tokenPresent pSlotList pulCount =
     guarded (pSlotList, pulCount)
       (case pulCount of
          None \<Rightarrow> returnE (CKR_ARGUMENTS_BAD, pSlotList, pulCount)
        | Some count \<Rightarrow>
            orElse (GetSlotList sv (tokenPresent \<noteq> 0)) (pSlotList, pulCount) (\<lambda>slots.
              answerList slots pSlotList count))"

record ck_slot_info =
  slotDescription :: bytes
  cs_manufacturerID :: bytes
  cs_flags :: uint
  cs_hardwareVersion :: "byte \<times> byte"
  cs_firmwareVersion :: "byte \<times> byte"

definition C_GetSlotInfo ::
  "'w services \<Rightarrow> uint \<Rightarrow> ck_slot_info option \<Rightarrow> ('w, ck_rv \<times> ck_slot_info option) call" where
  "C_GetSlotInfo sv slot pInfo =
     guarded pInfo
       (if pInfo = None then returnE (CKR_ARGUMENTS_BAD, pInfo)
        else orElse (GetSlotInfo sv slot) pInfo (\<lambda>info. returnE (CKR_OK, Some
          \<lparr>slotDescription = copyPaddedString (si_SlotDescription info) 64,
           cs_manufacturerID = copyPaddedString (si_ManufacturerID info) 32,
           cs_flags = si_Flags info,
           cs_hardwareVersion = si_HardwareVersion info,
           cs_firmwareVersion = si_FirmwareVersion info\<rparr>)))"

record ck_token_info =
  tok_label :: bytes
  tok_manufacturerID :: bytes
  tok_model :: bytes
  tok_serialNumber :: bytes
  tok_flags :: uint
  ulMaxSessionCount :: uint
  ulSessionCount :: uint
  ulMaxRwSessionCount :: uint
  ulRwSessionCount :: uint
  ulMaxPinLen :: uint
  ulMinPinLen :: uint
  ulTotalPublicMemory :: uint
  ulFreePublicMemory :: uint
  ulTotalPrivateMemory :: uint
  ulFreePrivateMemory :: uint
  tok_hardwareVersion :: "byte \<times> byte"
  tok_firmwareVersion :: "byte \<times> byte"
  utcTime :: bytes

text \<open>The structure is zeroed first, so the time keeps zeros.\<close>

definition C_GetTokenInfo ::
  "'w services \<Rightarrow> uint \<Rightarrow> ck_token_info option \<Rightarrow> ('w, ck_rv \<times> ck_token_info option) call" where
  "C_GetTokenInfo sv slot pInfo =
     guarded pInfo
       (if pInfo = None then returnE (CKR_ARGUMENTS_BAD, pInfo)
        else orElse (GetTokenInfo sv slot) pInfo (\<lambda>info. returnE (CKR_OK, Some
          \<lparr>tok_label = copyPaddedString (ti_Label info) 32,
           tok_manufacturerID = copyPaddedString (ti_ManufacturerID info) 32,
           tok_model = copyPaddedString (ti_Model info) 16,
           tok_serialNumber = copyPaddedString (ti_SerialNumber info) 16,
           tok_flags = ti_Flags info,
           ulMaxSessionCount = ti_MaxSessionCount info,
           ulSessionCount = ti_SessionCount info,
           ulMaxRwSessionCount = ti_MaxSessionCount info, ulRwSessionCount = 0,
           ulMaxPinLen = ti_MaxPinLen info, ulMinPinLen = ti_MinPinLen info,
           ulTotalPublicMemory = NOT 0, ulFreePublicMemory = NOT 0,
           ulTotalPrivateMemory = NOT 0, ulFreePrivateMemory = NOT 0,
           tok_hardwareVersion = ti_HardwareVersion info,
           tok_firmwareVersion = ti_FirmwareVersion info, utcTime = replicate 16 0\<rparr>)))"

section \<open>Sessions\<close>

definition C_OpenSession ::
  "'w services \<Rightarrow> uint \<Rightarrow> uint \<Rightarrow> uint option \<Rightarrow> ('w, ck_rv \<times> uint option) call" where
  "C_OpenSession sv slot flags phSession =
     guarded phSession
       (if phSession = None then returnE (CKR_ARGUMENTS_BAD, phSession)
        else orElse (OpenSession sv slot flags) phSession (\<lambda>handle.
          returnE (CKR_OK, Some handle)))"

text \<open>A function without output: \<^verbatim>\<open>CKR_OK\<close>, or the code of the error.\<close>

definition simply :: "('w, unit) call \<Rightarrow> ('w, ck_rv \<times> unit) call" where
  "simply f = guarded () (orElse f () (\<lambda>_. returnE (CKR_OK, ())))"

definition C_CloseSession :: "uint \<Rightarrow> ('w, ck_rv \<times> unit) call" where
  "C_CloseSession hSession = simply (CloseSession hSession)"

definition C_CloseAllSessions :: "uint \<Rightarrow> ('w, ck_rv \<times> unit) call" where
  "C_CloseAllSessions slot = simply (updateManager (\<lambda>m. closeAllForSlot m slot))"

record ck_session_info =
  cse_slotID :: uint
  cse_state :: uint
  cse_flags :: uint
  ulDeviceError :: uint

definition C_GetSessionInfo ::
  "uint \<Rightarrow> ck_session_info option \<Rightarrow> ('w, ck_rv \<times> ck_session_info option) call" where
  "C_GetSessionInfo hSession pInfo =
     guarded pInfo
       (if pInfo = None then returnE (CKR_ARGUMENTS_BAD, pInfo)
        else orElse (GetSessionInfo hSession) pInfo (\<lambda>info. returnE (CKR_OK, Some
          \<lparr>cse_slotID = ss_SlotID info, cse_state = ss_State info, cse_flags = ss_Flags info,
           ulDeviceError = 0\<rparr>)))"

definition pinOf :: "bytes option \<Rightarrow> uint \<Rightarrow> string outcome" where
  "pinOf pPin ulPinLen =
     (case pPin of
        None \<Rightarrow> Returns []
      | Some mem \<Rightarrow>
          if ulPinLen > 0
          then (case goBytes mem ulPinLen of Panics \<Rightarrow> Panics | Returns b \<Rightarrow> Returns (string_of_bytes b))
          else Returns [])"

definition C_Login ::
  "'w services \<Rightarrow> uint \<Rightarrow> uint \<Rightarrow> bytes option \<Rightarrow> uint \<Rightarrow> ('w, ck_rv \<times> unit) call" where
  "C_Login sv hSession userType pPin ulPinLen =
     simply (bindE (liftOut (pinOf pPin ulPinLen)) (\<lambda>pin. Login sv hSession userType pin))"

definition C_Logout :: "uint \<Rightarrow> ('w, ck_rv \<times> unit) call" where
  "C_Logout hSession = simply (Logout hSession)"

section \<open>Mechanisms\<close>

definition C_GetMechanismList ::
  "'w services \<Rightarrow> uint \<Rightarrow> uint list option \<Rightarrow> uint option \<Rightarrow>
   ('w, ck_rv \<times> uint list option \<times> uint option) call" where
  "C_GetMechanismList sv slot pMechanismList pulCount =
     guarded (pMechanismList, pulCount)
       (case pulCount of
          None \<Rightarrow> returnE (CKR_ARGUMENTS_BAD, pMechanismList, pulCount)
        | Some count \<Rightarrow>
            orElse (GetMechanismList sv slot) (pMechanismList, pulCount) (\<lambda>mechs.
              answerList mechs pMechanismList count))"

record ck_mechanism_info =
  ulMinKeySize :: uint
  ulMaxKeySize :: uint
  cm_flags :: uint

definition C_GetMechanismInfo ::
  "uint \<Rightarrow> uint \<Rightarrow> ck_mechanism_info option \<Rightarrow> ('w, ck_rv \<times> ck_mechanism_info option) call" where
  "C_GetMechanismInfo slot mechType pInfo =
     guarded pInfo
       (if pInfo = None then returnE (CKR_ARGUMENTS_BAD, pInfo)
        else returnE (CKR_OK, Some
          (if List.member ecMechanisms mechType
           then \<lparr>ulMinKeySize = 256, ulMaxKeySize = 521, cm_flags = CKF_SIGN\<rparr>
           else \<lparr>ulMinKeySize = 2048, ulMaxKeySize = 4096, cm_flags = CKF_SIGN\<rparr>)))"

section \<open>Objects\<close>

definition maxTemplateAttrs :: uint where [const_vals]: "maxTemplateAttrs = 256"

record ck_attribute =
  attr_type :: uint
  attr_pValue :: "bytes option"
  attr_vallen :: uint

text \<open>The loop of \<^verbatim>\<open>C_FindObjectsInit\<close>: a NULL pointer or a length of 0 give a nil slice.\<close>

fun readTemplate :: "ck_attribute list \<Rightarrow> Attribute list outcome" where
  "readTemplate [] = Returns []"
| "readTemplate (a # as) =
     (case (case attr_pValue a of
              None \<Rightarrow> Returns None
            | Some mem \<Rightarrow>
                if attr_vallen a > 0
                then (case goBytes mem (attr_vallen a) of Panics \<Rightarrow> Panics | Returns b \<Rightarrow> Returns (Some b))
                else Returns None) of
        Panics \<Rightarrow> Panics
      | Returns val \<Rightarrow>
          (case readTemplate as of
             Panics \<Rightarrow> Panics
           | Returns attrs \<Rightarrow> Returns (\<lparr>Type = attr_type a, Value = val\<rparr> # attrs)))"

definition C_FindObjectsInit ::
  "'w services \<Rightarrow> uint \<Rightarrow> ck_attribute list option \<Rightarrow> uint \<Rightarrow> ('w, ck_rv \<times> unit) call" where
  "C_FindObjectsInit sv hSession pTemplate ulCount =
     guarded ()
       (if ulCount > maxTemplateAttrs then returnE (CKR_ARGUMENTS_BAD, ())
        else
          bindE (liftOut (case pTemplate of
              None \<Rightarrow> Returns []
            | Some base \<Rightarrow> readTemplate (take (unat ulCount) base))) (\<lambda>attrs.
          orElse (FindObjectsInit sv hSession attrs) () (\<lambda>_. returnE (CKR_OK, ()))))"

definition C_FindObjects ::
  "uint \<Rightarrow> uint list option \<Rightarrow> uint \<Rightarrow> uint option \<Rightarrow>
   ('w, ck_rv \<times> uint list option \<times> uint option) call" where
  "C_FindObjects hSession phObject ulMaxObjectCount pulObjectCount =
     guarded (phObject, pulObjectCount)
       (case (phObject, pulObjectCount) of
          (Some buf, Some count) \<Rightarrow>
            orElse (FindObjects hSession (go_int ulMaxObjectCount)) (phObject, pulObjectCount) (\<lambda>objects.
              if \<not> sliceable (go_int ulMaxObjectCount) then panicE
              else returnE (CKR_OK, Some (overwrite objects buf), Some (of_nat (length objects))))
        | _ \<Rightarrow> returnE (CKR_ARGUMENTS_BAD, phObject, pulObjectCount))"

definition C_FindObjectsFinal :: "uint \<Rightarrow> ('w, ck_rv \<times> unit) call" where
  "C_FindObjectsFinal hSession = simply (FindObjectsFinal hSession)"

text \<open>
  The loop of \<^verbatim>\<open>C_GetAttributeValue\<close> over the results: the length where the pointer is NULL or
  the value is empty, the value and its length where it fits, and the end of the loop with an
  error where it does not.
\<close>

fun copyResults :: "Attribute list \<Rightarrow> ck_attribute list \<Rightarrow> ck_rv \<times> ck_attribute list" where
  "copyResults (r # rs) (a # as) =
     (let val = (case Value r of None \<Rightarrow> [] | Some v \<Rightarrow> v);
          valLen = of_nat (length val)
      in case attr_pValue a of
           None \<Rightarrow> (case copyResults rs as of (rv, bs) \<Rightarrow> (rv, a\<lparr>attr_vallen := valLen\<rparr> # bs))
         | Some mem \<Rightarrow>
             if val = [] then
               (case copyResults rs as of (rv, bs) \<Rightarrow> (rv, a\<lparr>attr_vallen := 0\<rparr> # bs))
             else if unat (attr_vallen a) \<ge> length val then
               (case copyResults rs as of (rv, bs) \<Rightarrow>
                  (rv, a\<lparr>attr_pValue := Some (overwrite val mem), attr_vallen := valLen\<rparr> # bs))
             else (CKR_BUFFER_TOO_SMALL, a\<lparr>attr_vallen := valLen\<rparr> # as))"
| "copyResults _ as = (CKR_OK, as)"

definition C_GetAttributeValue ::
  "'w services \<Rightarrow> uint \<Rightarrow> uint \<Rightarrow> ck_attribute list option \<Rightarrow> uint \<Rightarrow>
   ('w, ck_rv \<times> ck_attribute list option) call" where
  "C_GetAttributeValue sv hSession hObject pTemplate ulCount =
     guarded pTemplate
       (case pTemplate of
          None \<Rightarrow> returnE (CKR_ARGUMENTS_BAD, pTemplate)
        | Some base \<Rightarrow>
            if ulCount > maxTemplateAttrs then returnE (CKR_ARGUMENTS_BAD, pTemplate)
            else
              let attrs = take (unat ulCount) base;
                  template = map (\<lambda>a. \<lparr>Type = attr_type a, Value = None\<rparr>) attrs
              in orElse (GetAttributeValue sv hSession hObject template) pTemplate (\<lambda>results.
                   case copyResults results attrs of
                     (rv, attrs') \<Rightarrow> returnE (rv, Some (attrs' @ drop (unat ulCount) base))))"

section \<open>Signing\<close>

text \<open>The mechanism structure, of which only the type is read.\<close>

definition C_SignInit :: "uint \<Rightarrow> uint option \<Rightarrow> uint \<Rightarrow> ('w, ck_rv \<times> unit) call" where
  "C_SignInit hSession pMechanism hKey =
     guarded ()
       (case pMechanism of
          None \<Rightarrow> returnE (CKR_ARGUMENTS_BAD, ())
        | Some mechType \<Rightarrow>
            catchE (SignInit hSession [mechType] hKey) (\<lambda>r.
              case r of
                Inl err \<Rightarrow>
                  if errorsIs err ErrNotLoggedIn then returnE (CKR_USER_NOT_LOGGED_IN, ())
                  else returnE (mapErrorToRV err, ())
              | Inr _ \<Rightarrow> returnE (CKR_OK, ())))"

text \<open>
  The size query and the end that \<^verbatim>\<open>C_Sign\<close> and \<^verbatim>\<open>C_SignFinal\<close> share: the signature is kept when
  it does not fit; taking the address of the first byte of an empty one panics.
\<close>

type_synonym signature_out = "bytes option \<times> uint option"

definition querySize :: "'w services \<Rightarrow> uint \<Rightarrow> ('w, ck_rv \<times> signature_out) call" where
  "querySize sv sh =
     bindE (EstimateSignatureSize sv sh) (\<lambda>size. returnE (CKR_OK, None, Some (of_nat size)))"

definition handSignature ::
  "uint \<Rightarrow> bytes \<Rightarrow> uint \<Rightarrow> bytes \<Rightarrow> ('w, ck_rv \<times> signature_out) call" where
  "handSignature sh buf len sig =
     (if unat len < length sig then
        bindE (cacheSignResult sh sig) (\<lambda>_.
          returnE (CKR_BUFFER_TOO_SMALL, Some buf, Some (of_nat (length sig))))
      else if sig = [] then panicE
      else
        bindE (clearSignStateByHandle sh) (\<lambda>_.
          returnE (CKR_OK, Some (overwrite sig buf), Some (of_nat (length sig)))))"

definition C_Sign ::
  "'w services \<Rightarrow> uint \<Rightarrow> bytes option \<Rightarrow> uint \<Rightarrow> bytes option \<Rightarrow> uint option \<Rightarrow>
   ('w, ck_rv \<times> signature_out) call" where
  "C_Sign sv hSession pData ulDataLen pSignature pulSignatureLen =
     guarded (pSignature, pulSignatureLen)
       (case (pData, pulSignatureLen) of
          (Some mem, Some len) \<Rightarrow>
            (case pSignature of
               None \<Rightarrow> querySize sv hSession
             | Some buf \<Rightarrow>
                 bindE (liftOut (goBytes mem ulDataLen)) (\<lambda>data.
                 orElse (Sign sv hSession data) (pSignature, pulSignatureLen) (\<lambda>sig.
                   handSignature hSession buf len sig)))
        | _ \<Rightarrow> returnE (CKR_ARGUMENTS_BAD, pSignature, pulSignatureLen))"

definition C_SignUpdate :: "uint \<Rightarrow> bytes option \<Rightarrow> uint \<Rightarrow> ('w, ck_rv \<times> unit) call" where
  "C_SignUpdate hSession pPart ulPartLen =
     guarded ()
       (case pPart of
          None \<Rightarrow> returnE (CKR_ARGUMENTS_BAD, ())
        | Some mem \<Rightarrow>
            bindE (liftOut (goBytes mem ulPartLen)) (\<lambda>data.
            orElse (SignUpdate hSession data) () (\<lambda>_. returnE (CKR_OK, ()))))"

definition C_SignFinal ::
  "'w services \<Rightarrow> uint \<Rightarrow> bytes option \<Rightarrow> uint option \<Rightarrow> ('w, ck_rv \<times> signature_out) call" where
  "C_SignFinal sv hSession pSignature pulSignatureLen =
     guarded (pSignature, pulSignatureLen)
       (case pulSignatureLen of
          None \<Rightarrow> returnE (CKR_ARGUMENTS_BAD, pSignature, pulSignatureLen)
        | Some len \<Rightarrow>
            (case pSignature of
               None \<Rightarrow> querySize sv hSession
             | Some buf \<Rightarrow>
                 orElse (SignFinal sv hSession) (pSignature, pulSignatureLen) (\<lambda>sig.
                   handSignature hSession buf len sig)))"

text \<open>The functions the module exports and does not support.\<close>

datatype unsupported_function =
    C_InitToken | C_InitPIN | C_SetPIN | C_CreateObject | C_DestroyObject | C_CopyObject
  | C_SetAttributeValue | C_EncryptInit | C_Encrypt | C_DecryptInit | C_Decrypt | C_DigestInit
  | C_Digest | C_VerifyInit | C_Verify | C_GenerateKeyPair | C_GenerateKey | C_WrapKey
  | C_UnwrapKey | C_SeedRandom | C_GenerateRandom | C_GetObjectSize | C_GetOperationState
  | C_SetOperationState | C_EncryptUpdate | C_EncryptFinal | C_DecryptUpdate | C_DecryptFinal
  | C_DigestUpdate | C_DigestKey | C_DigestFinal | C_SignRecoverInit | C_SignRecover
  | C_VerifyUpdate | C_VerifyFinal | C_VerifyRecoverInit | C_VerifyRecover | C_DeriveKey
  | C_WaitForSlotEvent

definition notSupported :: "unsupported_function \<Rightarrow> ('w, ck_rv) call" where
  "notSupported f = returnE CKR_FUNCTION_NOT_SUPPORTED"

section \<open>How the frame runs\<close>

lemma checkInitialized_run [simp]:
  "bindE checkInitialized k s =
     k (if initialized s then CKR_OK else CKR_CRYPTOKI_NOT_INITIALIZED) s"
  by (simp add: checkInitialized_def)

lemma guarded_run:
  "guarded mem body s =
     (if initialized s then body s else Returns (Inr (CKR_CRYPTOKI_NOT_INITIALIZED, mem), s))"
  by (simp add: guarded_def const_vals)

lemma orElse_run:
  "orElse f mem k s =
     (case f s of
        Panics \<Rightarrow> Panics
      | Returns (Inl err, t) \<Rightarrow> Returns (Inr (mapErrorToRV err, mem), t)
      | Returns (Inr x, t) \<Rightarrow> k x t)"
  by (auto simp: orElse_def catchE_def split: outcome.splits sum.splits)

lemma simply_run:
  "simply f s =
     (if \<not> initialized s then Returns (Inr (CKR_CRYPTOKI_NOT_INITIALIZED, ()), s)
      else case f s of
        Panics \<Rightarrow> Panics
      | Returns (Inl err, t) \<Rightarrow> Returns (Inr (mapErrorToRV err, ()), t)
      | Returns (Inr _, t) \<Rightarrow> Returns (Inr (CKR_OK, ()), t))"
  by (auto simp: simply_def guarded_run orElse_run split: outcome.splits sum.splits)

context frame_relation
begin

lemmas keeps_refl [preserves] = refl

lemma keeps_liftOut [preserves]: "keeps R (liftOut x)"
  by (simp add: liftOut_def keeps_panic keeps_return split: outcome.splits)

lemma keeps_orElse [preserves]: "keeps R f \<Longrightarrow> (\<And>x. keeps R (k x)) \<Longrightarrow> keeps R (orElse f mem k)"
  unfolding orElse_def by (intro keeps_catch) (auto intro: keeps_return split: sum.splits)

end

lemma keeps_guarded [preserves]:
  "(\<And>s. R s s) \<Longrightarrow> keeps R body \<Longrightarrow> keeps R (guarded mem body)"
  by (auto simp: keeps_def guarded_run split: if_splits)

end
