(* ===== verification/Module.thy ===== *)
theory Module
  imports Main_Api
begin

text \<open>
  The module as one machine: a call of any exported function with its arguments, what the
  call does to the state and to the caller's memory, and the states a process that makes
  such calls can reach.
\<close>

section \<open>Calls\<close>

text \<open>The memory a call is given to write to.\<close>

datatype memory =
    NoMemory
  | InfoMemory "ck_info option"
  | ListMemory "uint list option" "uint option"
  | SlotMemory "ck_slot_info option"
  | TokenMemory "ck_token_info option"
  | HandleMemory "uint option"
  | SessionMemory "ck_session_info option"
  | MechanismMemory "ck_mechanism_info option"
  | TemplateMemory "ck_attribute list option"
  | SignatureMemory "bytes option" "uint option"

datatype api_call =
    InitializeCall
  | FinalizeCall
  | GetInfoCall "ck_info option"
  | GetSlotListCall byte "uint list option" "uint option"
  | GetSlotInfoCall uint "ck_slot_info option"
  | GetTokenInfoCall uint "ck_token_info option"
  | OpenSessionCall uint uint "uint option"
  | CloseSessionCall uint
  | CloseAllSessionsCall uint
  | GetSessionInfoCall uint "ck_session_info option"
  | LoginCall uint uint "bytes option" uint
  | LogoutCall uint
  | GetMechanismListCall uint "uint list option" "uint option"
  | GetMechanismInfoCall uint uint "ck_mechanism_info option"
  | FindObjectsInitCall uint "ck_attribute list option" uint
  | FindObjectsCall uint "uint list option" uint "uint option"
  | FindObjectsFinalCall uint
  | GetAttributeValueCall uint uint "ck_attribute list option" uint
  | SignInitCall uint "uint option" uint
  | SignCall uint "bytes option" uint "bytes option" "uint option"
  | SignUpdateCall uint "bytes option" uint
  | SignFinalCall uint "bytes option" "uint option"
  | UnsupportedCall unsupported_function

fun memoryOf :: "api_call \<Rightarrow> memory" where
  "memoryOf (GetInfoCall p) = InfoMemory p"
| "memoryOf (GetSlotListCall b p n) = ListMemory p n"
| "memoryOf (GetSlotInfoCall i p) = SlotMemory p"
| "memoryOf (GetTokenInfoCall i p) = TokenMemory p"
| "memoryOf (OpenSessionCall i f p) = HandleMemory p"
| "memoryOf (GetSessionInfoCall h p) = SessionMemory p"
| "memoryOf (GetMechanismListCall i p n) = ListMemory p n"
| "memoryOf (GetMechanismInfoCall i m p) = MechanismMemory p"
| "memoryOf (FindObjectsCall h p k n) = ListMemory p n"
| "memoryOf (GetAttributeValueCall h obj p n) = TemplateMemory p"
| "memoryOf (SignCall h d dl p n) = SignatureMemory p n"
| "memoryOf (SignFinalCall h p n) = SignatureMemory p n"
| "memoryOf _ = NoMemory"

definition withMemory :: "('m \<Rightarrow> memory) \<Rightarrow> ('s, ck_rv \<times> 'm) go \<Rightarrow> ('s, ck_rv \<times> memory) go" where
  "withMemory k f = bindE f (\<lambda>(rv, m). returnE (rv, k m))"

definition withoutMemory :: "('s, ck_rv) go \<Rightarrow> ('s, ck_rv \<times> memory) go" where
  "withoutMemory f = bindE f (\<lambda>rv. returnE (rv, NoMemory))"

text \<open>The table of functions an application calls through.\<close>

fun exec :: "'w services \<Rightarrow> api_call \<Rightarrow> ('w, ck_rv \<times> memory) call" where
  "exec sv InitializeCall = withoutMemory (C_Initialize sv)"
| "exec sv FinalizeCall = withMemory (\<lambda>_. NoMemory) C_Finalize"
| "exec sv (GetInfoCall p) = withMemory InfoMemory (C_GetInfo p)"
| "exec sv (GetSlotListCall b p n) = withMemory (case_prod ListMemory) (C_GetSlotList sv b p n)"
| "exec sv (GetSlotInfoCall i p) = withMemory SlotMemory (C_GetSlotInfo sv i p)"
| "exec sv (GetTokenInfoCall i p) = withMemory TokenMemory (C_GetTokenInfo sv i p)"
| "exec sv (OpenSessionCall i f p) = withMemory HandleMemory (C_OpenSession sv i f p)"
| "exec sv (CloseSessionCall h) = withMemory (\<lambda>_. NoMemory) (C_CloseSession h)"
| "exec sv (CloseAllSessionsCall i) = withMemory (\<lambda>_. NoMemory) (C_CloseAllSessions i)"
| "exec sv (GetSessionInfoCall h p) = withMemory SessionMemory (C_GetSessionInfo h p)"
| "exec sv (LoginCall h u p n) = withMemory (\<lambda>_. NoMemory) (C_Login sv h u p n)"
| "exec sv (LogoutCall h) = withMemory (\<lambda>_. NoMemory) (C_Logout h)"
| "exec sv (GetMechanismListCall i p n) =
     withMemory (case_prod ListMemory) (C_GetMechanismList sv i p n)"
| "exec sv (GetMechanismInfoCall i m p) = withMemory MechanismMemory (C_GetMechanismInfo i m p)"
| "exec sv (FindObjectsInitCall h p n) = withMemory (\<lambda>_. NoMemory) (C_FindObjectsInit sv h p n)"
| "exec sv (FindObjectsCall h p k n) = withMemory (case_prod ListMemory) (C_FindObjects h p k n)"
| "exec sv (FindObjectsFinalCall h) = withMemory (\<lambda>_. NoMemory) (C_FindObjectsFinal h)"
| "exec sv (GetAttributeValueCall h obj p n) =
     withMemory TemplateMemory (C_GetAttributeValue sv h obj p n)"
| "exec sv (SignInitCall h m k) = withMemory (\<lambda>_. NoMemory) (C_SignInit h m k)"
| "exec sv (SignCall h d dl p n) =
     withMemory (case_prod SignatureMemory) (C_Sign sv h d dl p n)"
| "exec sv (SignUpdateCall h p n) = withMemory (\<lambda>_. NoMemory) (C_SignUpdate h p n)"
| "exec sv (SignFinalCall h p n) =
     withMemory (case_prod SignatureMemory) (C_SignFinal sv h p n)"
| "exec sv (UnsupportedCall f) = withoutMemory (notSupported f)"

lemma withMemory_run:
  "withMemory k f s =
     (case f s of
        Panics \<Rightarrow> Panics
      | Returns (Inl e, t) \<Rightarrow> Returns (Inl e, t)
      | Returns (Inr (rv, m), t) \<Rightarrow> Returns (Inr (rv, k m), t))"
  by (auto simp: withMemory_def bindE_def catchE_def throwE_def split: outcome.splits sum.splits)

lemma withoutMemory_run:
  "withoutMemory f s =
     (case f s of
        Panics \<Rightarrow> Panics
      | Returns (Inl e, t) \<Rightarrow> Returns (Inl e, t)
      | Returns (Inr rv, t) \<Rightarrow> Returns (Inr (rv, NoMemory), t))"
  by (auto simp: withoutMemory_def bindE_def catchE_def throwE_def split: outcome.splits sum.splits)

context frame_relation
begin

lemma keeps_withMemory [preserves]:
  "keeps R f \<Longrightarrow> keeps R (withMemory k f)" "keeps R g \<Longrightarrow> keeps R (withoutMemory g)"
  unfolding withMemory_def withoutMemory_def
  by (intro keeps_bind; auto intro: keeps_return split: prod.splits)+

end

lemmas api_defs = C_Finalize_def C_GetInfo_def C_GetSlotList_def C_GetSlotInfo_def
  C_GetTokenInfo_def C_OpenSession_def C_CloseSession_def C_CloseAllSessions_def
  C_GetSessionInfo_def C_Login_def C_Logout_def C_GetMechanismList_def C_GetMechanismInfo_def
  C_FindObjectsInit_def C_FindObjects_def C_FindObjectsFinal_def C_GetAttributeValue_def
  C_SignInit_def C_Sign_def C_SignUpdate_def C_SignFinal_def notSupported_def simply_def
  answerList_def querySize_def handSignature_def Let_def

section \<open>Calls that only read\<close>

definition signs :: "api_call \<Rightarrow> bool" where
  "signs c \<longleftrightarrow> (case c of SignCall _ _ _ _ _ \<Rightarrow> True | SignFinalCall _ _ _ \<Rightarrow> True | _ \<Rightarrow> False)"

context observed_services
begin

lemma reads_sign_state [preserves]:
  "keeps (sends log reading) (SignInit h m k)" "keeps (sends log reading) (SignUpdate h d)"
  "keeps (sends log reading) (EstimateSignatureSize sv h)"
  "keeps (sends log reading) Finalize"
  unfolding SignInit_def SignUpdate_def EstimateSignatureSize_def updateSession_def Finalize_def
  by (intro preserves keeps_modify | simp add: sends_nothing)+

lemma reads_exec:
  assumes "\<not> signs c" "c \<noteq> InitializeCall"
  shows "keeps (sends log reading) (exec sv c)"
  using assms
  by (cases c; simp add: signs_def; unfold api_defs; intro preserves)

end

text \<open>\<^verbatim>\<open>C_Initialize\<close> sends nothing over HTTP; only the SDK logs in.\<close>

context observed_services
begin

lemma Initialize_log:
  assumes "Initialize sv s = Returns (r, t)"
  shows "log (world t) = log (world s)"
  using assms
  by (auto simp: Initialize_def signingCtx_def split: prod.splits if_split_asm
      elim!: bindE_ReturnsE catchE_ReturnsE dest!: authenticate_log)

lemma exec_reads:
  assumes "exec sv c s = Returns (r, t)" "\<not> signs c"
  shows "\<exists>xs. log (world t) = log (world s) @ xs \<and> (\<forall>x \<in> set xs. reading (httpClient (client s)) x)"
proof (cases "c = InitializeCall")
  case True
  with assms(1) have "log (world t) = log (world s)"
    by (auto simp: C_Initialize_def withoutMemory_def split: sum.splits
        elim!: bindE_ReturnsE catchE_ReturnsE dest!: Initialize_log)
  then show ?thesis by (intro exI [of _ "[]"]) simp
next
  case False
  from keepsD [OF reads_exec [OF assms(2) False] assms(1)] show ?thesis by (simp add: sends_def)
qed

end

section \<open>Calls on one session\<close>

text \<open>The calls that leave the slot and the login of their session as they are, and the session.\<close>

fun own_session :: "api_call \<Rightarrow> uint option" where
  "own_session (FindObjectsInitCall h p n) = Some h"
| "own_session (FindObjectsCall h p k n) = Some h"
| "own_session (FindObjectsFinalCall h) = Some h"
| "own_session (GetAttributeValueCall h obj p n) = Some h"
| "own_session (GetSessionInfoCall h p) = Some h"
| "own_session (SignInitCall h m k) = Some h"
| "own_session (SignCall h d dl p n) = Some h"
| "own_session (SignUpdateCall h p n) = Some h"
| "own_session (SignFinalCall h p n) = Some h"
| "own_session _ = None"

lemmas touches_session_queries [preserves] =
  core_getSession(2) [THEN keeps_touches] core_GetAttributeValue [THEN keeps_touches]

lemma touches_exec: "own_session c = Some h \<Longrightarrow> keeps (touches h) (exec sv c)"
  by (cases c; simp; unfold api_defs; intro preserves; simp)

text \<open>
  All the calls that take a session handle, and the session: those above, the end of a session,
  and login and logout. The last two also give the sessions of the slot their new login.
\<close>

fun session_of :: "api_call \<Rightarrow> uint option" where
  "session_of (CloseSessionCall h) = Some h"
| "session_of (LoginCall h u p n) = Some h"
| "session_of (LogoutCall h) = Some h"
| "session_of c = own_session c"

fun login_flag :: "api_call \<Rightarrow> bool option" where
  "login_flag (LoginCall h u p n) = Some True"
| "login_flag (LogoutCall h) = Some False"
| "login_flag c = None"

lemma session_calls:
  assumes "session_of c = Some h"
  obtains (own) "own_session c = Some h" | (close) "c = CloseSessionCall h"
    | (login) u p n where "c = LoginCall h u p n" | (logout) "c = LogoutCall h"
  using assms by (cases c) auto

text \<open>What a login or logout does to the sessions.\<close>

definition slot_login :: "uint \<Rightarrow> bool \<Rightarrow> 'w backend \<Rightarrow> 'w backend \<Rightarrow> bool" where
  "slot_login h b s t \<longleftrightarrow> (\<exists>x. sm_get (manager s) h = Some x \<and>
     (\<forall>h'. sm_get (manager t) h' =
        map_option (\<lambda>y. if slotID y = slotID x then y\<lparr>loggedIn := b\<rparr> else y) (sm_get (manager s) h')))"

text \<open>What a login may do to the configuration.\<close>

definition config_frame :: "'w backend \<Rightarrow> 'w backend \<Rightarrow> bool" where
  "config_frame s t \<longleftrightarrow> initialized t = initialized s \<and> (\<exists>a. config t = (config s)\<lparr>Auth := a\<rparr>)"

lemma auth_same: "\<exists>a. c = (c :: Config)\<lparr>Auth := a\<rparr>"
  by (rule exI [where x = "Auth c"]) simp

interpretation auth: frame_relation config_frame
proof unfold_locales
  fix s show "config_frame s s" by (simp add: config_frame_def auth_same)
next
  fix s t u show "config_frame s t \<Longrightarrow> config_frame t u \<Longrightarrow> config_frame s u"
    by (auto simp: config_frame_def)
qed

lemma config_frame_core: "keeps same_core f \<Longrightarrow> keeps config_frame f"
  by (auto simp: keeps_def same_core_def config_frame_def auth_same)

lemma config_frame_Login: "keeps config_frame (Login sv h u pin)"
proof -
  have "keeps config_frame (loginSlot h slot)" for slot
    by (auto simp: keeps_def loginSlot_run config_frame_def auth_same)
  moreover have "keeps config_frame (setConfigToken p)" for p
    unfolding setConfigToken_def by (rule keeps_modify) (auto simp: config_frame_def)
  ultimately show ?thesis
    unfolding Login_def
    by (intro preserves core_getSession(1) [THEN config_frame_core] core_authenticate [THEN config_frame_core] core_accessToken [THEN config_frame_core])
qed

lemma slot_login_at:
  assumes "slot_login h b s t"
  shows "sm_get (manager t) k = sm_get (manager s) k
      \<or> (\<exists>x y. sm_get (manager s) h = Some x \<and> sm_get (manager s) k = Some y \<and> slotID y = slotID x
          \<and> sm_get (manager t) k = Some (y\<lparr>loggedIn := b\<rparr>))"
    "\<exists>x. sm_get (manager s) h = Some x \<and> sm_get (manager t) h = Some (x\<lparr>loggedIn := b\<rparr>)"
proof -
  from assms obtain x where x: "sm_get (manager s) h = Some x" "sm_get (manager t) k =
      map_option (\<lambda>y. if slotID y = slotID x then y\<lparr>loggedIn := b\<rparr> else y) (sm_get (manager s) k)" for k
    unfolding slot_login_def by blast
  show "sm_get (manager t) k = sm_get (manager s) k
      \<or> (\<exists>x y. sm_get (manager s) h = Some x \<and> sm_get (manager s) k = Some y \<and> slotID y = slotID x
          \<and> sm_get (manager t) k = Some (y\<lparr>loggedIn := b\<rparr>))"
    using x(1) by (cases "sm_get (manager s) k") (simp_all add: x(2))
  show "\<exists>x. sm_get (manager s) h = Some x \<and> sm_get (manager t) h = Some (x\<lparr>loggedIn := b\<rparr>)"
    using x(1) by (simp add: x(2))
qed

lemma runs_LoginCall:
  assumes "exec sv (LoginCall h u p n) s = Returns (r, t)"
  shows "manager t = manager s \<and> config t = config s \<or> slot_login h True s t" "config_frame s t"
proof -
  consider "t = s" | pin q where "Login sv h u pin s = Returns (q, t)"
    using assms
    by (auto simp: withMemory_run C_Login_def simply_run liftOut_def bindE_def catchE_def
        split: outcome.splits sum.splits if_splits)
  then have "(manager t = manager s \<and> config t = config s \<or> slot_login h True s t) \<and> config_frame s t"
  proof cases
    case (2 pin q)
    note frame = keepsD [OF config_frame_Login 2]
    from 2 show ?thesis
      by (cases rule: Login_cases) (use frame in \<open>auto simp: slot_login_def loginSlot_run loginSlot_sessions\<close>)
  qed (simp add: auth.refl)
  then show "manager t = manager s \<and> config t = config s \<or> slot_login h True s t" "config_frame s t"
    by auto
qed

lemma runs_LogoutCall:
  assumes "exec sv (LogoutCall h) s = Returns (r, t)"
  shows "t = s \<or> slot_login h False s t" "config t = config s" "initialized t = initialized s"
  using assms
  by (auto simp: withMemory_run C_Logout_def simply_run Logout_def bind_getSession slot_login_def
      setAllLoggedInForSlot_def sm_get_def fun_eq_iff split: option.splits if_splits)

lemma runs_CloseSessionCall:
  assumes "exec sv (CloseSessionCall h) s = Returns (r, t)"
  shows "t = s \<or> t = s\<lparr>manager := snd (sm_close (manager s) h)\<rparr>"
  using assms
  by (auto simp: withMemory_run C_CloseSession_def simply_run CloseSession_def bindE_Inr
      split: if_splits prod.splits)

section \<open>Calls that change no session\<close>

fun queries :: "api_call \<Rightarrow> bool" where
  "queries (GetInfoCall p) = True"
| "queries (GetSlotListCall b p n) = True"
| "queries (GetSlotInfoCall i p) = True"
| "queries (GetTokenInfoCall i p) = True"
| "queries (GetSessionInfoCall h p) = True"
| "queries (GetMechanismListCall i p n) = True"
| "queries (GetMechanismInfoCall i m p) = True"
| "queries (GetAttributeValueCall h obj p n) = True"
| "queries (UnsupportedCall f) = True"
| "queries _ = False"

lemma core_exec: "queries c \<Longrightarrow> keeps same_core (exec sv c)"
  by (cases c; simp; unfold api_defs; intro preserves)

section \<open>Panics\<close>

lemma safe_frame [safety]:
  "safe body \<Longrightarrow> safe (guarded mem body)"
  "safe f \<Longrightarrow> (\<And>x. safe (k x)) \<Longrightarrow> safe (orElse f mem k)"
  "safe c \<Longrightarrow> safe (withMemory g c)" "safe d \<Longrightarrow> safe (withoutMemory d)"
proof -
  show "safe (guarded mem body)" if "safe body"
    using that by (simp add: safe_def guarded_run)
  show "safe (orElse f mem k)" if "safe f" "\<And>x. safe (k x)"
    using that unfolding orElse_def by (intro safety)
  show "safe (withMemory g c)" if "safe c"
    using that unfolding withMemory_def by (intro safety)
  show "safe (withoutMemory d)" if "safe d"
    using that unfolding withoutMemory_def by (intro safety)
qed

lemma goBytes_small: "unat n < 2 ^ 31 \<Longrightarrow> goBytes mem n = Returns (take (unat n) mem)"
  by (simp add: goBytes_def c_int_small)

lemma safe_liftOut: "x \<noteq> Panics \<Longrightarrow> safe (liftOut x)"
  by (cases x) (auto simp: liftOut_def safety)

lemma pinOf_small: "unat n < 2 ^ 31 \<Longrightarrow> pinOf p n \<noteq> Panics"
  by (simp add: pinOf_def goBytes_small split: option.splits)

lemma readTemplate_small:
  "\<forall>a \<in> set as. unat (attr_vallen a) < 2 ^ 31 \<Longrightarrow> readTemplate as \<noteq> Panics"
  by (induction as) (auto simp: goBytes_small split: option.splits outcome.splits)

lemma safe_Finalize [safety]: "safe Finalize"
  unfolding Finalize_def by (intro safety)

lemma sliceable_small: "unat n < 2 ^ 61 \<Longrightarrow> sliceable (go_int n)"
  using uint_lessI [of n 61] by (simp add: sliceable_def go_int_small)

section \<open>Every call returns a code\<close>

text \<open>No call ends with a Go error: each becomes a return code.\<close>

definition coded :: "('s, 'a) go \<Rightarrow> bool" where
  "coded f \<longleftrightarrow> (\<forall>s e t. f s \<noteq> Returns (Inl e, t))"

named_theorems codes "calls that turn every error into a code"

lemma coded_basic [codes]: "coded (returnE x)" "coded panicE" "coded (getE f)"
  by (simp_all add: coded_def)

lemma coded_catch [codes]: "(\<And>r. coded (h r)) \<Longrightarrow> coded (catchE f h)"
  by (auto simp: coded_def catchE_def split: outcome.splits)

lemma coded_bind [codes]: "coded f \<Longrightarrow> (\<And>x. coded (g x)) \<Longrightarrow> coded (bindE f g)"
  unfolding bindE_def coded_def
  by (auto simp: catchE_def throwE_def split: outcome.splits sum.splits)

lemma coded_state [codes]:
  "coded (updateSession h f)" "coded (cacheSignResult h sig)" "coded (clearSignStateByHandle h)"
  "coded (liftOut x)" "coded checkInitialized"
  by (auto simp: coded_def updateSession_def cacheSignResult_def clearSignStateByHandle_def
      clearSignState_run liftOut_def checkInitialized_def split: option.splits outcome.splits)

lemma coded_cases [codes]:
  "coded f \<Longrightarrow> coded g \<Longrightarrow> coded (if b then f else g)"
  "coded f \<Longrightarrow> (\<And>x. coded (h x)) \<Longrightarrow> coded (case_option f h v)"
  "(\<And>x. coded (k x)) \<Longrightarrow> (\<And>x. coded (h x)) \<Longrightarrow> coded (case_sum k h w)"
  "(\<And>x y. coded (p x y)) \<Longrightarrow> coded (case_prod p z)"
  by (auto split: option.splits sum.splits prod.splits)

lemma coded_EstimateSignatureSize [codes]: "coded (EstimateSignatureSize sv h)"
  unfolding EstimateSignatureSize_def by (intro codes)

lemma coded_exec: "coded (exec sv c)"
  by (cases c; simp add: withMemory_def withoutMemory_def;
      unfold api_defs C_Initialize_def guarded_def orElse_def; intro codes)

lemma exec_Inr: "exec sv c s = Returns (r, t) \<Longrightarrow> \<exists>rv m. r = Inr (rv, m)"
  using coded_exec [of sv c] by (cases r) (auto simp: coded_def)

section \<open>Memory\<close>

text \<open>
  What a call may do to the caller's memory, by its code: nothing with an error other than
  \<^const>\<open>CKR_BUFFER_TOO_SMALL\<close>.
\<close>

definition leaves :: "'m \<Rightarrow> ('s, ck_rv \<times> 'm) go \<Rightarrow> bool" where
  "leaves mem f \<longleftrightarrow> (\<forall>s rv m t. f s = Returns (Inr (rv, m), t) \<longrightarrow>
     m = mem \<or> rv = CKR_OK \<or> rv = CKR_BUFFER_TOO_SMALL)"

named_theorems leaving "calls that write memory only on success or when it is too small"

lemma leaves_return [leaving]:
  "leaves mem (returnE (rv, mem))" "leaves mem (returnE (CKR_OK, m))"
  "leaves mem (returnE (CKR_BUFFER_TOO_SMALL, m))" "leaves mem panicE"
  by (auto simp: leaves_def)

lemma leaves_orElse [leaving]: "(\<And>x. leaves mem (k x)) \<Longrightarrow> leaves mem (orElse f mem k)"
  by (fastforce simp: leaves_def orElse_run split: outcome.splits sum.splits prod.splits)

lemma leaves_guarded [leaving]: "leaves mem body \<Longrightarrow> leaves mem (guarded mem body)"
  by (auto simp: leaves_def guarded_run split: if_splits)

lemma leaves_catch [leaving]: "(\<And>r. leaves mem (h r)) \<Longrightarrow> leaves mem (catchE f h)"
  by (fastforce simp: leaves_def elim!: catchE_ReturnsE)

lemma leaves_bind [leaving]: "(\<And>x. leaves mem (g x)) \<Longrightarrow> leaves mem (bindE f g)"
  by (fastforce simp: leaves_def elim!: bindE_InrE)

lemma leaves_cases [leaving]:
  "leaves mem f \<Longrightarrow> leaves mem g \<Longrightarrow> leaves mem (if b then f else g)"
  "leaves mem f \<Longrightarrow> (\<And>x. leaves mem (h x)) \<Longrightarrow> leaves mem (case_option f h v)"
  "(\<And>x. leaves mem (k x)) \<Longrightarrow> (\<And>x. leaves mem (h x)) \<Longrightarrow> leaves mem (case_sum k h w)"
  "(\<And>x y. leaves mem (p x y)) \<Longrightarrow> leaves mem (case_prod p z)"
  by (auto split: option.splits sum.splits prod.splits)

lemma leaves_withMemory:
  "leaves mem f \<Longrightarrow> k mem = mem' \<Longrightarrow> leaves mem' (withMemory k f)"
  "leaves NoMemory (withoutMemory g)"
  by (fastforce simp: leaves_def withMemory_run withoutMemory_run split: outcome.splits sum.splits)+

definition value_of :: "Attribute \<Rightarrow> bytes" where
  "value_of r = (case Value r of None \<Rightarrow> [] | Some v \<Rightarrow> v)"

lemma copyResults_Cons:
  "copyResults (r # rs) (a # as) =
     (case attr_pValue a of
        None \<Rightarrow> apsnd ((#) (a\<lparr>attr_vallen := of_nat (length (value_of r))\<rparr>)) (copyResults rs as)
      | Some mem \<Rightarrow>
          if value_of r = [] then apsnd ((#) (a\<lparr>attr_vallen := 0\<rparr>)) (copyResults rs as)
          else if unat (attr_vallen a) \<ge> length (value_of r)
          then apsnd ((#) (a\<lparr>attr_pValue := Some (overwrite (value_of r) mem),
              attr_vallen := of_nat (length (value_of r))\<rparr>)) (copyResults rs as)
          else (CKR_BUFFER_TOO_SMALL, a\<lparr>attr_vallen := of_nat (length (value_of r))\<rparr> # as))"
  by (cases "copyResults rs as") (simp add: value_of_def Let_def split: option.splits)

lemma copyResults_code: "copyResults rs as = (rv, bs) \<Longrightarrow> rv = CKR_OK \<or> rv = CKR_BUFFER_TOO_SMALL"
  by (induction rs as arbitrary: rv bs rule: copyResults.induct)
     (auto simp: Let_def split: option.splits prod.splits if_splits)

lemma leaves_copyResults [leaving]:
  "leaves mem (case copyResults rs as of (rv, bs) \<Rightarrow> returnE (rv, Some (bs @ rest)))"
  using copyResults_code by (auto simp: leaves_def split: prod.splits)

lemma leaves_answerList [leaving]:
  "leaves (p, Some n) (answerList items p n)"
  unfolding answerList_def by (intro leaving | simp)+

lemma leaves_functions:
  "leaves () C_Finalize" "leaves i (C_GetInfo i)" "leaves (p, n) (C_GetSlotList sv b p n)"
  "leaves si (C_GetSlotInfo sv slot si)" "leaves ti (C_GetTokenInfo sv slot ti)"
  "leaves hp (C_OpenSession sv slot f hp)" "leaves () (C_CloseSession h)"
  "leaves () (C_CloseAllSessions slot)" "leaves se (C_GetSessionInfo h se)"
  "leaves () (C_Login sv h u pp pl)" "leaves () (C_Logout h)"
  "leaves (p, n) (C_GetMechanismList sv slot p n)" "leaves mi (C_GetMechanismInfo slot m mi)"
  "leaves () (C_FindObjectsInit sv h tp tn)" "leaves (p, n) (C_FindObjects h p k n)"
  "leaves () (C_FindObjectsFinal h)" "leaves tp (C_GetAttributeValue sv h obj tp tn)"
  "leaves () (C_SignInit h me ke)" "leaves (sp, sn) (C_Sign sv h d dl sp sn)"
  "leaves () (C_SignUpdate h d dl)" "leaves (sp, sn) (C_SignFinal sv h sp sn)"
  unfolding C_Finalize_def C_GetInfo_def C_GetSlotList_def C_GetSlotInfo_def
    C_GetTokenInfo_def C_OpenSession_def C_CloseSession_def C_CloseAllSessions_def
    C_GetSessionInfo_def C_Login_def C_Logout_def C_GetMechanismList_def C_GetMechanismInfo_def
    C_FindObjectsInit_def C_FindObjects_def C_FindObjectsFinal_def C_GetAttributeValue_def
    C_SignInit_def C_Sign_def C_SignUpdate_def C_SignFinal_def simply_def
    querySize_def handSignature_def Let_def
  by (auto intro!: leaving split: option.splits prod.splits)+

lemma leaves_exec: "leaves (memoryOf c) (exec sv c)"
  by (cases c; simp; rule leaves_withMemory; (rule leaves_functions)?; simp)

section \<open>Sizes\<close>

text \<open>The sizes of the caller's buffers and of the fixed fields of its structures.\<close>

definition buffer_size :: "'a list option \<Rightarrow> nat list" where
  "buffer_size p = (case p of None \<Rightarrow> [] | Some buf \<Rightarrow> [length buf])"

fun sizes :: "memory \<Rightarrow> nat list" where
  "sizes (InfoMemory (Some i)) = [length (ci_manufacturerID i), length (libraryDescription i)]"
| "sizes (ListMemory p n) = buffer_size p"
| "sizes (SlotMemory (Some i)) = [length (slotDescription i), length (cs_manufacturerID i)]"
| "sizes (TokenMemory (Some i)) = [length (tok_label i), length (tok_manufacturerID i),
     length (tok_model i), length (tok_serialNumber i), length (utcTime i)]"
| "sizes (TemplateMemory (Some as)) = concat (map (\<lambda>a. buffer_size (attr_pValue a)) as)"
| "sizes (SignatureMemory p n) = buffer_size p"
| "sizes _ = []"

text \<open>
  What PKCS#11 asks of the caller: a buffer is as long as the count that comes with it, and
  the structures are those of \<^verbatim>\<open>pkcs11_types.h\<close>.
\<close>

definition covers :: "'a list option \<Rightarrow> uint \<Rightarrow> bool" where
  "covers p n \<longleftrightarrow> (\<forall>buf. p = Some buf \<longrightarrow> unat n \<le> length buf)"

fun memory_valid :: "api_call \<Rightarrow> bool" where
  "memory_valid (GetInfoCall p) = (\<forall>i. p = Some i \<longrightarrow> sizes (InfoMemory p) = [32, 32])"
| "memory_valid (GetSlotInfoCall i p) = (\<forall>x. p = Some x \<longrightarrow> sizes (SlotMemory p) = [64, 32])"
| "memory_valid (GetTokenInfoCall i p) =
     (\<forall>x. p = Some x \<longrightarrow> sizes (TokenMemory p) = [32, 32, 16, 16, 16])"
| "memory_valid (GetSlotListCall b p n) = (\<forall>k. n = Some k \<longrightarrow> covers p k)"
| "memory_valid (GetMechanismListCall i p n) = (\<forall>k. n = Some k \<longrightarrow> covers p k)"
| "memory_valid (FindObjectsCall h p k n) = covers p k"
| "memory_valid (GetAttributeValueCall h obj p n) =
     (covers p n \<and> (\<forall>as. p = Some as \<longrightarrow>
        (\<forall>a \<in> set (take (unat n) as). covers (attr_pValue a) (attr_vallen a))))"
| "memory_valid (SignCall h d dl p n) = (\<forall>k. n = Some k \<longrightarrow> covers p k)"
| "memory_valid (SignFinalCall h p n) = (\<forall>k. n = Some k \<longrightarrow> covers p k)"
| "memory_valid _ = True"

lemma copyResults_sizes:
  "copyResults rs as = (rv, bs) \<Longrightarrow> \<forall>a \<in> set as. covers (attr_pValue a) (attr_vallen a) \<Longrightarrow>
   map (\<lambda>a. buffer_size (attr_pValue a)) bs = map (\<lambda>a. buffer_size (attr_pValue a)) as"
  by (induction rs as arbitrary: rv bs rule: copyResults.induct)
     (auto simp: Let_def covers_def buffer_size_def max_def split: option.splits prod.splits if_splits)

lemma length_copyPaddedString [simp]: "length (copyPaddedString s n) = n"
  by (simp add: copyPaddedString_def)

lemma FindObjects_count:
  assumes "FindObjects h n s = Returns (Inr objects, t)"
  shows "int (length objects) \<le> max 0 n"
  using assms
  by (auto simp: FindObjects_def bind_getSession updateSession_def bindE_Inr Let_def
      split: option.splits if_splits)

text \<open>A property of memory that a call establishes whenever it returns.\<close>

definition fills :: "('m \<Rightarrow> bool) \<Rightarrow> ('s, ck_rv \<times> 'm) go \<Rightarrow> bool" where
  "fills P f \<longleftrightarrow> (\<forall>s rv m t. f s = Returns (Inr (rv, m), t) \<longrightarrow> P m)"

named_theorems filling "memory after a call"

lemma fills_basic [filling]:
  "P m \<Longrightarrow> fills P (returnE (rv, m))" "fills P panicE"
  by (auto simp: fills_def)

lemma fills_frame [filling]:
  "(\<And>s x t. f s = Returns (Inr x, t) \<Longrightarrow> fills P (k x)) \<Longrightarrow> P mem \<Longrightarrow> fills P (orElse f mem k)"
  "P mem \<Longrightarrow> fills P body \<Longrightarrow> fills P (guarded mem body)"
  "(\<And>x. fills P (k x)) \<Longrightarrow> fills P (bindE f k)"
  by (fastforce simp: fills_def orElse_run guarded_run elim!: bindE_InrE
      split: outcome.splits sum.splits prod.splits if_splits)+

lemma fills_mono: "fills P f \<Longrightarrow> (\<And>m. P m \<Longrightarrow> Q m) \<Longrightarrow> fills Q f"
  unfolding fills_def by blast

lemma fills_if [filling]:
  "(b \<Longrightarrow> fills P f) \<Longrightarrow> (\<not> b \<Longrightarrow> fills P g) \<Longrightarrow> fills P (if b then f else g)"
  by simp

lemma fills_withMemory:
  "fills (\<lambda>m. P (k m)) f \<Longrightarrow> fills P (withMemory k f)"
  by (fastforce simp: fills_def withMemory_run split: outcome.splits sum.splits)

lemma fills_answerList [filling]:
  "covers p k \<Longrightarrow>
   fills (\<lambda>m. sizes (case_prod ListMemory m) = buffer_size p) (answerList items p k)"
  by (auto simp: fills_def answerList_def covers_def buffer_size_def split: option.splits if_splits)

lemma fills_signature [filling]:
  "covers (Some buf) len \<Longrightarrow>
   fills (\<lambda>m. sizes (case_prod SignatureMemory m) = [length buf]) (handSignature h buf len sig)"
  "fills (\<lambda>m. sizes (case_prod SignatureMemory m) = []) (querySize sv h)"
  by (auto simp: fills_def handSignature_def querySize_def covers_def buffer_size_def max_def
      elim!: bindE_InrE split: if_splits)

lemma fills_template:
  assumes "GetAttributeValue sv h obj template s = Returns (Inr results, t)" "covers (Some as) n"
    "\<forall>a \<in> set (take (unat n) as). covers (attr_pValue a) (attr_vallen a)"
    "copyResults results (take (unat n) as) = (rv, bs)"
  shows "sizes (TemplateMemory (Some (bs @ drop (unat n) as))) = sizes (TemplateMemory (Some as))"
proof -
  have "map (\<lambda>a. buffer_size (attr_pValue a)) (bs @ drop (unat n) as)
      = map (\<lambda>a. buffer_size (attr_pValue a)) (take (unat n) as @ drop (unat n) as)"
    using copyResults_sizes [OF assms(4,3)] by (simp only: map_append)
  then have "map (\<lambda>a. buffer_size (attr_pValue a)) (bs @ drop (unat n) as)
      = map (\<lambda>a. buffer_size (attr_pValue a)) as" by (simp only: append_take_drop_id)
  then show ?thesis by (simp only: sizes.simps)
qed

lemma fills_lists:
  "(\<And>k. n = Some k \<Longrightarrow> covers p k) \<Longrightarrow>
   fills (\<lambda>m. sizes (case_prod ListMemory m) = buffer_size p) (C_GetSlotList sv b p n)"
  "(\<And>k. n = Some k \<Longrightarrow> covers p k) \<Longrightarrow>
   fills (\<lambda>m. sizes (case_prod ListMemory m) = buffer_size p) (C_GetMechanismList sv slot p n)"
  unfolding C_GetSlotList_def C_GetMechanismList_def
  by (auto intro!: filling split: option.splits)

lemma fills_FindObjects:
  assumes "covers p k"
  shows "fills (\<lambda>m. sizes (case_prod ListMemory m) = buffer_size p) (C_FindObjects h p k n)"
proof -
  have few: "length objects \<le> unat k"
    if "FindObjects h (go_int k) s = Returns (Inr objects, t)" "sliceable (go_int k)" for objects s t
    using that FindObjects_count [OF that(1)] go_int_nonneg [of k] by (simp add: sliceable_def del: of_nat_unat flip: of_nat_le_iff)
  from assms show ?thesis
    unfolding C_FindObjects_def
    by (auto intro!: filling simp: covers_def buffer_size_def max_def split: option.splits
        dest: few)
qed

lemma fills_structures:
  "fills (\<lambda>m. p \<noteq> None \<longrightarrow> sizes (InfoMemory m) = [32, 32]) (C_GetInfo p)"
  "(\<And>x. q = Some x \<Longrightarrow> sizes (SlotMemory q) = [64, 32]) \<Longrightarrow>
   fills (\<lambda>m. q \<noteq> None \<longrightarrow> sizes (SlotMemory m) = [64, 32]) (C_GetSlotInfo sv slot q)"
  "(\<And>x. r = Some x \<Longrightarrow> sizes (TokenMemory r) = [32, 32, 16, 16, 16]) \<Longrightarrow>
   fills (\<lambda>m. r \<noteq> None \<longrightarrow> sizes (TokenMemory m) = [32, 32, 16, 16, 16]) (C_GetTokenInfo sv slot r)"
  unfolding C_GetInfo_def C_GetSlotInfo_def C_GetTokenInfo_def
  by (auto intro!: filling split: option.splits)

lemma fills_null:
  "fills (\<lambda>m. m = None) (C_GetInfo None)" "fills (\<lambda>m. m = None) (C_GetSlotInfo sv slot None)"
  "fills (\<lambda>m. m = None) (C_GetTokenInfo sv slot None)"
  unfolding C_GetInfo_def C_GetSlotInfo_def C_GetTokenInfo_def by (auto intro!: filling)

lemma fills_Sign:
  assumes "\<And>k. n = Some k \<Longrightarrow> covers p k"
  shows "fills (\<lambda>m. sizes (case_prod SignatureMemory m) = buffer_size p) (C_Sign sv h d dl p n)"
    and "fills (\<lambda>m. sizes (case_prod SignatureMemory m) = buffer_size p) (C_SignFinal sv h p n)"
  using assms unfolding C_Sign_def C_SignFinal_def
  by (auto intro!: filling simp: buffer_size_def split: option.splits)

lemma fills_GetAttributeValue:
  assumes "memory_valid (GetAttributeValueCall h obj p n)"
  shows "fills (\<lambda>m. sizes (TemplateMemory m) = sizes (TemplateMemory p)) (C_GetAttributeValue sv h obj p n)"
proof -
  have copied: "fills (\<lambda>m. sizes (TemplateMemory m) = sizes (TemplateMemory (Some as)))
      (case copyResults results (take (unat n) as) of (rv, bs) \<Rightarrow> returnE (rv, Some (bs @ drop (unat n) as)))"
    if "GetAttributeValue sv h obj template s = Returns (Inr results, t)" "p = Some as"
    for results template s t as
    using fills_template [OF that(1), of as n] assms that(2)
    by (auto intro!: fills_basic split: prod.splits simp del: sizes.simps)
  show ?thesis
    unfolding C_GetAttributeValue_def Let_def
    by (auto intro!: fills_frame(1,2) fills_if fills_basic simp del: sizes.simps split: option.splits)
       (rule copied)
qed

lemma fills_constant:
  "(\<And>x. P (k x)) \<Longrightarrow> fills P (withMemory k f)" "P NoMemory \<Longrightarrow> fills P (withoutMemory g)"
  by (auto simp: fills_def withMemory_run withoutMemory_run split: outcome.splits sum.splits)

text \<open>No call writes past the end of a buffer or of a field, whatever the server answers.\<close>

lemma fills_GetInfo:
  "memory_valid (GetInfoCall p) \<Longrightarrow>
   fills (\<lambda>m. sizes m = sizes (InfoMemory p)) (withMemory InfoMemory (C_GetInfo p))"
  by (cases p) (auto intro!: fills_withMemory fills_mono [OF fills_structures(1)]
      fills_mono [OF fills_null(1)] simp del: sizes.simps(1))

lemma fills_GetSlotInfo:
  "memory_valid (GetSlotInfoCall slot p) \<Longrightarrow>
   fills (\<lambda>m. sizes m = sizes (SlotMemory p)) (withMemory SlotMemory (C_GetSlotInfo sv slot p))"
  by (cases p) (auto intro!: fills_withMemory fills_mono [OF fills_structures(2)]
      fills_mono [OF fills_null(2)] simp del: sizes.simps(3))

lemma fills_GetTokenInfo:
  "memory_valid (GetTokenInfoCall slot p) \<Longrightarrow>
   fills (\<lambda>m. sizes m = sizes (TokenMemory p)) (withMemory TokenMemory (C_GetTokenInfo sv slot p))"
  by (cases p) (auto intro!: fills_withMemory fills_mono [OF fills_structures(3)]
      fills_mono [OF fills_null(3)] simp del: sizes.simps(4))

lemma fills_exec:
  assumes "memory_valid c"
  shows "fills (\<lambda>m. sizes m = sizes (memoryOf c)) (exec sv c)"
proof (cases c)
  case (GetAttributeValueCall h obj p n)
  with assms show ?thesis
    by (simp del: sizes.simps memory_valid.simps add: fills_withMemory fills_GetAttributeValue)
next
  case (GetInfoCall p)
  with assms fills_GetInfo [of p] show ?thesis by simp
next
  case (GetSlotInfoCall i p)
  with assms fills_GetSlotInfo [of i p] show ?thesis by simp
next
  case (GetTokenInfoCall i p)
  with assms fills_GetTokenInfo [of i p] show ?thesis by simp
qed (use assms in \<open>auto intro: fills_constant fills_withMemory fills_lists fills_FindObjects fills_Sign\<close>)

lemma exec_sizes:
  "memory_valid c \<Longrightarrow> exec sv c s = Returns (Inr (rv, m), t) \<Longrightarrow> sizes m = sizes (memoryOf c)"
  using fills_exec [of c sv] by (auto simp: fills_def)

section \<open>Reading attributes\<close>

lemma C_GetAttributeValue_run:
  assumes "initialized s" "n \<le> maxTemplateAttrs" "length as = unat n"
    "GetAttributeValue sv h obj (map (\<lambda>a. \<lparr>Type = attr_type a, Value = None\<rparr>) as) s
      = Returns (Inr results, t)"
  shows "C_GetAttributeValue sv h obj (Some as) n s = Returns
    (case copyResults results as of (rv, bs) \<Rightarrow> Inr (rv, Some bs), t)"
proof -
  have "\<not> maxTemplateAttrs < n" using assms(2) by simp
  with assms show ?thesis
    by (simp add: C_GetAttributeValue_def guarded_run Let_def orElse_run split: prod.splits)
qed

end
