(* ===== verification/Invariants.thy ===== *)
theory Invariants
  imports Module
begin

text \<open>
  The states a process can reach: its invariant, and that every exported function keeps it
  whatever the server, the clock and the arguments.
\<close>

section \<open>The invariant\<close>

text \<open>
  A session: the position of its search lies within the results and an ended search keeps
  none, the sign buffer is bounded, and an ended signing operation keeps no mechanism, no
  key and no data. A kept signature is not empty.
\<close>

definition session_inv :: "session \<Rightarrow> bool" where
  "session_inv x \<longleftrightarrow>
     findPos x \<le> length (findResults x)
     \<and> (\<not> findActive x \<longrightarrow> findResults x = [] \<and> findPos x = 0)
     \<and> length (signBuffer x) \<le> maxSignBuffer
     \<and> (\<not> signActive x \<longrightarrow> signMech x = 0 \<and> signKeyIndex x = 0 \<and> signBuffer x = [])
     \<and> cachedSignature x \<noteq> Some []"

text \<open>
  The module: once initialized, its handles are in order, its sessions satisfy their
  invariant, and its HTTP client is the one the configuration asks for, with TLS 1.2 or
  later.
\<close>

definition client_inv :: "'w backend \<Rightarrow> bool" where
  "client_inv st \<longleftrightarrow>
     BaseURL (httpClient (client st)) = ServerURL (config st)
     \<and> InsecureSkipVerify (httpClient (client st)) = SkipVerify (TLS (config st))
     \<and> MinVersion (httpClient (client st)) = 0x0303"

definition module_inv :: "'w backend \<Rightarrow> bool" where
  "module_inv st \<longleftrightarrow> (initialized st \<longrightarrow>
     sm_inv (manager st) \<and> client_inv st
     \<and> (\<forall>h x. sm_get (manager st) h = Some x \<longrightarrow> session_inv x))"

definition inv_step :: "'w backend \<Rightarrow> 'w backend \<Rightarrow> bool" where
  "inv_step s t \<longleftrightarrow> (module_inv s \<longrightarrow> module_inv t)"

interpretation inv_kept: frame_relation inv_step
  by unfold_locales (auto simp: inv_step_def)

lemma inv_core: "same_core s t \<Longrightarrow> inv_step s t"
  by (simp add: inv_step_def module_inv_def client_inv_def same_core_def)

lemma keeps_inv_core: "keeps same_core f \<Longrightarrow> keeps inv_step f"
  by (auto simp: keeps_def intro: inv_core)

lemma keeps_inv_updateManager:
  "(\<And>m. sm_inv m \<Longrightarrow> sm_inv (f m)) \<Longrightarrow>
   (\<And>m h x. sm_get (f m) h = Some x \<Longrightarrow> \<exists>y. sm_get m h = Some y \<and> (session_inv y \<longrightarrow> session_inv x)) \<Longrightarrow>
   keeps inv_step (updateManager f)"
  by (fastforce simp: keeps_def inv_step_def module_inv_def client_inv_def)

lemma keeps_inv_updateSession [preserves]:
  assumes "\<And>x. session_inv x \<Longrightarrow> session_inv (f x)"
  shows "keeps inv_step (updateSession h f)"
  unfolding updateSession_def using assms
  by (intro keeps_inv_updateManager) (auto simp: sess.inv_modify sm_get_update split: if_splits)

section \<open>Kept by every operation\<close>

lemma session_inv_new: "session_inv (new_session slot)"
  by (simp add: session_inv_def new_session_def)

lemma session_inv_fields [simp]:
  "session_inv (x\<lparr>loggedIn := b\<rparr>) = session_inv x" "session_inv (clearSign x) \<longleftrightarrow>
     findPos x \<le> length (findResults x) \<and> (\<not> findActive x \<longrightarrow> findResults x = [] \<and> findPos x = 0)"
  by (simp_all add: session_inv_def clearSign_def)

lemma session_inv_startSign: "session_inv x \<Longrightarrow> session_inv (startSign m i x)"
  by (simp add: session_inv_def startSign_def)

lemma sm_inv_setAll: "sm_inv m \<Longrightarrow> sm_inv (setAllLoggedInForSlot m slot b)"
  by (auto simp: sm_inv_def setAllLoggedInForSlot_def split: option.splits)

lemma sm_inv_closeAll: "sm_inv m \<Longrightarrow> sm_inv (closeAllForSlot m slot)"
  by (auto simp: sm_inv_def closeAllForSlot_def split: option.splits if_splits)

lemma inv_setLoggedIn [preserves]: "keeps inv_step (updateManager (\<lambda>m. setLoggedIn m h b))"
  by (rule keeps_inv_updateManager)
     (auto simp: setLoggedIn_def sess.inv_modify sm_get_update split: if_splits)

lemma inv_setAllLoggedIn [preserves]:
  "keeps inv_step (updateManager (\<lambda>m. setAllLoggedInForSlot m slot b))"
  by (rule keeps_inv_updateManager, erule sm_inv_setAll)
     (auto simp: sm_get_def setAllLoggedInForSlot_def split: if_splits option.splits)

lemma inv_closeAllForSlot [preserves]:
  "keeps inv_step (updateManager (\<lambda>m. closeAllForSlot m slot))"
  by (rule keeps_inv_updateManager, erule sm_inv_closeAll)
     (auto simp: sm_get_def closeAllForSlot_def split: if_splits option.splits)

lemma inv_find [preserves]:
  "keeps inv_step (setFindResult h template results)"
  "keeps inv_step (setEmptyFindResult h template)" "keeps inv_step (FindObjectsFinal h)"
  unfolding setFindResult_def setEmptyFindResult_def FindObjectsFinal_def
  by (intro preserves keeps_inv_core; simp add: session_inv_def)+

lemma inv_update_at:
  assumes "module_inv s" "sm_get (manager s) h = Some x" "session_inv x \<Longrightarrow> session_inv (f x)"
  shows "module_inv (s\<lparr>manager := sm_update (manager s) h f\<rparr>)"
  using assms
  by (auto simp: module_inv_def client_inv_def sess.inv_modify sm_get_update split: if_splits)

lemma inv_FindObjects [preserves]: "keeps inv_step (FindObjects h n)"
  by (auto simp: keeps_def inv_step_def FindObjects_def bind_getSession updateSession_def bindE_Inr
      Let_def session_inv_def intro!: inv_update_at split: option.splits if_split_asm)

lemma inv_SignUpdate [preserves]: "keeps inv_step (SignUpdate h d)"
  unfolding keeps_def SignUpdate_run
  by (auto simp: inv_step_def session_inv_def intro!: inv_update_at split: option.splits if_splits)

lemma inv_FindObjectsInit [preserves]: "keeps inv_step (FindObjectsInit sv h template)"
  unfolding FindObjectsInit_def Let_def
  by (intro preserves core_getSession(1) [THEN keeps_inv_core] core_matches [THEN keeps_inv_core])

lemma inv_SignInit [preserves]: "keeps inv_step (SignInit h m k)"
  unfolding SignInit_def
  by (intro preserves core_getSession(1) [THEN keeps_inv_core]) (rule session_inv_startSign)

lemma inv_clear [preserves]:
  "keeps inv_step (clearSignState h)" "keeps inv_step (clearSignStateByHandle h)"
  unfolding clearSignState_def clearSignStateByHandle_def
  by (intro preserves; simp add: session_inv_def clearSign_def)+

lemma inv_cacheSignResult [preserves]: "sig \<noteq> [] \<Longrightarrow> keeps inv_step (cacheSignResult h sig)"
  unfolding cacheSignResult_def by (intro preserves) (simp add: session_inv_def)

lemma inv_finishSign [preserves]: "keeps inv_step (finishSign sv h d)"
  unfolding finishSign_def
  by (intro preserves core_getSession(1) [THEN keeps_inv_core] core_sign(4) [THEN keeps_inv_core])

lemma inv_CloseSession [preserves]: "keeps inv_step (CloseSession h)"
proof (rule keepsI)
  fix s r t
  assume "CloseSession h s = Returns (r, t)"
  then obtain b m where m: "sm_close (manager s) h = (b, m)" "t = s\<lparr>manager := m\<rparr>"
    by (auto simp: CloseSession_def split: prod.splits if_splits elim!: bindE_ReturnsE)
  then show "inv_step s t"
    using sess.inv_remove [OF _ m(1)] sess.lookup_remove [OF m(1)]
    by (auto simp: inv_step_def module_inv_def client_inv_def)
qed

lemma inv_Login [preserves]: "keeps inv_step (Login sv h u pin)"
proof -
  have "keeps inv_step (setConfigToken p)" for p
    unfolding setConfigToken_def
    by (rule keeps_modify) (simp add: inv_step_def module_inv_def client_inv_def)
  then show ?thesis
    unfolding Login_def loginSlot_def
    by (intro preserves core_getSession(1) [THEN keeps_inv_core]
        core_authenticate [THEN keeps_inv_core] core_accessToken [THEN keeps_inv_core])
qed

lemma inv_Logout [preserves]: "keeps inv_step (Logout h)"
  unfolding Logout_def by (intro preserves core_getSession(1) [THEN keeps_inv_core])

lemma inv_Finalize [preserves]: "keeps inv_step Finalize"
  unfolding Finalize_def
  by (intro preserves keeps_modify) (simp add: inv_step_def module_inv_def)

lemma OpenSession_inv:
  assumes "OpenSession sv slot flags s = Returns (r, t)" "module_inv s" "sm_room (manager s)"
  shows "module_inv t"
proof -
  from assms(1) show ?thesis unfolding OpenSession_def
  proof (cases rule: bindE_ReturnsE)
    case (err e)
    with assms(2) inv_core [OF keepsD [OF core_getSignerBySlot err(1)]] show ?thesis
      by (simp add: inv_step_def)
  next
    case (ok signer s1)
    then have core: "same_core s s1" using keepsD [OF core_getSignerBySlot] by blast
    then have s1: "module_inv s1" "sm_room (manager s1)"
      using assms(2,3) inv_core [OF core] by (auto simp: inv_step_def same_core_def)
    obtain h m where m: "sm_open (manager s1) slot = (h, m)" by fastforce
    have t: "t = s1\<lparr>manager := m\<rparr> \<or> t = s1\<lparr>manager := setLoggedIn m h True\<rparr>"
      using ok(2) m by (auto simp: openIn_def accessToken_def bindE_Inr split: if_split_asm)
    have "module_inv (s1\<lparr>manager := m\<rparr>)"
      using s1 sess.inv_create [OF _ s1(2) m] sess.lookup_create [OF m] session_inv_new
      by (auto simp: module_inv_def client_inv_def split: if_splits)
    moreover from this have "module_inv (s1\<lparr>manager := setLoggedIn m h True\<rparr>)"
      using keepsD [OF inv_setLoggedIn, where s = "s1\<lparr>manager := m\<rparr>"] by (simp add: inv_step_def)
    ultimately show ?thesis using t by blast
  qed
qed

text \<open>\<^verbatim>\<open>Initialize\<close>: nothing when initialized; else a failure leaves the module uninitialized.\<close>

lemma newInfisicalClient_config:
  assumes "newInfisicalClient sv cfg w = Inr cl"
  shows "BaseURL (httpClient cl) = ServerURL cfg \<and> InsecureSkipVerify (httpClient cl) = SkipVerify (TLS cfg)
    \<and> MinVersion (httpClient cl) = 0x0303"
  using assms
  by (auto simp: newInfisicalClient_def Let_def split: if_split_asm option.splits sum.splits)

definition same_caches :: "'w backend \<Rightarrow> 'w backend \<Rightarrow> bool" where
  "same_caches s t \<longleftrightarrow> signer_cache t = signer_cache s \<and> cert_cache t = cert_cache s"

interpretation caches: frame_relation same_caches
  by unfold_locales (auto simp: same_caches_def)

lemma caches_login [preserves]:
  "keeps same_caches (authenticate sv i p)" "keeps same_caches (signingCtx sv)"
  by (auto simp: keeps_def same_caches_def authenticate_def signingCtx_def split: prod.splits)

text \<open>The three ways \<^verbatim>\<open>Initialize\<close> ends; \<open>u\<close> is the state right after the module is set up.\<close>

lemma Initialize_cases:
  assumes "Initialize sv s = Returns (r, t)"
  obtains (active) "initialized s" "t = s" "\<exists>e. r = Inl e"
  | (failed) "\<not> initialized s" "\<not> initialized t" "\<exists>e. r = Inl e"
  | (started) cfg cl u where "\<not> initialized s"
      "loadConfig (sv_parsers sv) (sv_os sv (world s)) = Inr cfg"
      "newInfisicalClient sv cfg (world s) = Inr cl"
      "u = s\<lparr>config := cfg, client := cl, manager := newSessionManager,
        signer_cache := newSignerCache (SignerTTLSeconds (CacheCfg cfg)),
        cert_cache := newCertDataCache (CertTTLSeconds (CacheCfg cfg)), initialized := True\<rparr>"
      "same_core u t" "same_caches u t"
proof (cases "initialized s")
  case True
  with assms have "t = s" "r = Inl ErrAlreadyInitialized" by (simp_all add: Initialize_def bindE_Inr)
  with True active show thesis by simp
next
  case False
  let ?rest = "\<lambda>cfg. bindE (if ClientID (Auth cfg) \<noteq> [] \<and> ClientSecret (Auth cfg) \<noteq> []
      then catchE (authenticate sv (ClientID (Auth cfg)) (ClientSecret (Auth cfg))) (\<lambda>_. returnE ())
      else returnE ()) (\<lambda>_. bindE (signingCtx sv) (\<lambda>_. returnE ()))"
  have rest: "keeps same_core (?rest cfg)" "keeps same_caches (?rest cfg)" for cfg
    by (intro preserves)+
  show thesis
  proof (cases "loadConfig (sv_parsers sv) (sv_os sv (world s))")
    case (Inl e)
    with assms False have "t = s" "r = Inl e" by (simp_all add: Initialize_def bindE_Inl)
    with False failed show thesis by simp
  next
    case (Inr cfg)
    note load = this
    show thesis
    proof (cases "newInfisicalClient sv cfg (world s)")
      case (Inl e)
      with assms False load have "t = s\<lparr>config := cfg\<rparr>" "r = Inl e"
        by (simp_all add: Initialize_def bindE_Inl bindE_Inr)
      with False failed show thesis by simp
    next
      case (Inr cl)
      let ?u = "s\<lparr>config := cfg, client := cl, manager := newSessionManager,
        signer_cache := newSignerCache (SignerTTLSeconds (CacheCfg cfg)),
        cert_cache := newCertDataCache (CertTTLSeconds (CacheCfg cfg)), initialized := True\<rparr>"
      have "?rest cfg ?u = Returns (r, t)"
        using assms False load Inr by (simp add: Initialize_def bindE_Inr)
      with keepsD [OF rest(1)] keepsD [OF rest(2)] show thesis
        by (intro started [OF False load Inr refl]) auto
    qed
  qed
qed

lemma Initialize_inv: "keeps inv_step (Initialize sv)"
proof (rule keepsI)
  fix s r t
  assume "Initialize sv s = Returns (r, t)"
  then show "inv_step s t"
  proof (cases rule: Initialize_cases)
    case (started cfg cl u)
    then have "module_inv u"
      using newInfisicalClient_config [OF started(3)]
      by (simp add: module_inv_def client_inv_def sm_inv_new) (simp add: sm_get_def newSessionManager_def)
    with inv_core [OF started(5)] show ?thesis by (simp add: inv_step_def)
  qed (simp_all add: inv_step_def module_inv_def)
qed

section \<open>Kept by every exported function\<close>

lemma inv_C_Initialize: "keeps inv_step (C_Initialize sv)"
  unfolding C_Initialize_def by (intro preserves Initialize_inv)

lemmas inv_queries =
  core_slot_queries [THEN keeps_inv_core] core_getSession [THEN keeps_inv_core]
  core_GetAttributeValue [THEN keeps_inv_core] core_sign(5) [THEN keeps_inv_core]

lemma inv_handSignature [preserves]: "keeps inv_step (handSignature h buf len sig)"
  unfolding handSignature_def by (auto intro!: preserves)

lemma inv_exec:
  assumes "\<And>slot f p. c \<noteq> OpenSessionCall slot f p"
  shows "keeps inv_step (exec sv c)"
proof (cases c)
  case InitializeCall
  then show ?thesis by (simp add: preserves inv_C_Initialize)
next
  case (OpenSessionCall slot f p)
  with assms show ?thesis by blast
qed (simp; unfold C_Finalize_def C_GetInfo_def C_GetSlotList_def C_GetSlotInfo_def
    C_GetTokenInfo_def C_CloseSession_def C_CloseAllSessions_def C_GetSessionInfo_def
    C_Login_def C_Logout_def C_GetMechanismList_def C_GetMechanismInfo_def
    C_FindObjectsInit_def C_FindObjects_def C_FindObjectsFinal_def C_GetAttributeValue_def
    C_SignInit_def C_Sign_def C_SignUpdate_def C_SignFinal_def notSupported_def simply_def
    answerList_def querySize_def Sign_def SignFinal_def Let_def;
    intro preserves inv_queries)+

section \<open>The machine\<close>

text \<open>
  A step of the process: a call of an exported function, or something outside the module
  (time, network, operating system) changes the world. Sessions are opened while the 64-bit
  counter of handles lasts.
\<close>

inductive module_step :: "'w services \<Rightarrow> 'w backend \<Rightarrow> 'w backend \<Rightarrow> bool" for sv where
  call: "exec sv c s = Returns (r, t) \<Longrightarrow> sm_room (manager s) \<Longrightarrow> module_step sv s t"
| outside: "module_step sv s (s\<lparr>world := w\<rparr>)"

inductive_cases module_stepE: "module_step sv s t"

text \<open>A process starts with the module not initialized.\<close>

definition unloaded :: "'w backend \<Rightarrow> bool" where
  "unloaded st \<longleftrightarrow> \<not> initialized st \<and> captured st = None"

lemma exec_inv:
  assumes "exec sv c s = Returns (r, t)" "sm_room (manager s)" "module_inv s"
  shows "module_inv t"
proof (cases "\<exists>slot f p. c = OpenSessionCall slot f p")
  case True
  then obtain slot f p where c: "c = OpenSessionCall slot f p" by blast
  have "t = s \<or> (\<exists>r. OpenSession sv slot f s = Returns (r, t))"
    using assms(1)
    by (auto simp: c withMemory_run C_OpenSession_def guarded_run orElse_run
        split: outcome.splits sum.splits if_splits)
  with OpenSession_inv assms(2,3) show ?thesis by blast
next
  case False
  with keepsD [OF inv_exec [of c sv] assms(1)] assms(3) show ?thesis by (simp add: inv_step_def)
qed

interpretation module_machine: invariant_system unloaded "module_step sv" module_inv for sv
proof unfold_locales
  fix s :: "'a backend"
  assume "unloaded s"
  then show "module_inv s" by (simp add: unloaded_def module_inv_def)
next
  fix s t :: "'a backend"
  assume "module_step sv s t" "module_inv s"
  then show "module_inv t"
    by (auto simp: module_inv_def client_inv_def elim!: module_stepE dest: exec_inv)
qed

section \<open>No panic\<close>

text \<open>
  What the caller must respect: lengths of data below 2^31, for they are converted to 32-bit
  numbers, and a count of objects that an array can have.
\<close>

fun lengths_small :: "api_call \<Rightarrow> bool" where
  "lengths_small (LoginCall h u p n) = (unat n < 2 ^ 31)"
| "lengths_small (FindObjectsInitCall h p n) =
     (\<forall>as. p = Some as \<longrightarrow> (\<forall>a \<in> set (take (unat n) as). unat (attr_vallen a) < 2 ^ 31))"
| "lengths_small (FindObjectsCall h p k n) = (unat k < 2 ^ 61)"
| "lengths_small (SignCall h d dl p n) = (unat dl < 2 ^ 31)"
| "lengths_small (SignUpdateCall h p n) = (unat n < 2 ^ 31)"
| "lengths_small _ = True"

text \<open>And the server: no signature it returns is empty.\<close>

definition signatures_nonempty :: "'w services \<Rightarrow> bool" where
  "signatures_nonempty sv \<longleftrightarrow>
     (\<forall>resp text sig. sv_decode_signature sv resp = Inr text \<longrightarrow> b64_decode text = Some sig \<longrightarrow> sig \<noteq> [])"

text \<open>A predicate on the results a call can return.\<close>

definition yields :: "('a \<Rightarrow> bool) \<Rightarrow> ('s, 'a) go \<Rightarrow> bool" where
  "yields P f \<longleftrightarrow> (\<forall>s x t. f s = Returns (Inr x, t) \<longrightarrow> P x)"

lemma yields_withRetryOnAuth:
  assumes "\<And>token. yields P (fn token)"
  shows "yields P (withRetryOnAuth sv fn)"
  unfolding yields_def
proof (intro allI impI)
  fix s x t
  assume "withRetryOnAuth sv fn s = Returns (Inr x, t)"
  then obtain token r1 s1 s2 where run: "fn token s1 = Returns (r1, s2)"
    and rest: "(case r1 of Inr x \<Rightarrow> returnE x | Inl err \<Rightarrow> retry_after sv token fn err) s2 = Returns (Inr x, t)"
    unfolding withRetryOnAuth_def by (auto elim!: bindE_InrE catchE_ReturnsE)
  show "P x"
  proof (cases r1)
    case (Inr y)
    with run rest assms show ?thesis by (auto simp: yields_def)
  next
    case (Inl e)
    with rest have "retry_after sv token fn e s2 = Returns (Inr x, t)" by simp
    then show ?thesis by (cases rule: retry_afterE) (use assms in \<open>auto simp: yields_def\<close>)
  qed
qed

lemma yields_client_Sign:
  "yields (\<lambda>text. \<exists>resp. sv_decode_signature sv resp = Inr text)
     (apiE (\<lambda>c. client_Sign sv c token i req))"
  unfolding yields_def client_Sign_def
  by (auto dest!: apiE_Returns simp: send_def split: prod.splits sum.splits if_splits)

lemma signature_decoded:
  assumes "signInternal sv x d s = Returns (Inr sig, t)"
  shows "\<exists>resp text. sv_decode_signature sv resp = Inr text \<and> b64_decode text = Some sig"
proof -
  from assms obtain signer sd req s1 where "sendSign sv signer sd req s1 = Returns (Inr sig, t)"
    by (auto simp: signInternal_def elim!: bindE_InrE)
  then obtain r s2 where r: "withRetryOnAuth sv (\<lambda>token. apiE (\<lambda>c. client_Sign sv c token (ID signer) req)) s1
      = Returns (r, s2)" and "(\<exists>text. r = Inr text \<and> b64_decode text = Some sig)"
    by (auto simp: sendSign_def elim!: catchE_ReturnsE bindE_InrE split: sum.splits option.splits)
  moreover have "yields (\<lambda>text. \<exists>resp. sv_decode_signature sv resp = Inr text)
      (withRetryOnAuth sv (\<lambda>token. apiE (\<lambda>c. client_Sign sv c token (ID signer) req)))"
    by (intro yields_withRetryOnAuth yields_client_Sign)
  ultimately show ?thesis unfolding yields_def by blast
qed

lemma signature_not_empty:
  "signInternal sv x d s = Returns (Inr sig, t) \<Longrightarrow> signatures_nonempty sv \<Longrightarrow> sig \<noteq> []"
  using signature_decoded unfolding signatures_nonempty_def by blast

lemma finishSign_nonempty:
  assumes "finishSign sv h d s = Returns (Inr sig, t)" "module_inv s" "initialized s"
    "signatures_nonempty sv"
  shows "sig \<noteq> []"
  using assms
  by (auto simp: finishSign_run module_inv_def session_inv_def dest!: signature_not_empty
      split: option.splits outcome.splits sum.splits if_splits)

lemma handSignature_safe: "sig \<noteq> [] \<Longrightarrow> safe (handSignature h buf len sig)"
  unfolding handSignature_def by (auto intro!: safety)

lemma finish_safe:
  assumes "module_inv s" "initialized s" "signatures_nonempty sv" "safe (finishSign sv h d)"
  shows "orElse (finishSign sv h d) mem (\<lambda>sig. handSignature h buf len sig) s \<noteq> Panics"
proof -
  obtain r t where run: "finishSign sv h d s = Returns (r, t)" using safeD [OF assms(4)] by blast
  show ?thesis
  proof (cases r)
    case (Inr sig)
    with finishSign_nonempty [of sv h d s sig t] run assms(1-3)
    have "sig \<noteq> []" by simp
    then have "handSignature h buf len sig t \<noteq> Panics"
      using handSignature_safe unfolding safe_def by blast
    with run Inr show ?thesis by (simp add: orElse_run)
  qed (simp add: orElse_run run)
qed

lemma safe_exec_simple:
  assumes "lengths_small c" "points_on_curve sv" "\<not> signs c"
  shows "safe (exec sv c)"
proof (cases c)
  case (LoginCall h u p n)
  with assms(1) show ?thesis
    by (auto simp: C_Login_def simply_def intro!: safety safe_liftOut pinOf_small)
next
  case (FindObjectsInitCall h p n)
  with assms(1) show ?thesis
    by (auto simp: C_FindObjectsInit_def intro!: safety safe_liftOut readTemplate_small
        split: option.splits)
next
  case (FindObjectsCall h p k n)
  with assms(1) have "0 \<le> go_int k" "sliceable (go_int k)"
    using sliceable_small by (auto simp: sliceable_def)
  with FindObjectsCall show ?thesis
    by (auto simp: C_FindObjects_def intro!: safety safe_FindObjects split: option.splits)
next
  case (GetAttributeValueCall h obj p n)
  with assms(2) show ?thesis
    by (auto simp: C_GetAttributeValue_def Let_def intro!: safety safe_GetAttributeValue
        split: option.splits prod.splits)
next
  case (SignUpdateCall h p n)
  with assms(1) show ?thesis
    by (auto simp: C_SignUpdate_def goBytes_small intro!: safety safe_liftOut split: option.splits)
qed (use assms(3) in \<open>simp_all add: signs_def\<close>;
    unfold C_Initialize_def api_defs; intro safety)+

lemma safe_sign_calls:
  assumes "signs c" "lengths_small c" "module_inv s" "signatures_nonempty sv"
  shows "exec sv c s \<noteq> Panics"
proof (cases "initialized s")
  case False
  with assms(1) show ?thesis
    by (auto simp: signs_def withMemory_run C_Sign_def C_SignFinal_def guarded_run
        split: api_call.splits)
next
  case True
  note finish = finish_safe [OF assms(3) True assms(4)]
  have query: "safe (querySize sv h)" for h unfolding querySize_def by (intro safety)
  have safe_finish: "safe (finishSign sv h d)" for h d
    using safe_sign(9,10) [of sv h] unfolding Sign_def SignFinal_def finishSign_def
    by (intro safety)
  from assms(1) consider (one) h d dl p n where "c = SignCall h d dl p n"
    | (final) h p n where "c = SignFinalCall h p n"
    by (auto simp: signs_def split: api_call.splits)
  then show ?thesis
  proof cases
    case (one h d dl p n)
    with assms(2) True finish [OF safe_finish] query [of h] show ?thesis
      by (auto simp: withMemory_run C_Sign_def guarded_run goBytes_small liftOut_def Sign_def
          safe_def split: option.splits outcome.splits sum.splits)
  next
    case (final h p n)
    with True finish [OF safe_finish] query [of h] show ?thesis
      by (auto simp: withMemory_run C_SignFinal_def guarded_run SignFinal_def safe_def
          split: option.splits outcome.splits sum.splits)
  qed
qed

lemma exec_returns:
  assumes "lengths_small c" "points_on_curve sv" "signatures_nonempty sv" "module_inv s"
  shows "\<exists>rv m t. exec sv c s = Returns (Inr (rv, m), t)"
proof -
  have "exec sv c s \<noteq> Panics"
    using safe_sign_calls [of c s sv] safe_exec_simple [of c sv] assms
    by (cases "signs c") (auto simp: safe_def)
  then obtain r t where "exec sv c s = Returns (r, t)"
    by (cases "exec sv c s") auto
  with exec_Inr show ?thesis by blast
qed

end
