(* ===== verification/Signing_Contract.thy ===== *)
theory Signing_Contract
  imports Signing Invariants
begin

text \<open>
  The contract of signing: a session is idle, collects data, or holds a signature that did
  not fit. The exported functions refine this machine, apart from one step: a second buffer
  that is too small.
\<close>

section \<open>The abstract machine\<close>

datatype signing = Idle | Collecting uint uint bytes | Produced bytes

definition signing_of :: "session \<Rightarrow> signing" where
  "signing_of x =
     (if \<not> signActive x then Idle
      else case cachedSignature x of
        Some sig \<Rightarrow> Produced sig
      | None \<Rightarrow> Collecting (signMech x) (signKeyIndex x) (signBuffer x))"

text \<open>
  The operations: start with a mechanism and a key handle; add a part; finish with the data
  of a one-part signature, or with the parts collected, into a buffer of \<open>n\<close> bytes; ask for
  the size.
\<close>

datatype sign_op =
    OpInit uint uint
  | OpUpdate bytes
  | OpFinish "bytes option" nat
  | OpSize

text \<open>
  A step with its return code and the signature handed out. \<open>answers m k d sig\<close> says that
  \<open>sig\<close> may be the signature of the data \<open>d\<close> with mechanism \<open>m\<close> and key \<open>k\<close>; \<open>logged\<close>
  whether the session is logged in.
\<close>

inductive sign_spec ::
  "(uint \<Rightarrow> uint \<Rightarrow> bytes \<Rightarrow> bytes \<Rightarrow> bool) \<Rightarrow> bool \<Rightarrow> sign_op \<Rightarrow> signing \<Rightarrow> ck_rv \<Rightarrow> bytes option \<Rightarrow> signing \<Rightarrow> bool"
  for answers logged where
  not_logged: "\<not> logged \<Longrightarrow>
    sign_spec answers logged (OpInit m k) st CKR_USER_NOT_LOGGED_IN None st"
| active: "logged \<Longrightarrow> st \<noteq> Idle \<Longrightarrow>
    sign_spec answers logged (OpInit m k) st CKR_OPERATION_ACTIVE None st"
| start: "logged \<Longrightarrow> sign_spec answers logged (OpInit m k) Idle CKR_OK None
    (Collecting m (snd (parseObjectHandle k)) [])"
| idle: "op' = OpUpdate d \<or> op' = OpFinish e n \<Longrightarrow>
    sign_spec answers logged op' Idle CKR_OPERATION_NOT_INITIALIZED None Idle"
| update: "length b + length d \<le> maxSignBuffer \<Longrightarrow>
    sign_spec answers logged (OpUpdate d) (Collecting m k b) CKR_OK None (Collecting m k (b @ d))"
| overflow: "length b + length d > maxSignBuffer \<Longrightarrow>
    sign_spec answers logged (OpUpdate d) (Collecting m k b) CKR_GENERAL_ERROR None (Collecting m k b)"
| late: "rv \<in> {CKR_OK, CKR_GENERAL_ERROR} \<Longrightarrow>
    sign_spec answers logged (OpUpdate d) (Produced sig) rv None (Produced sig)"
| failed: "rv \<in> error_codes \<Longrightarrow>
    sign_spec answers logged (OpFinish e n) (Collecting m k b) rv None Idle"
| finished: "answers m k (case e of None \<Rightarrow> b | Some d \<Rightarrow> d) sig \<Longrightarrow> length sig \<le> n \<Longrightarrow>
    sign_spec answers logged (OpFinish e n) (Collecting m k b) CKR_OK (Some sig) Idle"
| too_small: "answers m k (case e of None \<Rightarrow> b | Some d \<Rightarrow> d) sig \<Longrightarrow> n < length sig \<Longrightarrow>
    sign_spec answers logged (OpFinish e n) (Collecting m k b) CKR_BUFFER_TOO_SMALL None (Produced sig)"
| again: "length sig \<le> n \<Longrightarrow>
    sign_spec answers logged (OpFinish e n) (Produced sig) CKR_OK (Some sig) Idle"
| again_small: "n < length sig \<Longrightarrow>
    sign_spec answers logged (OpFinish e n) (Produced sig) CKR_BUFFER_TOO_SMALL None (Produced sig)"
| size: "sign_spec answers logged OpSize st CKR_OK None st"

inductive_simps sign_spec_simps [simp]:
  "sign_spec answers logged (OpInit m k) st rv out st'"
  "sign_spec answers logged (OpUpdate d) st rv out st'"
  "sign_spec answers logged (OpFinish e n) Idle rv out st'"
  "sign_spec answers logged (OpFinish e n) (Collecting m k b) rv out st'"
  "sign_spec answers logged (OpFinish e n) (Produced sig) rv out st'"
  "sign_spec answers logged OpSize st rv out st'"

section \<open>The calls\<close>

text \<open>An operation as the calls of \<^verbatim>\<open>main.go\<close>, with a buffer of zeros for the signature.\<close>

fun sign_call :: "'w services \<Rightarrow> uint \<Rightarrow> sign_op \<Rightarrow> ('w, ck_rv \<times> signature_out) call" where
  "sign_call sv h (OpInit m k) = bindE (C_SignInit h (Some m) k) (\<lambda>(rv, _). returnE (rv, None, None))"
| "sign_call sv h (OpUpdate d) =
     bindE (C_SignUpdate h (Some d) (of_nat (length d))) (\<lambda>(rv, _). returnE (rv, None, None))"
| "sign_call sv h (OpFinish (Some d) n) =
     C_Sign sv h (Some d) (of_nat (length d)) (Some (replicate n 0)) (Some (of_nat n))"
| "sign_call sv h (OpFinish None n) = C_SignFinal sv h (Some (replicate n 0)) (Some (of_nat n))"
| "sign_call sv h OpSize = C_SignFinal sv h None (Some 0)"

text \<open>The signature an application reads after \<^const>\<open>CKR_OK\<close>: as many bytes as were reported.\<close>

fun handed :: "sign_op \<Rightarrow> ck_rv \<Rightarrow> signature_out \<Rightarrow> bytes option" where
  "handed (OpFinish e n) rv (Some buf, Some len) = (if rv = CKR_OK then Some (take (unat len) buf) else None)"
| "handed _ _ _ = None"

definition op_fits :: "sign_op \<Rightarrow> bool" where
  "op_fits op' \<longleftrightarrow>
     (case op' of
        OpUpdate d \<Rightarrow> length d < 2 ^ 31
      | OpFinish e n \<Rightarrow> n < 2 ^ 64 \<and> (\<forall>d. e = Some d \<longrightarrow> length d < 2 ^ 31)
      | _ \<Rightarrow> True)"

text \<open>What the backend can answer for the data of a session with this mechanism and key.\<close>

definition backend_answers :: "'w services \<Rightarrow> uint \<Rightarrow> uint \<Rightarrow> bytes \<Rightarrow> bytes \<Rightarrow> bool" where
  "backend_answers sv m k d sig \<longleftrightarrow>
     (\<exists>s t. signInternal sv ((new_session 0)\<lparr>signMech := m, signKeyIndex := k\<rparr>) d s = Returns (Inr sig, t))"

lemma backend_answersI:
  "signInternal sv x d s = Returns (Inr sig, t) \<Longrightarrow> backend_answers sv (signMech x) (signKeyIndex x) d sig"
  unfolding backend_answers_def by (auto simp: signInternal_def)

lemma cacheSignResult_run:
  "cacheSignResult h sig s = Returns (Inr (), s\<lparr>manager :=
     sm_update (manager s) h (\<lambda>x. x\<lparr>cachedSignature := Some sig\<rparr>)\<rparr>)"
proof (cases "sm_get (manager s) h")
  case None
  then have "sm_update (manager s) h (\<lambda>x. x\<lparr>cachedSignature := Some sig\<rparr>) = manager s"
    by (simp add: sm_update_def sm_get_def map_at_def fun_upd_idem)
  with None show ?thesis by (simp add: cacheSignResult_def)
qed (simp add: cacheSignResult_def updateSession_def)

lemma handSignature_run:
  "handSignature h buf len sig s =
     (if unat len < length sig then
        Returns (Inr (CKR_BUFFER_TOO_SMALL, Some buf, Some (of_nat (length sig))), s\<lparr>manager :=
          sm_update (manager s) h (\<lambda>x. x\<lparr>cachedSignature := Some sig\<rparr>)\<rparr>)
      else if sig = [] then Panics
      else Returns (Inr (CKR_OK, Some (overwrite sig buf), Some (of_nat (length sig))), s\<lparr>manager :=
          sm_update (manager s) h clearSign\<rparr>))"
  by (simp add: handSignature_def cacheSignResult_run clearSignStateByHandle_run bindE_Inr)

text \<open>The four ways the shared part of \<^verbatim>\<open>Sign\<close> and \<^verbatim>\<open>SignFinal\<close> ends.\<close>

lemma finishSign_cases:
  assumes "finishSign sv h d s = Returns (r, t)"
  obtains (inactive) e where "r = Inl e" "t = s" "\<And>x. sm_get (manager s) h = Some x \<Longrightarrow> \<not> signActive x"
  | (again) x sig where "sm_get (manager s) h = Some x" "signActive x" "cachedSignature x = Some sig"
      "r = Inr sig" "t = s\<lparr>manager := sm_update (manager s) h clearSign\<rparr>"
  | (signed) x sig where "sm_get (manager s) h = Some x" "signActive x" "cachedSignature x = None"
      "r = Inr sig" "signInternal sv x (d x) s = Returns (Inr sig, t)"
  | (failed) x e u where "sm_get (manager s) h = Some x" "signActive x" "cachedSignature x = None"
      "r = Inl e" "signInternal sv x (d x) s = Returns (Inl e, u)"
      "t = u\<lparr>manager := sm_update (manager u) h clearSign\<rparr>"
proof (cases "sm_get (manager s) h")
  case None
  with assms inactive show thesis by (auto simp: finishSign_run)
next
  case (Some x)
  show thesis
  proof (cases "signActive x")
    case False
    with Some assms inactive show thesis by (auto simp: finishSign_run)
  next
    case True
    show thesis
    proof (cases "cachedSignature x")
      case None
      with Some True assms obtain q u where q: "signInternal sv x (d x) s = Returns (q, u)"
        by (auto simp: finishSign_run split: outcome.splits)
      show thesis
      proof (cases q)
        case (Inl e)
        with Some True None assms q have "r = Inl e" "t = u\<lparr>manager := sm_update (manager u) h clearSign\<rparr>"
          by (auto simp: finishSign_run)
        with Some True None q Inl failed show thesis by blast
      next
        case (Inr sig)
        with Some True None assms q have "r = Inr sig" "t = u" by (auto simp: finishSign_run)
        with Some True None q Inr signed show thesis by blast
      qed
    next
      case (Some sig)
      with \<open>sm_get (manager s) h = Some x\<close> True assms again show thesis
        by (simp add: finishSign_run)
    qed
  qed
qed

lemma orElse_finish_cases:
  assumes "orElse (finishSign sv h d) (Some buf, Some len) (\<lambda>sig. handSignature h buf len sig) s
      = Returns (Inr (rv, out), t)"
  obtains (failed) e where "finishSign sv h d s = Returns (Inl e, t)" "rv = mapErrorToRV e"
  | (kept) sig u where "finishSign sv h d s = Returns (Inr sig, u)" "rv = CKR_BUFFER_TOO_SMALL"
      "unat len < length sig" "out = (Some buf, Some (of_nat (length sig)))"
      "t = u\<lparr>manager := sm_update (manager u) h (\<lambda>x. x\<lparr>cachedSignature := Some sig\<rparr>)\<rparr>"
  | (handed) sig u where "finishSign sv h d s = Returns (Inr sig, u)" "rv = CKR_OK"
      "length sig \<le> unat len" "out = (Some (overwrite sig buf), Some (of_nat (length sig)))"
      "t = u\<lparr>manager := sm_update (manager u) h clearSign\<rparr>"
proof -
  obtain q u where q: "finishSign sv h d s = Returns (q, u)"
    using assms by (auto simp: orElse_run split: outcome.splits)
  show thesis
  proof (cases q)
    case (Inl e)
    with q assms failed show thesis by (simp add: orElse_run)
  next
    case (Inr sig)
    with q assms kept handed show thesis
      by (auto simp: orElse_run handSignature_run split: if_splits)
  qed
qed

lemma goBytes_length: "length d < 2 ^ 31 \<Longrightarrow> goBytes d (of_nat (length d)) = Returns d"
  by (simp add: goBytes_small unat_of_nat_u64)

text \<open>An idle session that keeps no signature from before.\<close>

definition fresh :: "session \<Rightarrow> bool" where
  "fresh x \<longleftrightarrow> (\<not> signActive x \<longrightarrow> cachedSignature x = None)"

lemma signing_of_clear [simp]: "signing_of (clearSign x) = Idle" "fresh (clearSign x)"
  by (simp_all add: signing_of_def clearSign_def fresh_def)

lemma slotID_clear [simp]:
  "slotID (clearSign x) = slotID x" "loggedIn (clearSign x) = loggedIn x"
  by (simp_all add: clearSign_def)

section \<open>Each call is a step\<close>

definition refines ::
  "'w services \<Rightarrow> uint \<Rightarrow> sign_op \<Rightarrow> session \<Rightarrow> ck_rv \<Rightarrow> signature_out \<Rightarrow> 'w backend \<Rightarrow> bool" where
  "refines sv h op' x rv out t \<longleftrightarrow>
     (\<exists>y. sm_get (manager t) h = Some y \<and> fresh y \<and> slotID y = slotID x \<and> loggedIn y = loggedIn x
        \<and> sign_spec (backend_answers sv) (loggedIn x) op' (signing_of x) rv (handed op' rv out) (signing_of y))"

lemma refinesI:
  "sm_get (manager t) h = Some y \<Longrightarrow> fresh y \<Longrightarrow> slotID y = slotID x \<Longrightarrow> loggedIn y = loggedIn x \<Longrightarrow>
   sign_spec (backend_answers sv) (loggedIn x) op' (signing_of x) rv (handed op' rv out) (signing_of y) \<Longrightarrow>
   refines sv h op' x rv out t"
  unfolding refines_def by blast

lemma SignInit_run:
  assumes "sm_get (manager s) h = Some x"
  shows "SignInit h [m] k s =
    (if \<not> loggedIn x then Returns (Inl ErrNotLoggedIn, s)
     else if signActive x then Returns (Inl ErrSignAlreadyActive, s)
     else Returns (Inr (), s\<lparr>manager :=
       sm_update (manager s) h (startSign m (snd (parseObjectHandle k)))\<rparr>))"
  using assms by (simp add: SignInit_def bind_getSession updateSession_def)

lemma C_SignInit_run:
  assumes "initialized s" "sm_get (manager s) h = Some x"
  shows "C_SignInit h (Some m) k s =
    (if \<not> loggedIn x then Returns (Inr (CKR_USER_NOT_LOGGED_IN, ()), s)
     else if signActive x then Returns (Inr (CKR_OPERATION_ACTIVE, ()), s)
     else Returns (Inr (CKR_OK, ()), s\<lparr>manager :=
       sm_update (manager s) h (startSign m (snd (parseObjectHandle k)))\<rparr>))"
  using assms by (simp add: C_SignInit_def guarded_run catchE_def SignInit_run mapErrorToRV_root)

lemma C_SignUpdate_run:
  assumes "initialized s" "sm_get (manager s) h = Some x" "length d < 2 ^ 31"
  shows "C_SignUpdate h (Some d) (of_nat (length d)) s =
    (if \<not> signActive x then Returns (Inr (CKR_OPERATION_NOT_INITIALIZED, ()), s)
     else if length (signBuffer x) + length d > maxSignBuffer then Returns (Inr (CKR_GENERAL_ERROR, ()), s)
     else Returns (Inr (CKR_OK, ()), s\<lparr>manager :=
       sm_update (manager s) h (\<lambda>_. x\<lparr>signBuffer := signBuffer x @ d\<rparr>)\<rparr>))"
  using assms
  by (simp add: C_SignUpdate_def guarded_run goBytes_length liftOut_def orElse_run SignUpdate_run
      mapErrorToRV_root)

lemma signing_cases:
  obtains (idle) "\<not> signActive x" "signing_of x = Idle"
  | (collecting) "signActive x" "cachedSignature x = None"
      "signing_of x = Collecting (signMech x) (signKeyIndex x) (signBuffer x)"
  | (produced) sig where "signActive x" "cachedSignature x = Some sig" "signing_of x = Produced sig"
  by (cases "signActive x"; cases "cachedSignature x") (auto simp: signing_of_def)

lemma init_refines:
  assumes "sign_call sv h (OpInit m k) s = Returns (Inr (rv, out), t)" "initialized s"
    "sm_get (manager s) h = Some x" "fresh x"
  shows "refines sv h (OpInit m k) x rv out t"
proof -
  note run = assms(1) [unfolded sign_call.simps]
  consider (out) "\<not> loggedIn x" | (busy) "loggedIn x" "signActive x" | (ok) "loggedIn x" "\<not> signActive x"
    by blast
  then show ?thesis
  proof cases
    case ok
    then have "rv = CKR_OK" "t = s\<lparr>manager := sm_update (manager s) h (startSign m (snd (parseObjectHandle k)))\<rparr>"
      using run by (simp_all add: C_SignInit_run [OF assms(2,3)] bindE_def catchE_def)
    with assms(3,4) ok show ?thesis
      by (intro refinesI [where y = "startSign m (snd (parseObjectHandle k)) x"])
         (auto simp: sm_get_update startSign_def fresh_def signing_of_def)
  next
    case busy
    then have "rv = CKR_OPERATION_ACTIVE" "t = s"
      using run by (simp_all add: C_SignInit_run [OF assms(2,3)] bindE_def catchE_def)
    moreover have "signing_of x \<noteq> Idle" using busy by (cases rule: signing_cases [of x]) auto
    ultimately show ?thesis using assms(3,4) busy by (intro refinesI [where y = x]) auto
  next
    case out
    then have "rv = CKR_USER_NOT_LOGGED_IN" "t = s"
      using run by (simp_all add: C_SignInit_run [OF assms(2,3)] bindE_def catchE_def)
    with assms(3,4) out show ?thesis by (intro refinesI [where y = x]) auto
  qed
qed

lemma update_refines:
  assumes "sign_call sv h (OpUpdate d) s = Returns (Inr (rv, out), t)" "initialized s"
    "sm_get (manager s) h = Some x" "fresh x" "length d < 2 ^ 31"
  shows "refines sv h (OpUpdate d) x rv out t"
proof -
  note run = assms(1) [unfolded sign_call.simps]
  consider (idle) "\<not> signActive x" | (over) "signActive x" "length (signBuffer x) + length d > maxSignBuffer"
    | (ok) "signActive x" "length (signBuffer x) + length d \<le> maxSignBuffer" by force
  then show ?thesis
  proof cases
    case idle
    then have "rv = CKR_OPERATION_NOT_INITIALIZED" "t = s"
      using run by (simp_all add: C_SignUpdate_run [OF assms(2,3,5)] bindE_def catchE_def)
    with assms(3,4) idle show ?thesis by (intro refinesI [where y = x]) (auto simp: signing_of_def)
  next
    case over
    then have "rv = CKR_GENERAL_ERROR" "t = s"
      using run by (simp_all add: C_SignUpdate_run [OF assms(2,3,5)] bindE_def catchE_def)
    with assms(3,4) over show ?thesis
      by (intro refinesI [where y = x]; cases rule: signing_cases [of x]) auto
  next
    case ok
    then have "rv = CKR_OK" "t = s\<lparr>manager := sm_update (manager s) h
        (\<lambda>_. x\<lparr>signBuffer := signBuffer x @ d\<rparr>)\<rparr>"
      using run by (simp_all add: C_SignUpdate_run [OF assms(2,3,5)] bindE_def catchE_def)
    with assms(3,4) ok show ?thesis
      by (intro refinesI [where y = "x\<lparr>signBuffer := signBuffer x @ d\<rparr>"])
         (auto simp: sm_get_update fresh_def signing_of_def split: option.splits)
  qed
qed

lemma finish_refines:
  assumes run: "orElse (finishSign sv h (\<lambda>y. case e of None \<Rightarrow> signBuffer y | Some d \<Rightarrow> d)) mem
      (\<lambda>sig. handSignature h (replicate n 0) (of_nat n) sig) s = Returns (Inr (rv, out), t)"
    and mem: "handed (OpFinish e n) rv mem = None \<or> rv = CKR_OK"
    and x: "sm_get (manager s) h = Some x" "fresh x" and n: "n < 2 ^ 64"
    and retry: "\<And>sig. signing_of x = Produced sig \<Longrightarrow> length sig \<le> n"
  shows "refines sv h (OpFinish e n) x rv out t"
proof -
  let ?data = "case e of None \<Rightarrow> signBuffer x | Some d \<Rightarrow> d"
  show ?thesis
  proof (cases rule: signing_cases [of x])
    case idle
    then have "rv = CKR_OPERATION_NOT_INITIALIZED" "t = s" "out = mem"
      using run x(1) by (simp_all add: orElse_run finishSign_run mapErrorToRV_root)
    with idle x mem show ?thesis by (intro refinesI [where y = x]) (auto simp: const_vals)
  next
    case (produced sig)
    then have run': "handSignature h (replicate n 0) (of_nat n) sig
        (s\<lparr>manager := sm_update (manager s) h clearSign\<rparr>) = Returns (Inr (rv, out), t)"
      using run x(1) by (simp add: orElse_run finishSign_run)
    then have "rv = CKR_OK" "out = (Some (overwrite sig (replicate n 0)), Some (of_nat (length sig)))"
      "manager t = sm_update (sm_update (manager s) h clearSign) h clearSign"
      using retry [OF produced(3)] n
      by (auto simp: handSignature_run unat_of_nat_u64 split: if_split_asm)
    with produced(3) retry [OF produced(3)] x(1) n show ?thesis
      by (intro refinesI [where y = "clearSign (clearSign x)"])
         (auto simp: sm_get_update unat_of_nat_u64 slotID_clear)
  next
    case collecting
    obtain q u where inner: "signInternal sv x ?data s = Returns (q, u)"
      using safeD [OF safe_sign(8)] by blast
    then have u: "sm_get (manager u) h = Some x"
      using keepsD [OF core_sign(4) inner] x(1) by (simp add: same_core_def)
    show ?thesis
    proof (cases q)
      case (Inl err)
      then have "rv = mapErrorToRV err" "t = u\<lparr>manager := sm_update (manager u) h clearSign\<rparr>" "out = mem"
        using run x(1) collecting inner by (simp_all add: orElse_run finishSign_run)
      with u collecting(3) mem mapErrorToRV_codes [of err] show ?thesis
        by (intro refinesI [where y = "clearSign x"]) (auto simp: sm_get_update slotID_clear)
    next
      case (Inr sig)
      then have run': "handSignature h (replicate n 0) (of_nat n) sig u = Returns (Inr (rv, out), t)"
        using run x(1) collecting inner by (simp add: orElse_run finishSign_run)
      have ans: "backend_answers sv (signMech x) (signKeyIndex x) ?data sig"
        using inner Inr by (auto intro: backend_answersI)
      show ?thesis
      proof (cases "n < length sig")
        case True
        with run' n have "rv = CKR_BUFFER_TOO_SMALL" "manager t = sm_update (manager u) h
            (\<lambda>x. x\<lparr>cachedSignature := Some sig\<rparr>)" "handed (OpFinish e n) rv out = None"
          by (auto simp: handSignature_run unat_of_nat_u64 const_vals split: if_split_asm)
        with True u collecting ans show ?thesis
          by (intro refinesI [where y = "x\<lparr>cachedSignature := Some sig\<rparr>"])
             (auto simp: sm_get_update signing_of_def fresh_def)
      next
        case False
        with run' n have "rv = CKR_OK" "manager t = sm_update (manager u) h clearSign"
          "handed (OpFinish e n) rv out = Some sig"
          by (auto simp: handSignature_run unat_of_nat_u64 split: if_split_asm)
        with False u collecting ans show ?thesis
          by (intro refinesI [where y = "clearSign x"]) (auto simp: sm_get_update slotID_clear)
      qed
    qed
  qed
qed

lemma C_Sign_run:
  assumes "initialized s" "length d < 2 ^ 31"
  shows "C_Sign sv h (Some d) (of_nat (length d)) (Some buf) (Some len) s
    = orElse (Sign sv h d) (Some buf, Some len) (\<lambda>sig. handSignature h buf len sig) s"
  using assms by (simp add: C_Sign_def guarded_run goBytes_length liftOut_def)

lemma C_SignFinal_run:
  "initialized s \<Longrightarrow> C_SignFinal sv h (Some buf) (Some len) s
    = orElse (SignFinal sv h) (Some buf, Some len) (\<lambda>sig. handSignature h buf len sig) s"
  by (simp add: C_SignFinal_def guarded_run)

lemma size_refines:
  assumes "sign_call sv h OpSize s = Returns (Inr (rv, out), t)" "initialized s"
    "sm_get (manager s) h = Some x" "fresh x"
  shows "refines sv h OpSize x rv out t"
proof -
  have "keeps same_core (querySize sv h)" unfolding querySize_def by (intro preserves)
  then have "manager t = manager s" "rv = CKR_OK"
    using assms(1,2)
    by (auto simp: C_SignFinal_def guarded_run keeps_def same_core_def)
      (auto simp: querySize_def elim!: bindE_InrE)
  with assms(3,4) show ?thesis by (intro refinesI [where y = x]) auto
qed

lemma sign_call_refines:
  assumes "sign_call sv h op' s = Returns (Inr (rv, out), t)" "initialized s"
    "sm_get (manager s) h = Some x" and fresh: "fresh x" and fits: "op_fits op'"
    and room: "\<And>e n sig. op' = OpFinish e n \<Longrightarrow> signing_of x = Produced sig \<Longrightarrow> length sig \<le> n"
  shows "refines sv h op' x rv out t"
proof (cases op')
  case (OpInit m k)
  with assms(1-3) fresh init_refines show ?thesis by blast
next
  case (OpUpdate d)
  with fits have "length d < 2 ^ 31" by (simp add: op_fits_def)
  with update_refines [OF _ assms(2,3) fresh] assms(1) OpUpdate show ?thesis by blast
next
  case OpSize
  with assms(1-3) fresh size_refines show ?thesis by blast
next
  case (OpFinish e n)
  let ?mem = "(Some (replicate n 0), Some (of_nat n))"
  have n: "n < 2 ^ 64" and d: "\<And>d. e = Some d \<Longrightarrow> length d < 2 ^ 31"
    using fits OpFinish by (auto simp: op_fits_def)
  have run: "orElse (finishSign sv h (\<lambda>y. case e of None \<Rightarrow> signBuffer y | Some d \<Rightarrow> d)) ?mem
      (\<lambda>sig. handSignature h (replicate n 0) (of_nat n) sig) s = Returns (Inr (rv, out), t)"
    using assms(1,2) d OpFinish
    by (cases e) (simp_all add: C_Sign_run C_SignFinal_run Sign_def SignFinal_def)
  have "handed (OpFinish e n) rv ?mem = None \<or> rv = CKR_OK" by simp
  from finish_refines [OF run this assms(3) fresh n room [OF OpFinish]] OpFinish
  show ?thesis by blast
qed

section \<open>Properties\<close>

text \<open>
  C1: on a session whose idle state keeps nothing from before, every call of the signing
  functions is a step of the abstract machine: its code, the signature it hands out and the
  state it leaves are allowed by the specification, where the signature belongs to the data
  collected in parts or given at once, and the session's slot and login stay. The one step
  that is left out is a buffer that is again too small for a signature that is already kept.
\<close>

theorem signing_refines:
  assumes "sign_call sv h op' s = Returns (Inr (rv, out), t)" "initialized s"
    "sm_get (manager s) h = Some x" "\<not> signActive x \<longrightarrow> cachedSignature x = None" "op_fits op'"
    "\<And>e n sig. op' = OpFinish e n \<Longrightarrow> signing_of x = Produced sig \<Longrightarrow> length sig \<le> n"
  shows "\<exists>y. sm_get (manager t) h = Some y \<and> (\<not> signActive y \<longrightarrow> cachedSignature y = None)
    \<and> slotID y = slotID x \<and> loggedIn y = loggedIn x
    \<and> sign_spec (backend_answers sv) (loggedIn x) op' (signing_of x) rv (handed op' rv out) (signing_of y)"
  using sign_call_refines [OF assms(1-3) _ assms(5,6)] assms(4) by (auto simp: refines_def fresh_def)

text \<open>The signature of \<open>example_sign\<close> does not fit two bytes.\<close>

lemma example_too_small:
  "\<exists>t. C_Sign (traced (example_services ok_server)) 1 (Some (replicate 32 1)) 32 (Some [0, 0]) (Some 2)
      (signing_state CKM_ECDSA) = Returns (Inr (CKR_BUFFER_TOO_SMALL, Some [0, 0], Some 3), t)"
proof -
  obtain t where "Sign (traced (example_services ok_server)) 1 (replicate 32 1) (signing_state CKM_ECDSA)
      = Returns (Inr [1, 2, 3], t)" using example_sign by blast
  then show ?thesis
    using C_Sign_run [of "signing_state CKM_ECDSA" "replicate 32 1"]
    by (simp add: orElse_run handSignature_run)
qed

theorem signing_refines_witness:
  "\<exists>t y. sign_call (traced (example_services ok_server)) 1 (OpFinish (Some (replicate 32 1)) 2)
      (signing_state CKM_ECDSA) = Returns (Inr (CKR_BUFFER_TOO_SMALL, Some [0, 0], Some 3), t)
    \<and> sm_get (manager t) 1 = Some y
    \<and> (\<exists>sig. signing_of y = Produced sig \<and> length sig > 2)"
proof -
  let ?sv = "traced (example_services ok_server)"
  obtain t where t: "sign_call ?sv 1 (OpFinish (Some (replicate 32 1)) 2) (signing_state CKM_ECDSA)
      = Returns (Inr (CKR_BUFFER_TOO_SMALL, Some [0, 0], Some 3), t)"
    using example_too_small by (auto simp: numeral_2_eq_2)
  have st: "signing_of (signing_session CKM_ECDSA) = Collecting CKM_ECDSA 1 []"
    by (simp add: signing_of_def)
  obtain y where "sm_get (manager t) 1 = Some y" and spec: "sign_spec (backend_answers ?sv)
      (loggedIn (signing_session CKM_ECDSA)) (OpFinish (Some (replicate 32 1)) 2)
      (signing_of (signing_session CKM_ECDSA)) CKR_BUFFER_TOO_SMALL
      (handed (OpFinish (Some (replicate 32 1)) 2) CKR_BUFFER_TOO_SMALL (Some [0, 0], Some 3)) (signing_of y)"
    using signing_refines [OF t, of "signing_session CKM_ECDSA"] st by (auto simp: op_fits_def)
  have "CKR_BUFFER_TOO_SMALL \<noteq> CKR_OK" by (simp add: const_vals)
  with t spec \<open>sm_get (manager t) 1 = Some y\<close> show ?thesis
    using error_codes_not_BUFFER_TOO_SMALL by (auto simp: st)
qed

text \<open>
  C21: a signature that did not fit is not lost and not asked for again: after
  \<^const>\<open>CKR_BUFFER_TOO_SMALL\<close> the length reported is that of the signature, and the next call
  with a buffer of at least this length, whatever data it gives, hands out the signature of
  the first call, sends nothing and ends the operation.
\<close>

theorem kept_signature_is_handed_out:
  assumes "C_Sign sv h (Some d) (of_nat (length d)) (Some buf) (Some len) s
      = Returns (Inr (CKR_BUFFER_TOO_SMALL, out), t)"
    "initialized s" "length d < 2 ^ 31" "sm_get (manager s) h = Some x" "cachedSignature x = None"
  shows "\<exists>sig u. Sign sv h d s = Returns (Inr sig, u) \<and> world t = world u
    \<and> out = (Some buf, Some (of_nat (length sig))) \<and> unat len < length sig
    \<and> (\<forall>d' buf' len'. length d' < 2 ^ 31 \<longrightarrow> length sig \<le> unat len' \<longrightarrow>
        C_Sign sv h (Some d') (of_nat (length d')) (Some buf') (Some len') t
        = Returns (Inr (CKR_OK, Some (overwrite sig buf'), Some (of_nat (length sig))),
            t\<lparr>manager := sm_update (manager t) h clearSign\<rparr>))"
proof -
  from assms(1) obtain sig u where u: "Sign sv h d s = Returns (Inr sig, u)"
    and hand: "handSignature h buf len sig u = Returns (Inr (CKR_BUFFER_TOO_SMALL, out), t)"
    unfolding C_Sign_run [OF assms(2,3)]
    by (auto simp: orElse_run split: outcome.splits sum.splits)
  have inner: "signInternal sv x d s = Returns (Inr sig, u)"
    using finishSign_fresh [OF u [unfolded Sign_def] assms(4,5)] .
  have core: "sm_get (manager u) h = Some x" "initialized u" "signActive x"
    using keepsD [OF core_sign(4) inner] assms(2,4) u
    by (auto simp: same_core_def Sign_def finishSign_run split: if_split_asm)
  from hand have t: "t = u\<lparr>manager := sm_update (manager u) h (\<lambda>x. x\<lparr>cachedSignature := Some sig\<rparr>)\<rparr>"
    "unat len < length sig" "out = (Some buf, Some (of_nat (length sig)))"
    by (auto simp: handSignature_run const_vals split: if_split_asm)
  have twice: "sm_update (sm_update m h clearSign) h clearSign = sm_update m h clearSign" for m
    by (cases "sessions m h") (simp_all add: sm_update_def map_at_def clearSign_def)
  have "C_Sign sv h (Some d') (of_nat (length d')) (Some buf') (Some len') t
      = Returns (Inr (CKR_OK, Some (overwrite sig buf'), Some (of_nat (length sig))),
          t\<lparr>manager := sm_update (manager t) h clearSign\<rparr>)"
    if "length d' < 2 ^ 31" "length sig \<le> unat len'" for d' buf' len'
    using C_Sign_run [of t d' sv h buf' len'] that core t
    by (auto simp: orElse_run Sign_def finishSign_run handSignature_run sm_get_update twice)
  with u t show ?thesis by auto
qed

theorem kept_signature_is_handed_out_witness:
  "\<exists>t. C_Sign (traced (example_services ok_server)) 1 (Some (replicate 32 1)) 32 (Some [0, 0]) (Some 2)
        (signing_state CKM_ECDSA) = Returns (Inr (CKR_BUFFER_TOO_SMALL, Some [0, 0], Some 3), t)
    \<and> (\<exists>sig u. C_Sign (traced (example_services ok_server)) 1 (Some []) 0 (Some [0, 0, 0, 0]) (Some 4) t
        = Returns (Inr (CKR_OK, Some (overwrite sig [0, 0, 0, 0]), Some (of_nat (length sig))), u)
        \<and> 2 < length sig)"
proof -
  let ?sv = "traced (example_services ok_server)"
  obtain t where t: "C_Sign ?sv 1 (Some (replicate 32 1)) (of_nat (length (replicate 32 (1 :: byte))))
      (Some [0, 0]) (Some 2) (signing_state CKM_ECDSA) = Returns (Inr (CKR_BUFFER_TOO_SMALL, Some [0, 0], Some 3), t)"
    using example_too_small by auto
  have prem: "initialized (signing_state CKM_ECDSA)" "length (replicate 32 (1 :: byte)) < 2 ^ 31"
    "cachedSignature (signing_session CKM_ECDSA) = None" by simp_all
  obtain v where sign: "Sign ?sv 1 (replicate 32 1) (signing_state CKM_ECDSA) = Returns (Inr [1, 2, 3], v)"
    using example_sign by blast
  obtain sig u where sig: "Sign ?sv 1 (replicate 32 1) (signing_state CKM_ECDSA) = Returns (Inr sig, u)"
    "unat (2 :: uint) < length sig"
    and again: "\<And>d' buf' len'. length d' < 2 ^ 31 \<Longrightarrow> length sig \<le> unat len' \<Longrightarrow>
      C_Sign ?sv 1 (Some d') (of_nat (length d')) (Some buf') (Some len') t
        = Returns (Inr (CKR_OK, Some (overwrite sig buf'), Some (of_nat (length sig))),
            t\<lparr>manager := sm_update (manager t) 1 clearSign\<rparr>)"
    using kept_signature_is_handed_out [OF t prem(1,2) signing_state_session(1) prem(3)] by blast
  from sig(1) sign have "sig = [1, 2, 3]" by simp
  with again [of "[]" 4 "[0, 0, 0, 0]"] sig(2) t show ?thesis by auto
qed

text \<open>
  C22: the contract ends with a second buffer that is too small: the code then ends the
  operation but keeps the signature in the idle session, and the next operation on the
  session, with any mechanism, key and data, hands out the old signature.
\<close>

theorem stale_signature:
  assumes "initialized s" "sm_get (manager s) h = Some x" "signActive x" "loggedIn x"
    "cachedSignature x = Some sig" "unat len < length sig" "length sig \<le> unat len'"
    "length d < 2 ^ 31" "length d' < 2 ^ 31"
  shows "\<exists>t u v. C_Sign sv h (Some d) (of_nat (length d)) (Some buf) (Some len) s
        = Returns (Inr (CKR_BUFFER_TOO_SMALL, Some buf, Some (of_nat (length sig))), t)
    \<and> C_SignInit h (Some m) k t = Returns (Inr (CKR_OK, ()), u)
    \<and> C_Sign sv h (Some d') (of_nat (length d')) (Some buf') (Some len') u
        = Returns (Inr (CKR_OK, Some (overwrite sig buf'), Some (of_nat (length sig))), v)"
proof -
  have nonempty: "sig \<noteq> []" using assms(6) by auto
  let ?keep = "\<lambda>x. x\<lparr>cachedSignature := Some sig\<rparr>"
  let ?t = "s\<lparr>manager := sm_update (sm_update (manager s) h clearSign) h ?keep\<rparr>"
  let ?u = "?t\<lparr>manager := sm_update (manager ?t) h (startSign m (snd (parseObjectHandle k)))\<rparr>"
  have "C_Sign sv h (Some d) (of_nat (length d)) (Some buf) (Some len) s
      = Returns (Inr (CKR_BUFFER_TOO_SMALL, Some buf, Some (of_nat (length sig))), ?t)"
    using assms by (simp add: C_Sign_run orElse_run Sign_def finishSign_run handSignature_run)
  moreover have upd: "sm_get (sm_update m h f) h = Some (f y)" if "sm_get m h = Some y" for m f y
    using that by (simp add: sm_get_update)
  have get: "sm_get (manager ?t) h = Some (?keep (clearSign x))"
    using assms(2) by (simp add: sm_get_update)
  have "C_SignInit h (Some m) k ?t = Returns (Inr (CKR_OK, ()), ?u)"
    using C_SignInit_run [OF _ get, of m k] assms(1,4) by (simp add: clearSign_def)
  moreover have "sm_get (manager ?u) h = Some (startSign m (snd (parseObjectHandle k)) (?keep (clearSign x)))"
    using upd [OF get] by simp
  then obtain v where "C_Sign sv h (Some d') (of_nat (length d')) (Some buf') (Some len') ?u
      = Returns (Inr (CKR_OK, Some (overwrite sig buf'), Some (of_nat (length sig))), v)"
    using assms nonempty C_Sign_run [of ?u d' sv h buf' len']
    by (simp add: orElse_run Sign_def finishSign_run handSignature_run startSign_def)
  ultimately show ?thesis by blast
qed

theorem stale_signature_witness:
  "\<exists>u v. C_Sign (traced (example_services ok_server)) 1 (Some [9]) (of_nat (length [9 :: byte]))
      (Some [0, 0, 0]) (Some 3) u = Returns (Inr (CKR_OK, Some [1, 2, 3], Some 3), v)"
proof -
  let ?x = "(signing_session CKM_ECDSA)\<lparr>cachedSignature := Some [1, 2, 3]\<rparr>"
  let ?s = "(signing_state CKM_ECDSA)\<lparr>manager := \<lparr>sessions = [1 \<mapsto> ?x], nextID = 2\<rparr>\<rparr>"
  have "sm_get (manager ?s) 1 = Some ?x" by (simp add: sm_get_def)
  from stale_signature [of ?s, OF _ this, of "[1, 2, 3]" 0 3 "[1]" "[9]"
      "traced (example_services ok_server)" "[]" CKM_RSA_PKCS 0 "[0, 0, 0]"]
  show ?thesis by (auto simp: overwrite_def)
qed

end
