(* ===== verification/History.thy ===== *)
theory History
  imports Signing_Contract
begin

text \<open>
  Histories: the calls a process has made since it was loaded, with their codes, and what must
  have happened before a signature is handed out.
\<close>

section \<open>Histories\<close>

text \<open>
  An event is a call, its code, and the state it was made in. The services carry their log,
  which starts empty. Between calls the world may change, but not the log.
\<close>

type_synonym 'w event = "api_call \<times> ck_rv \<times> ('w \<times> exchange list) backend"

inductive history ::
  "'w services \<Rightarrow> 'w event list \<Rightarrow> ('w \<times> exchange list) backend \<Rightarrow> bool" for sv where
  load: "unloaded s \<Longrightarrow> exchanges s = [] \<Longrightarrow> history sv [] s"
| call: "history sv evs s \<Longrightarrow> sm_room (manager s) \<Longrightarrow>
    exec (traced sv) c s = Returns (Inr (rv, m), t) \<Longrightarrow> history sv (evs @ [(c, rv, s)]) t"
| outside: "history sv evs s \<Longrightarrow> history sv evs (s\<lparr>world := (w, exchanges s)\<rparr>)"

lemma history_inv: "history sv evs s \<Longrightarrow> module_inv s"
proof (induction rule: history.induct)
  case (load s)
  then show ?case by (simp add: unloaded_def module_inv_def)
next
  case (call evs s c rv m t)
  then show ?case using exec_inv by blast
next
  case (outside evs s w)
  then show ?case by (simp add: module_inv_def client_inv_def)
qed

section \<open>Where a login comes from\<close>

text \<open>
  The events that log in the sessions of a slot: a login on a session of the slot, and the
  opening of a session while the configuration holds a token or client credentials.
\<close>

fun logs_in :: "uint \<Rightarrow> 'w event \<Rightarrow> bool" where
  "logs_in slot (LoginCall h u p n, rv, s) \<longleftrightarrow>
     rv = CKR_OK \<and> map_option slotID (sm_get (manager s) h) = Some slot"
| "logs_in slot (OpenSessionCall slot' f p, rv, s) \<longleftrightarrow>
     rv = CKR_OK \<and> slot' = slot \<and> (isTokenAuth (config s) \<or> hasConfigCredentials (config s))"
| "logs_in slot _ \<longleftrightarrow> False"

definition authorised :: "'w event list \<Rightarrow> uint \<Rightarrow> bool" where
  "authorised evs slot \<longleftrightarrow> (\<exists>e \<in> set evs. logs_in slot e)"

text \<open>The operation of a session was started, with its mechanism and key, after a login.\<close>

definition started :: "'w event list \<Rightarrow> uint \<Rightarrow> uint \<Rightarrow> uint \<Rightarrow> bool" where
  "started evs h mech keyIndex \<longleftrightarrow>
     (\<exists>pre key s x post. evs = pre @ (SignInitCall h (Some mech) key, CKR_OK, s) # post
        \<and> snd (parseObjectHandle key) = keyIndex
        \<and> sm_get (manager s) h = Some x \<and> authorised pre (slotID x))"

lemma authorised_append [simp]: "authorised evs slot \<Longrightarrow> authorised (evs @ es) slot"
  by (auto simp: authorised_def)

lemma started_append: "started evs h m k \<Longrightarrow> started (evs @ es) h m k"
  unfolding started_def by (metis append.assoc append_Cons)

definition session_history :: "'w event list \<Rightarrow> uint \<Rightarrow> session \<Rightarrow> bool" where
  "session_history evs h x \<longleftrightarrow>
     (loggedIn x \<longrightarrow> authorised evs (slotID x))
     \<and> (signActive x \<longrightarrow> started evs h (signMech x) (signKeyIndex x))"

lemma session_history_append: "session_history evs h x \<Longrightarrow> session_history (evs @ es) h x"
  by (auto simp: session_history_def started_append)

definition login_inv :: "'w event list \<Rightarrow> ('w \<times> exchange list) backend \<Rightarrow> bool" where
  "login_inv evs s \<longleftrightarrow>
     (initialized s \<longrightarrow> (\<forall>h x. sm_get (manager s) h = Some x \<longrightarrow> session_history evs h x))"

section \<open>How calls change sessions\<close>

text \<open>
  Every session of the later state was there before and is related to what it was. The
  relation must allow what searches, parts of data, the end of an operation and a logout do.
\<close>

definition sessions_by :: "(session \<Rightarrow> session \<Rightarrow> bool) \<Rightarrow> 'w backend \<Rightarrow> 'w backend \<Rightarrow> bool" where
  "sessions_by R s t \<longleftrightarrow> (initialized t \<longrightarrow> initialized s)
     \<and> (\<forall>h y. sm_get (manager t) h = Some y \<longrightarrow> (\<exists>x. sm_get (manager s) h = Some x \<and> R x y))"

locale session_relation =
  fixes R :: "session \<Rightarrow> session \<Rightarrow> bool"
  assumes same: "R x x" and chain: "R x y \<Longrightarrow> R y z \<Longrightarrow> R x z"
    and search: "R x (x\<lparr>findActive := a, findTemplate := b, findResults := c, findPos := d\<rparr>)"
    and buffer: "R x (x\<lparr>signBuffer := e\<rparr>)"
    and clear: "R x (clearSign x)"
    and logout: "R x (x\<lparr>loggedIn := False\<rparr>)"
begin

sublocale by_session: frame_relation "sessions_by R"
proof unfold_locales
  fix s t u
  assume "sessions_by R s t" "sessions_by R t u"
  then show "sessions_by R s u" unfolding sessions_by_def by (meson chain)
qed (auto simp: sessions_by_def same)

lemma by_core: "same_core s t \<Longrightarrow> sessions_by R s t"
  by (simp add: sessions_by_def same_core_def same)

lemma keeps_by_core: "keeps same_core f \<Longrightarrow> keeps (sessions_by R) f"
  by (auto simp: keeps_def intro: by_core)

lemma keeps_by_manager:
  "(\<And>m h y. sm_get (f m) h = Some y \<Longrightarrow> \<exists>x. sm_get m h = Some x \<and> R x y) \<Longrightarrow>
   keeps (sessions_by R) (updateManager f)"
  by (simp add: keeps_def sessions_by_def)

lemma keeps_by_session [preserves]:
  "(\<And>x. R x (f x)) \<Longrightarrow> keeps (sessions_by R) (updateSession h f)"
  unfolding updateSession_def
  by (intro keeps_by_manager) (auto simp: sm_get_update same split: if_splits)

lemma by_update_at:
  assumes "sm_get (manager s) h = Some x" "R x (f x)"
  shows "sessions_by R s (s\<lparr>manager := sm_update (manager s) h f\<rparr>)"
  using assms by (auto simp: sessions_by_def sm_get_update same split: if_splits)

lemma by_slots [preserves]:
  "keeps (sessions_by R) (updateManager (\<lambda>m. setAllLoggedInForSlot m slot False))"
  "keeps (sessions_by R) (updateManager (\<lambda>m. closeAllForSlot m slot))"
  by (rule keeps_by_manager; auto simp: sm_get_def setAllLoggedInForSlot_def
      closeAllForSlot_def same logout split: if_splits option.splits)+

lemma search_fields:
  "R x (x\<lparr>findActive := a, findTemplate := b, findResults := c, findPos := d\<rparr>)"
  "R x (x\<lparr>findActive := a, findResults := c, findPos := d\<rparr>)" "R x (x\<lparr>findPos := d\<rparr>)"
proof -
  show "R x (x\<lparr>findActive := a, findResults := c, findPos := d\<rparr>)"
    using search [where x = x and a = a and b = "findTemplate x" and c = c and d = d] by (cases x) simp
  show "R x (x\<lparr>findPos := d\<rparr>)"
    using search [where x = x and a = "findActive x" and b = "findTemplate x"
      and c = "findResults x" and d = d] by (cases x) simp
qed (rule search)

lemma by_find [preserves]:
  "keeps (sessions_by R) (setFindResult h template results)"
  "keeps (sessions_by R) (setEmptyFindResult h template)"
  "keeps (sessions_by R) (FindObjectsFinal h)"
  unfolding setFindResult_def setEmptyFindResult_def FindObjectsFinal_def
  by (intro preserves keeps_by_core search_fields; simp)+

lemma by_FindObjects [preserves]: "keeps (sessions_by R) (FindObjects h n)"
  by (auto simp: keeps_def FindObjects_def bind_getSession updateSession_def bindE_Inr Let_def
      by_session.refl intro!: by_update_at search_fields split: option.splits if_split_asm)

lemma by_SignUpdate [preserves]: "keeps (sessions_by R) (SignUpdate h d)"
  unfolding keeps_def SignUpdate_run
  by (auto simp: by_session.refl intro!: by_update_at buffer split: option.splits if_splits)

lemma by_FindObjectsInit [preserves]: "keeps (sessions_by R) (FindObjectsInit sv h template)"
  unfolding FindObjectsInit_def Let_def
  by (intro preserves core_getSession(1) [THEN keeps_by_core] core_matches [THEN keeps_by_core])

lemma by_clear [preserves]:
  "keeps (sessions_by R) (clearSignState h)" "keeps (sessions_by R) (clearSignStateByHandle h)"
  unfolding clearSignState_def clearSignStateByHandle_def
  by (intro preserves clear)+

lemma by_finishSign [preserves]: "keeps (sessions_by R) (finishSign sv h d)"
  unfolding finishSign_def
  by (intro preserves core_getSession(1) [THEN keeps_by_core] core_sign(4) [THEN keeps_by_core])

lemma by_CloseSession [preserves]: "keeps (sessions_by R) (CloseSession h)"
proof (rule keepsI)
  fix s r t
  assume "CloseSession h s = Returns (r, t)"
  then obtain b m where m: "sm_close (manager s) h = (b, m)" "t = s\<lparr>manager := m\<rparr>"
    by (auto simp: CloseSession_def split: prod.splits if_splits elim!: bindE_ReturnsE)
  then show "sessions_by R s t"
    using sess.lookup_remove [OF m(1)] by (auto simp: sessions_by_def same)
qed

lemma by_Logout [preserves]: "keeps (sessions_by R) (Logout h)"
  unfolding Logout_def by (intro preserves core_getSession(1) [THEN keeps_by_core])

lemma by_Finalize [preserves]: "keeps (sessions_by R) Finalize"
  unfolding Finalize_def by (intro preserves keeps_modify) (simp add: sessions_by_def same)

lemmas by_queries =
  core_slot_queries [THEN keeps_by_core] core_getSession [THEN keeps_by_core]
  core_GetAttributeValue [THEN keeps_by_core] core_sign(5) [THEN keeps_by_core]

lemma by_exec:
  assumes "\<not> signs c" "c \<noteq> InitializeCall" "\<And>slot f p. c \<noteq> OpenSessionCall slot f p"
    "\<And>h u p n. c \<noteq> LoginCall h u p n" "\<And>h m k. c \<noteq> SignInitCall h m k"
  shows "keeps (sessions_by R) (exec sv c)"
  using assms
  by (cases c; simp add: signs_def; unfold C_Finalize_def C_GetInfo_def C_GetSlotList_def
    C_GetSlotInfo_def C_GetTokenInfo_def C_CloseSession_def C_CloseAllSessions_def
    C_GetSessionInfo_def C_Logout_def C_GetMechanismList_def C_GetMechanismInfo_def
    C_FindObjectsInit_def C_FindObjects_def C_FindObjectsFinal_def C_GetAttributeValue_def
    C_SignUpdate_def notSupported_def simply_def answerList_def Let_def;
    intro preserves by_queries)

end

section \<open>Calls that grant nothing\<close>

text \<open>
  A session goes on: same slot, no new login, and an operation in progress is one that was.
\<close>

definition continues :: "session \<Rightarrow> session \<Rightarrow> bool" where
  "continues x y \<longleftrightarrow> slotID y = slotID x \<and> (loggedIn y \<longrightarrow> loggedIn x)
     \<and> (signActive y \<longrightarrow> signActive x \<and> signMech y = signMech x \<and> signKeyIndex y = signKeyIndex x)"

interpretation goes_on: session_relation continues
  by unfold_locales (auto simp: continues_def clearSign_def)

lemma continues_history: "continues x y \<Longrightarrow> session_history evs h x \<Longrightarrow> session_history evs h y"
  by (auto simp: continues_def session_history_def)

lemma goes_on_history:
  "sessions_by continues s t \<Longrightarrow> login_inv evs s \<Longrightarrow> login_inv (evs @ es) t"
  unfolding sessions_by_def login_inv_def
  by (meson continues_history session_history_append)

lemma goes_on_handSignature [preserves]:
  "keeps (sessions_by continues) (handSignature h buf len sig)"
  unfolding handSignature_def cacheSignResult_def
  by (auto intro!: preserves simp: continues_def)

fun grants_login :: "api_call \<Rightarrow> bool" where
  "grants_login InitializeCall \<longleftrightarrow> True"
| "grants_login (OpenSessionCall slot f p) \<longleftrightarrow> True"
| "grants_login (LoginCall h u p n) \<longleftrightarrow> True"
| "grants_login (SignInitCall h m k) \<longleftrightarrow> True"
| "grants_login _ \<longleftrightarrow> False"

lemma exec_goes_on:
  assumes "\<not> grants_login c"
  shows "keeps (sessions_by continues) (exec sv c)"
proof (cases "signs c")
  case True
  then show ?thesis
    by (cases c; simp add: signs_def; unfold C_Sign_def C_SignFinal_def querySize_def Sign_def
        SignFinal_def; intro preserves goes_on.by_queries)
next
  case False
  with assms show ?thesis by (intro goes_on.by_exec) auto
qed

section \<open>Calls that grant something\<close>

lemma initialize_history:
  assumes "exec sv InitializeCall s = Returns (r, t)" "login_inv evs s"
  shows "login_inv evs t"
proof -
  obtain q where "Initialize sv s = Returns (q, t)"
    using assms(1) by (auto simp: withoutMemory_run C_Initialize_def catchE_def
        split: outcome.splits sum.splits)
  then show ?thesis
  proof (cases rule: Initialize_cases)
    case (started cfg cl u)
    then have "manager t = newSessionManager" by (simp add: same_core_def)
    then show ?thesis by (simp add: login_inv_def sm_get_def newSessionManager_def)
  qed (use assms(2) in \<open>simp_all add: login_inv_def\<close>)
qed

lemma OpenSession_cases:
  assumes "OpenSession sv slot flags s = Returns (r, t)"
  obtains (failed) e where "r = Inl e" "same_core s t"
  | (opened) h x where "r = Inr h" "slotID x = slot" "\<not> signActive x" "cachedSignature x = None"
      "loggedIn x \<longrightarrow> isTokenAuth (config s) \<or> hasConfigCredentials (config s)"
      "\<And>h'. sm_get (manager t) h' = (if h' = h then Some x else sm_get (manager s) h')"
proof -
  from assms show thesis unfolding OpenSession_def
  proof (cases rule: bindE_ReturnsE)
    case (err e)
    with keepsD [OF core_getSignerBySlot err(1)] failed show thesis by simp
  next
    case (ok signer s1)
    then have core: "manager s1 = manager s" "config s1 = config s"
      using keepsD [OF core_getSignerBySlot ok(1)] by (auto simp: same_core_def)
    obtain h m where m: "sm_open (manager s) slot = (h, m)" by fastforce
    then have r: "r = Inr h" using ok(2) core
      by (auto simp: openIn_def accessToken_def bindE_Inr split: if_split_asm)
    have t: "manager t = m \<or> manager t = setLoggedIn m h True
        \<and> (isTokenAuth (config s) \<or> hasConfigCredentials (config s))"
      using openIn_run [OF ok(2) [unfolded r]] m core by auto
    have new: "sm_get m h' = (if h' = h then Some (new_session slot) else sm_get (manager s) h')" for h'
      using sess.lookup_create [OF m] .
    show thesis
    proof (cases "manager t = m")
      case True
      with new r show thesis by (intro opened [of h "new_session slot"]) (auto simp: new_session_def)
    next
      case False
      with t new r show thesis
        by (intro opened [of h "(new_session slot)\<lparr>loggedIn := True\<rparr>"])
           (auto simp: new_session_def setLoggedIn_def sm_get_update)
    qed
  qed
qed

lemma open_history:
  assumes "exec sv (OpenSessionCall slot f p) s = Returns (Inr (rv, m), t)" "initialized s"
    "login_inv evs s"
  shows "login_inv (evs @ [(OpenSessionCall slot f p, rv, s)]) t"
proof (cases p)
  case None
  with assms have "sessions_by continues s t"
    by (simp add: withMemory_run C_OpenSession_def guarded_run goes_on.by_session.refl)
  with assms(3) show ?thesis by (rule goes_on_history [rotated])
next
  case (Some old)
  obtain r where run: "OpenSession sv slot f s = Returns (r, t)"
    and rv: "rv = (case r of Inl e \<Rightarrow> mapErrorToRV e | Inr _ \<Rightarrow> CKR_OK)"
    using assms(1,2) Some
    by (auto simp: withMemory_run C_OpenSession_def guarded_run orElse_run
        split: outcome.splits sum.splits)
  from run show ?thesis
  proof (cases rule: OpenSession_cases)
    case (failed e)
    with assms(3) show ?thesis using goes_on.by_core goes_on_history by blast
  next
    case (opened h x)
    let ?evs = "evs @ [(OpenSessionCall slot f p, rv, s)]"
    have "session_history ?evs h x"
      using opened rv by (auto simp: session_history_def authorised_def)
    moreover have "session_history ?evs h' y" if "sm_get (manager s) h' = Some y" for h' y
      using that assms(2,3) by (auto simp: login_inv_def intro: session_history_append)
    ultimately show ?thesis using opened by (simp add: login_inv_def)
  qed
qed

lemma login_history:
  assumes "exec sv (LoginCall h u p n) s = Returns (Inr (rv, m), t)" "initialized s"
    "login_inv evs s"
  shows "login_inv (evs @ [(LoginCall h u p n, rv, s)]) t"
proof -
  let ?e = "(LoginCall h u p n, rv, s)"
  obtain pin r where run: "Login sv h u pin s = Returns (r, t)"
    and rv: "rv = (case r of Inl e \<Rightarrow> mapErrorToRV e | Inr _ \<Rightarrow> CKR_OK)"
    using assms(1,2)
    by (auto simp: withMemory_run C_Login_def simply_run liftOut_def bindE_def catchE_def
        split: outcome.splits sum.splits if_splits)
  have old: "session_history (evs @ [?e]) h' y" if "sm_get (manager s) h' = Some y" for h' y
    using that assms(2,3) by (auto simp: login_inv_def intro: session_history_append)
  from run show ?thesis
  proof (cases rule: Login_cases)
    case (failed e)
    with old show ?thesis by (simp add: login_inv_def)
  next
    case (success sess s1)
    then have t: "sm_get (manager t) h' =
        map_option (\<lambda>x. if slotID x = slotID sess then x\<lparr>loggedIn := True\<rparr> else x)
          (sm_get (manager s) h')" for h'
      by (auto simp: loginSlot_run loginSlot_sessions)
    have "authorised (evs @ [?e]) (slotID sess)"
      using success(1,2) rv by (simp add: authorised_def)
    with old show ?thesis
      by (auto simp: login_inv_def t session_history_def split: if_splits)
  qed
qed

lemma sign_init_history:
  assumes "exec sv (SignInitCall h p k) s = Returns (Inr (rv, m), t)" "initialized s"
    "login_inv evs s"
  shows "login_inv (evs @ [(SignInitCall h p k, rv, s)]) t"
proof (cases "\<exists>mech x. p = Some mech \<and> sm_get (manager s) h = Some x \<and> loggedIn x \<and> \<not> signActive x")
  case True
  then obtain mech x where p: "p = Some mech" and x: "sm_get (manager s) h = Some x" "loggedIn x"
    "\<not> signActive x" by blast
  let ?evs = "evs @ [(SignInitCall h p k, rv, s)]"
  have t: "rv = CKR_OK" "manager t = sm_update (manager s) h (startSign mech (snd (parseObjectHandle k)))"
    using assms(1,2) x by (auto simp: p withMemory_run C_SignInit_run)
  have "authorised evs (slotID x)"
    using x assms(2,3) by (auto simp: login_inv_def session_history_def)
  then have "session_history ?evs h (startSign mech (snd (parseObjectHandle k)) x)"
    using x t(1) p by (fastforce simp: session_history_def startSign_def started_def)
  moreover have "session_history ?evs h' y" if "sm_get (manager s) h' = Some y" for h' y
    using that assms(2,3) by (auto simp: login_inv_def intro: session_history_append)
  ultimately show ?thesis
    using x by (auto simp: login_inv_def t(2) sm_get_update split: if_splits)
next
  case False
  then have "t = s"
    using assms(1,2)
    by (auto simp: withMemory_run C_SignInit_def guarded_run SignInit_def bind_getSession catchE_def
        split: option.splits if_splits)
  with assms(3) show ?thesis using goes_on.by_session.refl goes_on_history by blast
qed

text \<open>Together: every call keeps the account of logins and of operations in progress.\<close>

lemma exec_uninitialized:
  assumes "exec sv c s = Returns (r, t)" "\<not> initialized s" "c \<noteq> InitializeCall"
  shows "t = s"
  using assms
  by (cases c) (auto simp: withMemory_run withoutMemory_run api_defs guarded_run simply_run
      notSupported_def split: option.splits)

lemma exec_history:
  assumes "exec sv c s = Returns (Inr (rv, m), t)" "login_inv evs s"
  shows "login_inv (evs @ [(c, rv, s)]) t"
proof (cases "grants_login c")
  case False
  from keepsD [OF exec_goes_on [OF this] assms(1)] assms(2) show ?thesis by (rule goes_on_history)
next
  case True
  have append: "login_inv (evs @ es) u" if "login_inv evs u" for es u
    using that by (auto simp: login_inv_def intro: session_history_append)
  show ?thesis
  proof (cases "initialized s \<or> c = InitializeCall")
    case False
    with exec_uninitialized [OF assms(1)] have "t = s" by blast
    with assms(2) append show ?thesis by blast
  next
    case True
    with \<open>grants_login c\<close> assms append show ?thesis
      by (cases c) (blast dest: initialize_history, auto intro: open_history login_history sign_init_history)
  qed
qed

lemma history_login: "history sv evs s \<Longrightarrow> login_inv evs s"
proof (induction rule: history.induct)
  case (load s)
  then show ?case by (simp add: unloaded_def login_inv_def)
next
  case (call evs s c rv m t)
  then show ?case using exec_history by blast
next
  case (outside evs s w)
  then show ?case by (simp add: login_inv_def)
qed

section \<open>Signatures received\<close>

text \<open>A sign request among the exchanges was answered with this signature.\<close>

definition received :: "'w services \<Rightarrow> exchange list \<Rightarrow> bytes \<Rightarrow> bool" where
  "received sv xs sig \<longleftrightarrow>
     (\<exists>c token signerID req resp text. (sign_request c token signerID req, Inr resp) \<in> set xs
        \<and> rs_status resp \<le> 399 \<and> sv_decode_signature sv resp = Inr text \<and> b64_decode text = Some sig)"

lemma received_append: "received sv xs sig \<Longrightarrow> received sv (xs @ ys) sig"
  unfolding received_def by (metis UnCI set_append)

lemma received_last:
  assumes "retried (\<lambda>token. sign_request c token i req) b xs" "signatureAnswered sv xs sig"
  shows "received sv (ys @ xs) sig"
proof -
  from assms(2) obtain resp body where xs: "xs \<noteq> []" "snd (last xs) = Inr resp" "rs_status resp \<le> 399"
    "sv_decode_signature sv resp = Inr body" "b64_decode body = Some sig"
    by (auto simp: signatureAnswered_def)
  with assms(1) obtain token where "fst (last xs) = sign_request c token i req"
    by (auto simp: retried_def split: list.splits)
  with xs have "(sign_request c token i req, Inr resp) \<in> set xs" by (metis last_in_set prod.collapse)
  with xs show ?thesis unfolding received_def by (metis UnCI set_append)
qed

lemma signInternal_received:
  assumes "signInternal (traced sv) x d s = Returns (Inr sig, t)"
  shows "received sv (exchanges t) sig"
  using assms
proof (cases rule: traced.signInternal_log)
  case (sent signer s1 alg d dig ctx xs ys)
  moreover from this have "signatureAnswered sv xs sig" by (simp add: signatureAnswered_def)
  ultimately show ?thesis using received_last by fastforce
qed auto

lemma signInternal_grows:
  assumes "signInternal (traced sv) x d s = Returns (r, t)"
  shows "prefix (exchanges s) (exchanges t)"
  using assms
proof (cases rule: traced.signInternal_log)
  case (unresolved e)
  with traced.getSignerBySlot_reads show ?thesis by (fastforce simp: prefix_def)
next
  case (refused signer e)
  with traced.getSignerBySlot_reads show ?thesis by (fastforce simp: prefix_def)
next
  case (sent signer s1 alg d dig ctx xs ys)
  with traced.getSignerBySlot_reads [OF sent(1)] show ?thesis by (auto simp: prefix_def)
qed

text \<open>Sessions keep no signature but those the server sent.\<close>

definition kept_inv :: "'w services \<Rightarrow> ('w \<times> exchange list) backend \<Rightarrow> bool" where
  "kept_inv sv s \<longleftrightarrow> (initialized s \<longrightarrow> (\<forall>h x sig. sm_get (manager s) h = Some x \<longrightarrow>
     cachedSignature x = Some sig \<longrightarrow> received sv (exchanges s) sig))"

definition keeps_signature :: "session \<Rightarrow> session \<Rightarrow> bool" where
  "keeps_signature x y \<longleftrightarrow> (cachedSignature y \<noteq> None \<longrightarrow> cachedSignature y = cachedSignature x)"

interpretation kept: session_relation keeps_signature
  by unfold_locales (auto simp: keeps_signature_def clearSign_def)

lemma kept_step:
  assumes "sessions_by keeps_signature s t" "prefix (exchanges s) (exchanges t)" "kept_inv sv s"
  shows "kept_inv sv t"
  using assms received_append unfolding kept_inv_def sessions_by_def keeps_signature_def prefix_def
  by (metis option.distinct(1))

lemma kept_Login [preserves]: "keeps (sessions_by keeps_signature) (Login sv h u pin)"
proof -
  have config: "keeps (sessions_by keeps_signature) (setConfigToken p)" for p
    unfolding setConfigToken_def
    by (rule keeps_modify) (simp add: sessions_by_def keeps_signature_def)
  have slot: "keeps (sessions_by keeps_signature) (loginSlot h i)" for i
    by (auto simp: keeps_def loginSlot_run sessions_by_def keeps_signature_def sm_get_def
        setAllLoggedInForSlot_def setLoggedIn_def sm_update_def map_at_def
        split: option.splits if_splits)
  show ?thesis
    unfolding Login_def
    by (intro preserves config slot core_getSession(1) [THEN kept.keeps_by_core]
        core_authenticate [THEN kept.keeps_by_core] core_accessToken [THEN kept.keeps_by_core])
qed

lemma kept_SignInit [preserves]: "keeps (sessions_by keeps_signature) (SignInit h m k)"
  unfolding SignInit_def
  by (intro preserves core_getSession(1) [THEN kept.keeps_by_core])
     (simp add: keeps_signature_def startSign_def)

section \<open>Calls that ask for a signature\<close>

fun signs_on :: "api_call \<Rightarrow> uint option" where
  "signs_on (SignCall h d n (Some buf) len) = Some h"
| "signs_on (SignFinalCall h (Some buf) len) = Some h"
| "signs_on _ = None"

lemma signing_cases_exec:
  assumes "exec sv c s = Returns (Inr (rv, m), t)" "signs c" "initialized s"
  obtains (finish) h d buf len out where "signs_on c = Some h" "m = case_prod SignatureMemory out"
      "orElse (finishSign sv h d) (Some buf, Some len) (\<lambda>sig. handSignature h buf len sig) s
        = Returns (Inr (rv, out), t)"
  | (refused) "t = s" "rv = CKR_ARGUMENTS_BAD"
  | (query) h out where "signs_on c = None" "querySize sv h s = Returns (Inr (rv, out), t)"
proof -
  from assms(2) consider (one) h d dl p n where "c = SignCall h d dl p n"
    | (final) h p n where "c = SignFinalCall h p n"
    by (auto simp: signs_def split: api_call.splits)
  then show thesis
  proof cases
    case (one h d dl p n)
    show thesis
    proof (cases "d = None \<or> n = None")
      case True
      with one assms refused show thesis
        by (auto simp: withMemory_run C_Sign_def guarded_run split: option.splits)
    next
      case False
      then obtain mem len where dn: "d = Some mem" "n = Some len" by auto
      show thesis
      proof (cases p)
        case None
        with one dn assms query [of h] show thesis
          by (auto simp: withMemory_run C_Sign_def guarded_run split: outcome.splits sum.splits)
      next
        case (Some buf)
        with one dn assms finish [of h _ "\<lambda>_. _" buf len] show thesis
          by (cases "goBytes mem dl") (auto simp: withMemory_run C_Sign_def guarded_run liftOut_def
              Sign_def panicE_def bindE_Panics split: outcome.splits sum.splits)
      qed
    qed
  next
    case (final h p n)
    show thesis
    proof (cases n)
      case None
      with final assms refused show thesis
        by (auto simp: withMemory_run C_SignFinal_def guarded_run)
    next
      case (Some len)
      show thesis
      proof (cases p)
        case None
        with final Some assms query [of h] show thesis
          by (auto simp: withMemory_run C_SignFinal_def guarded_run split: outcome.splits sum.splits)
      next
        case (Some buf)
        with final \<open>n = Some len\<close> assms finish [of h _ signBuffer buf len] show thesis
          by (auto simp: withMemory_run C_SignFinal_def guarded_run SignFinal_def
              split: outcome.splits sum.splits)
      qed
    qed
  qed
qed

lemma finishSign_received:
  assumes "finishSign (traced sv) h d s = Returns (r, t)" "kept_inv sv s" "initialized s"
  shows "prefix (exchanges s) (exchanges t) \<and> initialized t
    \<and> (\<forall>sig. r = Inr sig \<longrightarrow> received sv (exchanges t) sig)"
  using assms(1)
proof (cases rule: finishSign_cases)
  case (again x sig)
  with assms(2,3) show ?thesis by (simp add: kept_inv_def)
next
  case (signed x sig)
  then have "same_core s t" using keepsD [OF core_sign(4)] by blast
  with signed assms(3) signInternal_received signInternal_grows show ?thesis
    by (fastforce simp: same_core_def)
next
  case (failed x e u)
  then have "same_core s u" using keepsD [OF core_sign(4)] by blast
  with failed assms(3) signInternal_grows [OF failed(5)] show ?thesis by (simp add: same_core_def)
qed (use assms(3) in simp)

section \<open>Only received signatures are kept and handed out\<close>

lemma log_grows:
  assumes "exec (traced sv) c s = Returns (r, t)" "\<not> signs c"
  shows "prefix (exchanges s) (exchanges t)"
  using traced.exec_reads [OF assms] by (auto simp: prefix_def)

lemma query_grows:
  assumes "querySize (traced sv) h s = Returns (r, t)"
  shows "same_core s t" "prefix (exchanges s) (exchanges t)"
proof -
  have "keeps same_core (querySize (traced sv) h)" "keeps (sends snd reading) (querySize (traced sv) h)"
    unfolding querySize_def by (intro preserves traced.reads_sign_state)+
  from keepsD [OF this(1) assms] keepsD [OF this(2) assms]
  show "same_core s t" "prefix (exchanges s) (exchanges t)" by (auto simp: sends_def prefix_def)
qed

lemma signing_kept:
  assumes "exec (traced sv) c s = Returns (Inr (rv, m), t)" "signs c" "initialized s" "kept_inv sv s"
  shows "kept_inv sv t"
  using assms(1-3)
proof (cases rule: signing_cases_exec)
  case (finish h d buf len out)
  have after: "kept_inv sv u \<and> (\<forall>sig. r = Inr sig \<longrightarrow> received sv (exchanges u) sig)"
    if u: "finishSign (traced sv) h d s = Returns (r, u)" for r u
    using finishSign_received [OF u assms(4,3)] keepsD [OF kept.by_finishSign u] kept_step assms(4)
    by blast
  from finish(3) show ?thesis
  proof (cases rule: orElse_finish_cases)
    case (kept sig u)
    with after [OF kept(1)] show ?thesis
      by (auto simp: kept_inv_def sm_get_update split: if_splits)
  next
    case (handed sig u)
    with after [OF handed(1)] show ?thesis
      by (auto simp: kept_inv_def sm_get_update clearSign_def split: if_splits)
  qed (use after in blast)
next
  case (query h out)
  with query_grows assms(4) kept.by_core kept_step show ?thesis by blast
qed (use assms(4) in simp)

lemma open_kept:
  assumes "exec (traced sv) (OpenSessionCall slot f p) s = Returns (Inr (rv, m), t)" "initialized s"
    "kept_inv sv s"
  shows "kept_inv sv t"
proof (cases p)
  case None
  with assms show ?thesis by (simp add: withMemory_run C_OpenSession_def guarded_run)
next
  case (Some old)
  have grows: "prefix (exchanges s) (exchanges t)"
    using assms(1) by (rule log_grows) (simp add: signs_def)
  obtain r where "OpenSession (traced sv) slot f s = Returns (r, t)"
    using assms(1,2) Some
    by (auto simp: withMemory_run C_OpenSession_def guarded_run orElse_run
        split: outcome.splits sum.splits)
  then show ?thesis
  proof (cases rule: OpenSession_cases)
    case (failed e)
    with grows assms(3) kept.by_core kept_step show ?thesis by blast
  next
    case (opened h x)
    with grows assms(2,3) show ?thesis
      by (auto simp: kept_inv_def prefix_def split: if_splits) (blast intro: received_append)+
  qed
qed

lemma login_kept:
  "keeps (sessions_by keeps_signature) (exec sv (LoginCall h u p n))"
  "keeps (sessions_by keeps_signature) (exec sv (SignInitCall h q k))"
  by (simp; unfold C_Login_def C_SignInit_def simply_def; intro preserves)+

lemma keeps_exec:
  assumes "\<not> signs c" "c \<noteq> InitializeCall" "\<And>slot f p. c \<noteq> OpenSessionCall slot f p"
  shows "keeps (sessions_by keeps_signature) (exec sv c)"
proof (cases "(\<exists>h u p n. c = LoginCall h u p n) \<or> (\<exists>h m k. c = SignInitCall h m k)")
  case True
  with login_kept show ?thesis by (elim disjE exE) (simp_all del: exec.simps)
next
  case False
  with assms show ?thesis by (intro kept.by_exec) auto
qed

lemma exec_kept:
  assumes "exec (traced sv) c s = Returns (Inr (rv, m), t)" "kept_inv sv s"
  shows "kept_inv sv t"
proof (cases "initialized s \<or> c = InitializeCall")
  case False
  with exec_uninitialized [OF assms(1)] assms(2) show ?thesis by blast
next
  case True
  consider "signs c" | "c = InitializeCall" | slot f p where "c = OpenSessionCall slot f p"
    | "\<not> signs c" "keeps (sessions_by keeps_signature) (exec (traced sv) c)"
    using keeps_exec [of c "traced sv"] by blast
  then show ?thesis
  proof cases
    case 1
    with True have "initialized s" by (auto simp: signs_def)
    with 1 assms signing_kept show ?thesis by blast
  next
    case 2
    then obtain q where "Initialize (traced sv) s = Returns (q, t)"
      using assms(1) by (auto simp: withoutMemory_run C_Initialize_def catchE_def
          split: outcome.splits sum.splits)
    then show ?thesis
    proof (cases rule: Initialize_cases)
      case (started cfg cl u)
      then have "manager t = newSessionManager" by (simp add: same_core_def)
      then show ?thesis by (simp add: kept_inv_def sm_get_def newSessionManager_def)
    qed (use assms(2) in \<open>simp_all add: kept_inv_def\<close>)
  next
    case 3
    with True assms open_kept show ?thesis by blast
  next
    case 4
    with keepsD [OF 4(2) assms(1)] log_grows assms kept_step show ?thesis by blast
  qed
qed

lemma history_kept: "history sv evs s \<Longrightarrow> kept_inv sv s"
proof (induction rule: history.induct)
  case (load s)
  then show ?case by (simp add: unloaded_def kept_inv_def)
next
  case (call evs s c rv m t)
  then show ?case using exec_kept by blast
next
  case (outside evs s w)
  then show ?case by (simp add: kept_inv_def)
qed

end
