(* ===== verification/Fetched.thy ===== *)
theory Fetched
  imports History
begin

text \<open>
  Where the module's knowledge comes from: the signers and the certificates it works with,
  cached or not, are answers of the server, and the key data are those of the certificates.
\<close>

section \<open>Answers\<close>

text \<open>A request was answered with a value.\<close>

definition gotAnswer ::
  "(restyClient \<Rightarrow> string \<Rightarrow> http_request) \<Rightarrow> (http_response \<Rightarrow> string + 'r) \<Rightarrow> exchange list \<Rightarrow> 'r \<Rightarrow> bool" where
  "gotAnswer rq decode xs v \<longleftrightarrow>
     (\<exists>c token resp. (rq c token, Inr resp) \<in> set xs \<and> rs_status resp \<le> 399 \<and> decode resp = Inr v)"

definition gotSigners :: "'w services \<Rightarrow> exchange list \<Rightarrow> signerResponse list \<Rightarrow> bool" where
  "gotSigners sv = gotAnswer listSigners_request (sv_decode_signers sv)"

text \<open>The certificate of a signer, and the keys that are read from it.\<close>

definition gotCertificate :: "'w services \<Rightarrow> exchange list \<Rightarrow> string \<Rightarrow> bytes \<Rightarrow> bool" where
  "gotCertificate sv xs i der \<longleftrightarrow>
     (\<exists>pem. gotAnswer (\<lambda>c token. certificate_request c token i) (sv_decode_certificate sv) xs pem
        \<and> sv_pem_Decode sv pem = Some der)"

definition gotParsed :: "'w services \<Rightarrow> exchange list \<Rightarrow> string \<Rightarrow> certificate \<Rightarrow> bool" where
  "gotParsed sv xs i cert \<longleftrightarrow>
     (\<exists>der. gotCertificate sv xs i der \<and> sv_parse_certificate sv der = Some cert)"

definition gotRSA :: "'w services \<Rightarrow> exchange list \<Rightarrow> string \<Rightarrow> rsaKeyData \<Rightarrow> bool" where
  "gotRSA sv xs i k \<longleftrightarrow> (\<exists>cert. gotParsed sv xs i cert \<and> rsaKeyOf cert = Inr k)"

definition gotEC :: "'w services \<Rightarrow> exchange list \<Rightarrow> string \<Rightarrow> ecKeyData \<Rightarrow> bool" where
  "gotEC sv xs i k \<longleftrightarrow> (\<exists>cert. gotParsed sv xs i cert \<and> ecKeyOf cert = Returns (Inr k))"

text \<open>An entry of the key cache holds an RSA key or an EC key; the other fields are empty.\<close>

definition gotKey :: "'w services \<Rightarrow> exchange list \<Rightarrow> string \<Rightarrow> pubKeyEntry \<Rightarrow> bool" where
  "gotKey sv xs i e \<longleftrightarrow>
     (if Algorithm e = ''EC''
      then gotEC sv xs i \<lparr>ecParams = ECParams e, ecPoint = ECPoint e\<rparr> \<and> PublicKeyDER e = [] \<and> Exponent e = []
      else gotRSA sv xs i \<lparr>modulus = PublicKeyDER e, exponent = Exponent e\<rparr>)"

text \<open>Facts about a log stay true when it grows.\<close>

definition lasting :: "(exchange list \<Rightarrow> bool) \<Rightarrow> bool" where
  "lasting A \<longleftrightarrow> (\<forall>xs ys. A xs \<longrightarrow> prefix xs ys \<longrightarrow> A ys)"

named_theorems lasts "facts about a log that stay true when it grows"

lemma lastingD: "lasting A \<Longrightarrow> A xs \<Longrightarrow> prefix xs ys \<Longrightarrow> A ys"
  by (simp add: lasting_def)

lemma lasting_basic [lasts]:
  "lasting (\<lambda>xs. P)" "lasting (\<lambda>xs. gotAnswer rq decode xs v)"
  by (auto simp: lasting_def gotAnswer_def prefix_def) (metis UnI1 set_append)

lemma lasting_ex [lasts]: "(\<And>x. lasting (A x)) \<Longrightarrow> lasting (\<lambda>xs. \<exists>x. A x xs)"
  by (auto simp: lasting_def)

lemma lasting_conj [lasts]: "lasting A \<Longrightarrow> lasting B \<Longrightarrow> lasting (\<lambda>xs. A xs \<and> B xs)"
  by (auto simp: lasting_def)

lemma lasting_if [lasts]: "lasting A \<Longrightarrow> lasting B \<Longrightarrow> lasting (\<lambda>xs. if b then A xs else B xs)"
  by (cases b) simp_all

lemma lasting_got [lasts]:
  "lasting (\<lambda>xs. gotSigners sv xs v)" "lasting (\<lambda>xs. gotCertificate sv xs i der)"
  "lasting (\<lambda>xs. gotParsed sv xs i cert)" "lasting (\<lambda>xs. gotRSA sv xs i k)"
  "lasting (\<lambda>xs. gotEC sv xs i l)" "lasting (\<lambda>xs. gotKey sv xs i e)"
  unfolding gotSigners_def gotCertificate_def gotParsed_def gotRSA_def gotEC_def gotKey_def
  by (intro lasts)+

lemma got_grows:
  "gotSigners sv xs v \<Longrightarrow> prefix xs ys \<Longrightarrow> gotSigners sv ys v"
  "gotCertificate sv xs i der \<Longrightarrow> prefix xs ys \<Longrightarrow> gotCertificate sv ys i der"
  "gotKey sv xs i e \<Longrightarrow> prefix xs ys \<Longrightarrow> gotKey sv ys i e"
  using lastingD [OF lasting_got(1)] lastingD [OF lasting_got(2)] lastingD [OF lasting_got(6)]
  by blast+

section \<open>The caches\<close>

definition cache_inv :: "'w services \<Rightarrow> ('w \<times> exchange list) backend \<Rightarrow> bool" where
  "cache_inv sv s \<longleftrightarrow>
     (\<forall>e. sc_entry (signer_cache s) = Some e \<longrightarrow> gotSigners sv (exchanges s) (entry_value e))
   \<and> (\<forall>i e. certs (cert_cache s) i = Some e \<longrightarrow> gotCertificate sv (exchanges s) i (entry_value e))
   \<and> (\<forall>i e. pubKeys (cert_cache s) i = Some e \<longrightarrow> gotKey sv (exchanges s) i (entry_value e))"

definition fetched :: "'w services \<Rightarrow> ('w \<times> exchange list) backend \<Rightarrow> ('w \<times> exchange list) backend \<Rightarrow> bool" where
  "fetched sv s t \<longleftrightarrow> prefix (exchanges s) (exchanges t) \<and> (cache_inv sv s \<longrightarrow> cache_inv sv t)"

interpretation fetching: frame_relation "fetched sv" for sv
  by unfold_locales (auto simp: fetched_def)

lemma cache_inv_grows:
  assumes "same_caches s t" "prefix (exchanges s) (exchanges t)"
  shows "fetched sv s t"
  using assms
  unfolding fetched_def cache_inv_def same_caches_def
  by (simp, blast intro: got_grows)

lemma keeps_fetched:
  assumes "keeps same_caches f" "keeps (sends snd P) f"
  shows "keeps (fetched sv) f"
proof (rule keepsI)
  fix s r t
  assume "f s = Returns (r, t)"
  with keepsD [OF assms(1)] keepsD [OF assms(2)] have "same_caches s t" "sends snd P s t" by blast+
  then show "fetched sv s t" by (intro cache_inv_grows) (auto simp: sends_def prefix_def)
qed

lemma caches_steps [preserves]:
  "keeps same_caches (nowE sv)" "keeps same_caches (apiE f)" "keeps same_caches (accessToken sv)"
  "keeps same_caches (updateManager g)" "keeps same_caches (modifyE (\<lambda>st. st\<lparr>config := h st\<rparr>))"
  "keeps same_caches (modifyE (\<lambda>st. st\<lparr>initialized := b\<rparr>))"
  by (auto simp: keeps_def nowE_def apiE_def accessToken_def same_caches_def split: prod.splits)

lemma caches_requests [preserves]:
  "keeps same_caches (getToken sv)"
  "(\<And>token. keeps same_caches (fn token)) \<Longrightarrow> keeps same_caches (withRetryOnAuth sv fn)"
  unfolding getToken_def withRetryOnAuth_def retry_after_def by (intro preserves)+

section \<open>What a computation returns\<close>

text \<open>
  Started with the caches in order and a fact about the log, a computation leaves the caches
  in order and returns a value for which another fact holds.
\<close>

definition gives ::
  "'w services \<Rightarrow> (exchange list \<Rightarrow> bool) \<Rightarrow> ('w \<times> exchange list, 'a) call \<Rightarrow>
   (exchange list \<Rightarrow> 'a \<Rightarrow> bool) \<Rightarrow> bool" where
  "gives sv A f Q \<longleftrightarrow>
     (\<forall>s r t. f s = Returns (r, t) \<longrightarrow> cache_inv sv s \<longrightarrow> A (exchanges s) \<longrightarrow>
        cache_inv sv t \<and> (\<forall>v. r = Inr v \<longrightarrow> Q (exchanges t) v))"

lemma givesD:
  "gives sv A f Q \<Longrightarrow> f s = Returns (r, t) \<Longrightarrow> cache_inv sv s \<Longrightarrow> A (exchanges s) \<Longrightarrow>
   cache_inv sv t \<and> (\<forall>v. r = Inr v \<longrightarrow> Q (exchanges t) v)"
  unfolding gives_def by blast

lemma gives_basic:
  "(\<And>xs. A xs \<Longrightarrow> Q xs v) \<Longrightarrow> gives sv A (returnE v) Q"
  "gives sv A (throwE e) Q" "gives sv A panicE Q"
  "(\<And>s. cache_inv sv s \<Longrightarrow> A (exchanges s) \<Longrightarrow> Q (exchanges s) (f s)) \<Longrightarrow> gives sv A (getE f) Q"
  by (auto simp: gives_def go_defs)

lemma gives_catch:
  assumes "gives sv A f P" "\<And>v. gives sv (\<lambda>xs. P xs v) (h (Inr v)) Q"
    "\<And>e. gives sv (\<lambda>xs. True) (h (Inl e)) Q"
  shows "gives sv A (catchE f h) Q"
  unfolding gives_def
proof (intro allI impI)
  fix s r t
  assume run: "catchE f h s = Returns (r, t)" and s: "cache_inv sv s" "A (exchanges s)"
  from run obtain q u where f: "f s = Returns (q, u)" and h: "h q u = Returns (r, t)"
    by (rule catchE_ReturnsE)
  have u: "cache_inv sv u" "\<And>v. q = Inr v \<Longrightarrow> P (exchanges u) v"
    using givesD [OF assms(1) f s] by blast+
  show "cache_inv sv t \<and> (\<forall>v. r = Inr v \<longrightarrow> Q (exchanges t) v)"
  proof (cases q)
    case (Inl e)
    with givesD [OF assms(3)] h u(1) show ?thesis by blast
  next
    case (Inr v)
    with givesD [OF assms(2)] h u show ?thesis by blast
  qed
qed

lemma gives_bind:
  assumes "gives sv A f P" "\<And>v. gives sv (\<lambda>xs. P xs v) (g v) Q"
  shows "gives sv A (bindE f g) Q"
  unfolding bindE_def using assms by (intro gives_catch) (auto intro: gives_basic)

lemma gives_keeps:
  assumes "keeps (fetched sv) f" "lasting A"
  shows "gives sv A f (\<lambda>xs v. A xs)"
  unfolding gives_def using keepsD [OF assms(1)] lastingD [OF assms(2)] by (auto simp: fetched_def)

lemma keeps_gives:
  assumes "gives sv (\<lambda>xs. True) f Q" "keeps (sends snd P) f"
  shows "keeps (fetched sv) f"
proof (rule keepsI)
  fix s r t
  assume "f s = Returns (r, t)"
  with givesD [OF assms(1)] keepsD [OF assms(2)] show "fetched sv s t"
    unfolding fetched_def sends_def prefix_def by blast
qed

lemma sends_fields [preserves]:
  "keeps (sends log P) (updateManager g)"
  "keeps (sends log P) (modifyE (\<lambda>st. st\<lparr>config := k st\<rparr>))"
  "keeps (sends log P) (modifyE (\<lambda>st. st\<lparr>initialized := b\<rparr>))"
  by (simp_all add: keeps_def sends_nothing)

lemma fetched_steps [preserves]:
  "keeps (fetched sv) (nowE (traced sv))" "keeps (fetched sv) (accessToken (traced sv))"
  "keeps (fetched sv) (authenticate (traced sv) i p)" "keeps (fetched sv) (signingCtx (traced sv))"
  "keeps (fetched sv) (updateManager g)"
  "keeps (fetched sv) (modifyE (\<lambda>st. st\<lparr>config := k st\<rparr>))"
  "keeps (fetched sv) (modifyE (\<lambda>st. st\<lparr>initialized := b\<rparr>))"
  "keeps (fetched sv) (apiE (\<lambda>c. send (traced sv) op (rq (httpClient c)) decode))"
  by (rule keeps_fetched [where P = "\<lambda>c x. True"]; intro preserves; simp)+

lemma fetched_requests [preserves]:
  "keeps (fetched sv) (getToken (traced sv))"
  "(\<And>token. keeps (fetched sv) (fn token)) \<Longrightarrow> keeps (fetched sv) (withRetryOnAuth (traced sv) fn)"
  unfolding getToken_def withRetryOnAuth_def retry_after_def by (intro preserves)+

lemma retried_answer:
  assumes "retried (rq c) b xs" "answered (traced sv) op decode xs (Inr v)"
  shows "gotAnswer rq decode (ys @ xs) v"
proof -
  from assms(2) obtain resp where xs: "xs \<noteq> []" "snd (last xs) = Inr resp" "rs_status resp \<le> 399"
    "decode resp = Inr v"
    by (auto simp: answered_def)
  with assms(1) obtain token where "fst (last xs) = rq c token"
    by (auto simp: retried_def split: list.splits)
  with xs have "(rq c token, Inr resp) \<in> set xs" by (metis last_in_set prod.collapse)
  with xs show ?thesis by (auto simp: gotAnswer_def)
qed

lemma gives_request:
  "gives sv (\<lambda>xs. True)
     (withRetryOnAuth (traced sv) (\<lambda>token. apiE (\<lambda>c. send (traced sv) op (rq (httpClient c) token) decode)))
     (gotAnswer rq decode)"
    (is "gives sv _ ?call _")
  unfolding gives_def
proof (intro allI impI)
  fix s r t
  assume run: "?call s = Returns (r, t)" and s: "cache_inv sv s"
  have "keeps (fetched sv) ?call" by (intro preserves)
  with run s have "cache_inv sv t" by (auto simp: fetched_def dest: keepsD)
  moreover have "gotAnswer rq decode (exchanges t) v" if "r = Inr v" for v
    using traced.retry_log [OF run] that by (auto intro: retried_answer)
  ultimately show "cache_inv sv t \<and> (\<forall>v. r = Inr v \<longrightarrow> gotAnswer rq decode (exchanges t) v)" by blast
qed

section \<open>Signers\<close>

lemma gives_modify:
  assumes "\<And>s. cache_inv sv s \<Longrightarrow> A (exchanges s) \<Longrightarrow> cache_inv sv (f s) \<and> exchanges (f s) = exchanges s"
  shows "gives sv A (modifyE f) (\<lambda>xs v. A xs)"
  using assms by (auto simp: gives_def)

lemma gives_now:
  assumes "lasting A" "\<And>t. gives sv A (g t) Q"
  shows "gives sv A (bindE (nowE (traced sv)) g) Q"
  using gives_bind [OF gives_keeps [OF fetched_steps(1) assms(1)]] assms(2) by blast

text \<open>A lookup in a cache, and the fetch after a miss.\<close>

lemma gives_lookup:
  assumes "\<And>s v. cache_inv sv s \<Longrightarrow> look s = Some v \<Longrightarrow> Q (exchanges s) (f v)"
    "gives sv (\<lambda>xs. True) miss Q"
  shows "gives sv (\<lambda>xs. True) (bindE (getE look) (\<lambda>hit.
      case hit of None \<Rightarrow> miss | Some v \<Rightarrow> returnE (f v))) Q"
proof (rule gives_bind [where P = "\<lambda>xs hit. \<forall>v. hit = Some v \<longrightarrow> Q xs (f v)"])
  show "gives sv (\<lambda>xs. True) (getE look) (\<lambda>xs hit. \<forall>v. hit = Some v \<longrightarrow> Q xs (f v))"
    using assms(1) by (intro gives_basic) blast
  show "gives sv (\<lambda>xs. \<forall>v. hit = Some v \<longrightarrow> Q xs (f v))
      (case hit of None \<Rightarrow> miss | Some v \<Rightarrow> returnE (f v)) Q" for hit
    using assms(2) by (cases hit) (auto intro: gives_basic)
qed

text \<open>Storing what was got, with the time of the store.\<close>

lemma gives_store:
  assumes "lasting A" "\<And>xs. A xs \<Longrightarrow> Q xs v"
    "\<And>s t. cache_inv sv s \<Longrightarrow> A (exchanges s) \<Longrightarrow> cache_inv sv (f t s) \<and> exchanges (f t s) = exchanges s"
  shows "gives sv A (bindE (nowE (traced sv)) (\<lambda>t. bindE (modifyE (f t)) (\<lambda>_. returnE v))) Q"
  using assms by (intro gives_now gives_bind [OF gives_modify] gives_basic) auto

lemma gives_getSigners: "gives sv (\<lambda>xs. True) (getSigners (traced sv)) (gotSigners sv)"
proof -
  have request: "gives sv (\<lambda>xs. True)
      (withRetryOnAuth (traced sv) (\<lambda>token. apiE (\<lambda>c. ListSigners (traced sv) c token))) (gotSigners sv)"
    unfolding ListSigners_def gotSigners_def traced_services by (rule gives_request)
  have hit: "gotSigners sv (exchanges s) v" if "cache_inv sv s" "sc_get (signer_cache s) t = Some v" for s t v
    using that by (auto simp: cache_inv_def sc_get_def split: option.splits if_splits)
  show ?thesis
    unfolding getSigners_def
    by (intro gives_now lasts gives_lookup gives_bind [OF request] gives_store)
       (auto intro: hit simp: cache_inv_def sc_set_def)
qed

lemma find_signer_ID: "find_signer i signers = Some x \<Longrightarrow> ID x = i"
  by (induction signers) (auto split: if_splits)

lemma gives_getSignerBySignerID:
  "gives sv (\<lambda>xs. True) (getSignerBySignerID (traced sv) i) (\<lambda>xs x. ID x = i)"
  unfolding getSignerBySignerID_def
proof (rule gives_bind [OF gives_getSigners])
  show "gives sv (\<lambda>xs. gotSigners sv xs signers) (case find_signer i signers of
      None \<Rightarrow> throwE (Errorf ''signer not found'') | Some x \<Rightarrow> returnE x) (\<lambda>xs x. ID x = i)" for signers
    by (cases "find_signer i signers") (auto intro: gives_basic dest: find_signer_ID)
qed

section \<open>Certificates and keys\<close>

lemma key_data_fields [simp]:
  "\<lparr>modulus = modulus k, exponent = exponent k\<rparr> = k" "\<lparr>ecParams = ecParams l, ecPoint = ecPoint l\<rparr> = l"
  by simp_all

lemma gives_fetchCertificate:
  "gives sv (\<lambda>xs. ID signer = i) (fetchCertificate (traced sv) i signer) (\<lambda>xs. gotCertificate sv xs i)"
proof (cases "ID signer = i \<and> CertificateID signer \<noteq> []")
  case False
  then show ?thesis by (auto simp: gives_def fetchCertificate_def throwE_def)
next
  case True
  let ?got = "gotAnswer (\<lambda>c token. certificate_request c token i) (sv_decode_certificate sv)"
  have request: "gives sv (\<lambda>xs. True)
      (withRetryOnAuth (traced sv) (\<lambda>token. apiE (\<lambda>c. GetCertificate (traced sv) c token i))) ?got"
    unfolding GetCertificate_def traced_services by (rule gives_request)
  have store: "gives sv (\<lambda>xs. ?got xs pem) (case sv_pem_Decode (traced sv) pem of
      None \<Rightarrow> throwE (Errorf ''failed to decode PEM certificate from API'')
    | Some der \<Rightarrow>
        bindE (nowE (traced sv)) (\<lambda>t.
        bindE (modifyE (\<lambda>st. st\<lparr>cert_cache := setCert (cert_cache st) i der t\<rparr>)) (\<lambda>_.
          returnE der))) (\<lambda>xs. gotCertificate sv xs i)" for pem
  proof (cases "sv_pem_Decode sv pem")
    case (Some der)
    then show ?thesis
      by (auto intro!: gives_store lasts simp: gotCertificate_def cache_inv_def setCert_def)
  qed (auto intro: gives_basic)
  from True request store show ?thesis by (simp add: fetchCertificate_def gives_bind)
qed

lemma gives_getCertificateData:
  "gives sv (\<lambda>xs. True) (getCertificateData (traced sv) i) (\<lambda>xs. gotCertificate sv xs i)"
proof -
  have hit: "gotCertificate sv (exchanges s) i v"
    if "cache_inv sv s" "getCert (cert_cache s) i t = Some v" for s t v
    using that by (auto simp: cache_inv_def getCert_def split: option.splits if_splits)
  have miss: "gives sv (\<lambda>xs. True) (catchE (getSignerBySignerID (traced sv) i) (\<lambda>r. case r of
      Inl err \<Rightarrow> throwE (Wrapf ''failed to resolve signer for certificate'' err)
    | Inr signer \<Rightarrow> fetchCertificate (traced sv) i signer)) (\<lambda>xs. gotCertificate sv xs i)"
    by (rule gives_catch [OF gives_getSignerBySignerID])
       (simp_all add: gives_fetchCertificate gives_basic)
  show ?thesis
    unfolding getCertificateData_def by (intro gives_now lasts gives_lookup miss hit)
qed

lemma gives_getCertificate:
  "gives sv (\<lambda>xs. True) (getCertificate (traced sv) i) (\<lambda>xs. gotParsed sv xs i)"
  unfolding getCertificate_def
proof (rule gives_bind [OF gives_getCertificateData])
  show "gives sv (\<lambda>xs. gotCertificate sv xs i der) (case sv_parse_certificate (traced sv) der of
      None \<Rightarrow> throwE (Wrapf ''failed to parse certificate'' (Errorf ''x509''))
    | Some cert \<Rightarrow> returnE cert) (\<lambda>xs. gotParsed sv xs i)" for der
    by (cases "sv_parse_certificate sv der") (auto intro!: gives_basic simp: gotParsed_def)
qed

lemma gives_getPublicKeyData:
  "gives sv (\<lambda>xs. True) (getPublicKeyData (traced sv) i)
     (\<lambda>xs k. gotRSA sv xs i k \<or> modulus k = [] \<and> exponent k = [])"
proof -
  let ?Q = "\<lambda>xs k. gotRSA sv xs i k \<or> modulus k = [] \<and> exponent k = []"
  have hit: "?Q (exchanges s) \<lparr>modulus = PublicKeyDER pk, exponent = Exponent pk\<rparr>"
    if "cache_inv sv s" "getPubKey (cert_cache s) i t = Some pk" for s t pk
    using that by (auto simp: cache_inv_def getPubKey_def gotKey_def split: option.splits if_splits)
  have store: "gives sv (\<lambda>xs. gotParsed sv xs i cert) (bindE (liftR (rsaKeyOf cert)) (\<lambda>data.
      bindE (nowE (traced sv)) (\<lambda>t.
      bindE (modifyE (\<lambda>st. st\<lparr>cert_cache := setPubKey (cert_cache st) i
        \<lparr>PublicKeyDER = modulus data, Exponent = exponent data, ECParams = [], ECPoint = [],
         Algorithm = ''RSA''\<rparr> t\<rparr>)) (\<lambda>_.
        returnE data)))) ?Q" for cert
  proof (rule gives_bind [where P = "\<lambda>xs k. gotRSA sv xs i k"])
    show "gives sv (\<lambda>xs. gotParsed sv xs i cert) (liftR (rsaKeyOf cert)) (\<lambda>xs. gotRSA sv xs i)"
      by (auto simp: gives_def liftR_def gotRSA_def)
  qed (auto intro!: gives_store lasts simp: cache_inv_def setPubKey_def gotKey_def)
  show ?thesis
    unfolding getPublicKeyData_def
    by (intro gives_now lasts gives_lookup hit gives_bind [OF gives_getCertificate] store)
qed

lemma gives_getECPublicKeyData:
  "gives sv (\<lambda>xs. True) (getECPublicKeyData (traced sv) i) (\<lambda>xs. gotEC sv xs i)"
proof -
  let ?ec = "\<lambda>hit. case hit of Some pk \<Rightarrow> if Algorithm pk = ''EC'' then Some pk else None | None \<Rightarrow> None"
  let ?key = "\<lambda>pk. \<lparr>ecParams = ECParams pk, ecPoint = ECPoint pk\<rparr>"
  have hit: "gives sv (\<lambda>xs. True) (getE (\<lambda>st. getPubKey (cert_cache st) i t))
      (\<lambda>xs hit. \<forall>pk. ?ec hit = Some pk \<longrightarrow> gotEC sv xs i (?key pk))" for t
    by (rule gives_basic) (auto simp: cache_inv_def getPubKey_def gotKey_def split: option.splits if_splits)
  have store: "gives sv (\<lambda>xs. gotParsed sv xs i cert) (bindE (liftO (ecKeyOf cert)) (\<lambda>data.
      bindE (nowE (traced sv)) (\<lambda>t.
      bindE (modifyE (\<lambda>st. st\<lparr>cert_cache := setPubKey (cert_cache st) i
        \<lparr>PublicKeyDER = [], Exponent = [], ECParams = ecParams data, ECPoint = ecPoint data,
         Algorithm = ''EC''\<rparr> t\<rparr>)) (\<lambda>_.
        returnE data)))) (\<lambda>xs. gotEC sv xs i)" for cert
  proof (rule gives_bind [where P = "\<lambda>xs k. gotEC sv xs i k"])
    show "gives sv (\<lambda>xs. gotParsed sv xs i cert) (liftO (ecKeyOf cert)) (\<lambda>xs. gotEC sv xs i)"
      by (auto simp: gives_def liftO_def liftR_def panicE_def gotEC_def split: outcome.splits)
  qed (auto intro!: gives_store lasts simp: cache_inv_def setPubKey_def gotKey_def)
  show ?thesis
    unfolding getECPublicKeyData_def
  proof (intro gives_now lasts gives_bind [OF hit])
    fix t found
    show "gives sv (\<lambda>xs. \<forall>pk. ?ec found = Some pk \<longrightarrow> gotEC sv xs i (?key pk))
      (case ?ec found of Some pk \<Rightarrow> returnE (?key pk) | None \<Rightarrow>
        bindE (getCertificate (traced sv) i) (\<lambda>cert.
        bindE (liftO (ecKeyOf cert)) (\<lambda>data.
        bindE (nowE (traced sv)) (\<lambda>t.
        bindE (modifyE (\<lambda>st. st\<lparr>cert_cache := setPubKey (cert_cache st) i
          \<lparr>PublicKeyDER = [], Exponent = [], ECParams = ecParams data, ECPoint = ecPoint data,
           Algorithm = ''EC''\<rparr> t\<rparr>)) (\<lambda>_.
          returnE data))))) (\<lambda>xs. gotEC sv xs i)"
      by (cases "?ec found") (auto intro!: gives_basic gives_bind [OF gives_getCertificate] store)
  qed
qed

section \<open>Every call\<close>

lemma fetched_fetches [preserves]:
  "keeps (fetched sv) (getSigners (traced sv))" "keeps (fetched sv) (getCertificateData (traced sv) i)"
  "keeps (fetched sv) (getCertificate (traced sv) i)" "keeps (fetched sv) (getPublicKeyData (traced sv) i)"
  "keeps (fetched sv) (getECPublicKeyData (traced sv) i)"
  using keeps_gives [OF gives_getSigners traced.reads_getSigners]
    keeps_gives [OF gives_getCertificateData traced.reads_getCertificateData]
    keeps_gives [OF gives_getCertificate traced.reads_keys(1)]
    keeps_gives [OF gives_getPublicKeyData traced.reads_keys(2)]
    keeps_gives [OF gives_getECPublicKeyData traced.reads_keys(3)]
  by blast+

lemma fetched_signers [preserves]:
  "keeps (fetched sv) (getSignerBySlot (traced sv) j)" "keeps (fetched sv) (getSignerBySignerID (traced sv) i)"
  unfolding getSignerBySlot_def getSignerBySignerID_def by (intro preserves)+

lemma fetched_slots [preserves]:
  "keeps (fetched sv) (getSession sh)" "keeps (fetched sv) (loginSlot sh slot)"
  "keeps (fetched sv) (GetSlotList (traced sv) b)" "keeps (fetched sv) (GetSlotInfo (traced sv) slot)"
  "keeps (fetched sv) (GetTokenInfo (traced sv) slot)"
  "keeps (fetched sv) (GetMechanismList (traced sv) slot)"
  "keeps (fetched sv) (OpenSession (traced sv) slot flags)" "keeps (fetched sv) (CloseSession sh)"
  "keeps (fetched sv) (Login (traced sv) sh u pin)" "keeps (fetched sv) (Logout sh)"
  "keeps (fetched sv) (GetSessionInfo sh)" "keeps (fetched sv) (updateSession sh f)"
  unfolding getSession_def loginSlot_def GetSlotList_def GetSlotInfo_def GetTokenInfo_def
    GetMechanismList_def OpenSession_def openIn_def CloseSession_def Login_def setConfigToken_def
    Logout_def GetSessionInfo_def updateSession_def Let_def
  by (intro preserves)+

lemma fetched_objects [preserves]:
  "keeps (fetched sv) (FindObjectsInit (traced sv) sh template)" "keeps (fetched sv) (FindObjects sh n)"
  "keeps (fetched sv) (FindObjectsFinal sh)" "keeps (fetched sv) (attributeValue (traced sv) sg o' ty)"
  unfolding FindObjectsInit_def FindObjects_def FindObjectsFinal_def matchesIDLabel_def
    matchesSubject_def setEmptyFindResult_def setFindResult_def Let_def
    attributeValue_def rsaAttr_def ecAttr_def certAttr_def
  by (intro preserves)+

lemma fetched_attributes [preserves]:
  "keeps (fetched sv) (attributeLoop (traced sv) sg o' template)"
  by (induction template) (unfold attributeLoop.simps, (intro preserves | assumption)+)

lemma fetched_sign [preserves]:
  "keeps (fetched sv) (SignInit h m k)" "keeps (fetched sv) (SignUpdate h d)"
  "keeps (fetched sv) (EstimateSignatureSize (traced sv) h)" "keeps (fetched sv) Finalize"
  "keeps (fetched sv) (signInternal (traced sv) x d)" "keeps (fetched sv) (clearSignState h)"
  "keeps (fetched sv) (clearSignStateByHandle h)" "keeps (fetched sv) (cacheSignResult h sig)"
  unfolding SignInit_def SignUpdate_def EstimateSignatureSize_def Finalize_def signInternal_def
    sendSign_def reportApprovalDenial_def requestApproval_def client_Sign_def RequestApproval_def
    clearSignState_def clearSignStateByHandle_def cacheSignResult_def
  by (intro preserves)+

lemma exec_fetched: "c \<noteq> InitializeCall \<Longrightarrow> keeps (fetched sv) (exec (traced sv) c)"
  by (cases c; simp; unfold api_defs GetAttributeValue_def Sign_def SignFinal_def finishSign_def;
      intro preserves)

lemma initialize_caches:
  assumes "exec (traced sv) InitializeCall s = Returns (r, t)" "initialized t"
  shows "t = s \<or> cache_inv sv t"
proof -
  obtain q where "Initialize (traced sv) s = Returns (q, t)"
    using assms(1) by (auto simp: withoutMemory_run C_Initialize_def catchE_def
        split: outcome.splits sum.splits)
  then show ?thesis
  proof (cases rule: Initialize_cases)
    case (started cfg cl u)
    then show ?thesis
      by (simp add: cache_inv_def same_caches_def newSignerCache_def newCertDataCache_def Let_def)
  qed (use assms(2) in auto)
qed

lemma history_caches: "history sv evs s \<Longrightarrow> initialized s \<Longrightarrow> cache_inv sv s"
proof (induction rule: history.induct)
  case (load s)
  then show ?case by (simp add: unloaded_def)
next
  case (call evs s c rv m t)
  show ?case
  proof (cases "c = InitializeCall")
    case True
    with call initialize_caches show ?thesis by blast
  next
    case False
    then have "initialized s" using call.hyps(3) call.prems exec_uninitialized by blast
    with call keepsD [OF exec_fetched [OF False] call.hyps(3)] show ?thesis
      by (simp add: fetched_def)
  qed
next
  case (outside evs s w)
  then show ?case by (simp add: cache_inv_def)
qed

section \<open>Attributes\<close>

text \<open>
  The attributes that need nothing but the signer and the kind of the object, with their
  values. The booleans do not depend on the signer: a private key is private, sensitive, signs
  and was never extractable; a public key verifies; every object is on the token.
\<close>

definition ownAttributes :: "signerResponse \<Rightarrow> uint \<Rightarrow> (uint \<times> attr_value) list" where
  "ownAttributes sg objType =
     (CKA_CLASS, if objType = objPrivateKey then VUint CKO_PRIVATE_KEY
                 else if objType = objPublicKey then VUint CKO_PUBLIC_KEY
                 else if objType = objCertificate then VUint CKO_CERTIFICATE else VBytes []) #
     (CKA_KEY_TYPE, VUint (getKeyType sg)) #
     (CKA_CERTIFICATE_TYPE, if objType = objCertificate then VUint CKC_X_509 else VBytes []) #
     (CKA_LABEL, VBytes (bytes_of_string (Name sg))) #
     (CKA_ID, VBytes (bytes_of_string (truncateTo (ID sg) 20))) #
     (CKA_TOKEN, VBool True) # (CKA_VERIFY, VBool (objType = objPublicKey)) #
     map (\<lambda>ty. (ty, VBool (objType = objPrivateKey)))
       [CKA_PRIVATE, CKA_SENSITIVE, CKA_SIGN, CKA_NEVER_EXTRACTABLE, CKA_ALWAYS_SENSITIVE] @
     map (\<lambda>ty. (ty, VBool False))
       [CKA_EXTRACTABLE, CKA_ALWAYS_AUTHENTICATE, CKA_ENCRYPT, CKA_DECRYPT, CKA_WRAP, CKA_UNWRAP,
        CKA_VERIFY_RECOVER, CKA_SIGN_RECOVER, CKA_DERIVE, CKA_TRUSTED, CKA_WRAP_WITH_TRUSTED, CKA_LOCAL]"

text \<open>
  What an attribute of any type may be: the value of the table; for the certificate and the
  fields of it, of a certificate object, and for the parts of the key, of a key object of that
  algorithm, empty or what the answers of the server say of this signer; and empty for every
  other type.
\<close>

definition attribute_origin ::
  "'w services \<Rightarrow> signerResponse \<Rightarrow> uint \<Rightarrow> uint \<Rightarrow> attr_value \<Rightarrow> exchange list \<Rightarrow> bool" where
  "attribute_origin sv sg objType ty v xs \<longleftrightarrow>
     (case map_of (ownAttributes sg objType) ty of
        Some w \<Rightarrow> v = w
      | None \<Rightarrow>
          v = (if ty = CKA_MODULUS_BITS then VUint 0 else VBytes [])
          \<or> objType = objCertificate
              \<and> (ty = CKA_VALUE \<and> (\<exists>der. v = VBytes der \<and> gotCertificate sv xs (ID sg) der)
               \<or> ty = CKA_SUBJECT \<and> (\<exists>cert. v = VBytes (RawSubject cert) \<and> gotParsed sv xs (ID sg) cert)
               \<or> ty = CKA_ISSUER \<and> (\<exists>cert. v = VBytes (RawIssuer cert) \<and> gotParsed sv xs (ID sg) cert)
               \<or> ty = CKA_SERIAL_NUMBER \<and> (\<exists>cert. v = VBytes (nat_bytes (nat \<bar>SerialNumber cert\<bar>))
                   \<and> gotParsed sv xs (ID sg) cert))
          \<or> (isKey objType \<and> getKeyType sg = CKK_RSA)
              \<and> (ty = CKA_MODULUS \<and> (\<exists>k. v = VBytes (modulus k) \<and> gotRSA sv xs (ID sg) k)
               \<or> ty = CKA_PUBLIC_EXPONENT \<and> (\<exists>k. v = VBytes (exponent k) \<and> gotRSA sv xs (ID sg) k)
               \<or> ty = CKA_MODULUS_BITS
                   \<and> (\<exists>k. v = VUint (of_nat (length (modulus k) * 8)) \<and> gotRSA sv xs (ID sg) k))
          \<or> (isKey objType \<and> getKeyType sg = CKK_EC)
              \<and> (ty = CKA_EC_PARAMS \<and> (\<exists>k. v = VBytes (ecParams k) \<and> gotEC sv xs (ID sg) k)
               \<or> ty = CKA_EC_POINT \<and> (\<exists>k. v = VBytes (ecPoint k) \<and> gotEC sv xs (ID sg) k)))"

lemma lasting_cases [lasts]:
  "lasting A \<Longrightarrow> lasting B \<Longrightarrow> lasting (\<lambda>xs. A xs \<or> B xs)"
  "lasting A \<Longrightarrow> lasting (\<lambda>xs. P \<longrightarrow> A xs)"
  "lasting A \<Longrightarrow> lasting (\<lambda>xs. case x of None \<Rightarrow> A xs | Some w \<Rightarrow> B w)"
  by (auto simp: lasting_def split: option.splits)

lemma lasting_origin [lasts]: "lasting (attribute_origin sv sg o' ty v)"
  unfolding attribute_origin_def
  by (cases "map_of (ownAttributes sg o') ty"; simp only: option.case; intro lasts)

lemma gives_weaken:
  "gives sv A f P \<Longrightarrow> (\<And>xs v. P xs v \<Longrightarrow> Q xs v) \<Longrightarrow> gives sv A f Q"
  unfolding gives_def by blast

lemma gives_conj:
  "gives sv A f P \<Longrightarrow> gives sv A f Q \<Longrightarrow> gives sv A f (\<lambda>xs v. P xs v \<and> Q xs v)"
  unfolding gives_def by blast

lemma gives_carry:
  assumes "gives sv (\<lambda>xs. True) f Q" "keeps (fetched sv) f" "lasting A"
  shows "gives sv A f (\<lambda>xs v. A xs \<and> Q xs v)"
proof (rule gives_conj [OF gives_keeps [OF assms(2,3)]])
  show "gives sv A f Q" using assms(1) unfolding gives_def by blast
qed

text \<open>The three shapes.\<close>

lemma gives_attr:
  assumes "gives sv (\<lambda>xs. True) fetch P"
  shows "gives sv (\<lambda>xs. True) (if b then catchE fetch (\<lambda>r. case r of Inr x \<Rightarrow> returnE (f x) | Inl e \<Rightarrow> returnE a)
      else returnE a) (\<lambda>xs v. v = a \<or> b \<and> (\<exists>x. v = f x \<and> P xs x))"
proof (cases b)
  case True
  have "gives sv (\<lambda>xs. True) (catchE fetch (\<lambda>r. case r of Inr x \<Rightarrow> returnE (f x) | Inl e \<Rightarrow> returnE a))
      (\<lambda>xs v. v = a \<or> (\<exists>x. v = f x \<and> P xs x))"
    by (rule gives_catch [OF assms]) (auto intro!: gives_basic)
  with True show ?thesis by simp
qed (auto intro: gives_basic)

lemma attributeValue_fetched:
  "attributeValue sv sg o' CKA_LABEL = returnE (VBytes (bytes_of_string (Name sg)))"
  "attributeValue sv sg o' CKA_VALUE = (if o' = objCertificate then
     catchE (getCertificateData sv (ID sg)) (\<lambda>r. case r of Inl err \<Rightarrow> returnE (VBytes []) | Inr der \<Rightarrow> returnE (VBytes der))
     else returnE (VBytes []))"
  "attributeValue sv sg o' CKA_MODULUS = rsaAttr sv sg o' (VBytes []) (\<lambda>pk. VBytes (modulus pk))"
  "attributeValue sv sg o' CKA_PUBLIC_EXPONENT = rsaAttr sv sg o' (VBytes []) (\<lambda>pk. VBytes (exponent pk))"
  "attributeValue sv sg o' CKA_EC_PARAMS = ecAttr sv sg o' ecParams"
  "attributeValue sv sg o' CKA_EC_POINT = ecAttr sv sg o' ecPoint"
  "attributeValue sv sg o' CKA_SUBJECT = certAttr sv sg o' RawSubject"
  "attributeValue sv sg o' CKA_ISSUER = certAttr sv sg o' RawIssuer"
  "attributeValue sv sg o' CKA_SERIAL_NUMBER
    = certAttr sv sg o' (\<lambda>cert. nat_bytes (nat \<bar>SerialNumber cert\<bar>))"
  "attributeValue sv sg o' CKA_ID = returnE (VBytes (bytes_of_string (truncateTo (ID sg) 20)))"
  by (simp_all add: attributeValue_def falseAttributes_def const_vals)

lemma attributeValue_own:
  "\<forall>(ty, v) \<in> set (ownAttributes sg o'). attributeValue sv sg o' ty = returnE v"
  by (simp add: ownAttributes_def attributeValue_def classValue_def falseAttributes_def const_vals)

lemma ownAttributes_fetched:
  "ty \<in> set [CKA_VALUE, CKA_MODULUS, CKA_PUBLIC_EXPONENT, CKA_MODULUS_BITS, CKA_EC_PARAMS,
     CKA_EC_POINT, CKA_SUBJECT, CKA_ISSUER, CKA_SERIAL_NUMBER] \<Longrightarrow> map_of (ownAttributes sg o') ty = None"
  by (auto simp: ownAttributes_def const_vals)

lemma attributeValue_other:
  assumes "map_of (ownAttributes sg o') ty = None"
    "ty \<notin> set [CKA_VALUE, CKA_MODULUS, CKA_PUBLIC_EXPONENT, CKA_MODULUS_BITS, CKA_EC_PARAMS,
       CKA_EC_POINT, CKA_SUBJECT, CKA_ISSUER, CKA_SERIAL_NUMBER]"
  shows "attributeValue sv sg o' ty = returnE (VBytes [])" "ty \<noteq> CKA_MODULUS_BITS"
proof -
  from assms(1) have "ty \<notin> fst ` set (ownAttributes sg o')" by (simp add: map_of_eq_None_iff)
  then have none: "ty \<notin> set (map fst (ownAttributes sg o'))" by simp
  show "attributeValue sv sg o' ty = returnE (VBytes [])"
    using none [unfolded ownAttributes_def] assms(2) by (simp add: attributeValue_def falseAttributes_def)
  show "ty \<noteq> CKA_MODULUS_BITS" using assms(2) by simp
qed

lemma attribute_origin_fetched:
  "attribute_origin sv sg o' CKA_VALUE v xs \<longleftrightarrow> v = VBytes []
     \<or> o' = objCertificate \<and> (\<exists>der. v = VBytes der \<and> gotCertificate sv xs (ID sg) der)"
  "attribute_origin sv sg o' CKA_SUBJECT v xs \<longleftrightarrow> v = VBytes []
     \<or> o' = objCertificate \<and> (\<exists>c. v = VBytes (RawSubject c) \<and> gotParsed sv xs (ID sg) c)"
  "attribute_origin sv sg o' CKA_ISSUER v xs \<longleftrightarrow> v = VBytes []
     \<or> o' = objCertificate \<and> (\<exists>c. v = VBytes (RawIssuer c) \<and> gotParsed sv xs (ID sg) c)"
  "attribute_origin sv sg o' CKA_SERIAL_NUMBER v xs \<longleftrightarrow> v = VBytes []
     \<or> o' = objCertificate \<and> (\<exists>c. v = VBytes (nat_bytes (nat \<bar>SerialNumber c\<bar>)) \<and> gotParsed sv xs (ID sg) c)"
  "attribute_origin sv sg o' CKA_MODULUS v xs \<longleftrightarrow> v = VBytes []
     \<or> isKey o' \<and> getKeyType sg = CKK_RSA \<and> (\<exists>k. v = VBytes (modulus k) \<and> gotRSA sv xs (ID sg) k)"
  "attribute_origin sv sg o' CKA_PUBLIC_EXPONENT v xs \<longleftrightarrow> v = VBytes []
     \<or> isKey o' \<and> getKeyType sg = CKK_RSA \<and> (\<exists>k. v = VBytes (exponent k) \<and> gotRSA sv xs (ID sg) k)"
  "attribute_origin sv sg o' CKA_MODULUS_BITS v xs \<longleftrightarrow> v = VUint 0
     \<or> isKey o' \<and> getKeyType sg = CKK_RSA
        \<and> (\<exists>k. v = VUint (of_nat (length (modulus k) * 8)) \<and> gotRSA sv xs (ID sg) k)"
  "attribute_origin sv sg o' CKA_EC_PARAMS v xs \<longleftrightarrow> v = VBytes []
     \<or> isKey o' \<and> getKeyType sg = CKK_EC \<and> (\<exists>k. v = VBytes (ecParams k) \<and> gotEC sv xs (ID sg) k)"
  "attribute_origin sv sg o' CKA_EC_POINT v xs \<longleftrightarrow> v = VBytes []
     \<or> isKey o' \<and> getKeyType sg = CKK_EC \<and> (\<exists>k. v = VBytes (ecPoint k) \<and> gotEC sv xs (ID sg) k)"
proof -
  note none = ownAttributes_fetched [where sg = sg and o' = o']
  show "attribute_origin sv sg o' CKA_VALUE v xs \<longleftrightarrow> v = VBytes []
     \<or> o' = objCertificate \<and> (\<exists>der. v = VBytes der \<and> gotCertificate sv xs (ID sg) der)"
    unfolding attribute_origin_def by (subst none; simp add: const_vals)
  show "attribute_origin sv sg o' CKA_SUBJECT v xs \<longleftrightarrow> v = VBytes []
     \<or> o' = objCertificate \<and> (\<exists>c. v = VBytes (RawSubject c) \<and> gotParsed sv xs (ID sg) c)"
    unfolding attribute_origin_def by (subst none; simp add: const_vals)
  show "attribute_origin sv sg o' CKA_ISSUER v xs \<longleftrightarrow> v = VBytes []
     \<or> o' = objCertificate \<and> (\<exists>c. v = VBytes (RawIssuer c) \<and> gotParsed sv xs (ID sg) c)"
    unfolding attribute_origin_def by (subst none; simp add: const_vals)
  show "attribute_origin sv sg o' CKA_SERIAL_NUMBER v xs \<longleftrightarrow> v = VBytes []
     \<or> o' = objCertificate \<and> (\<exists>c. v = VBytes (nat_bytes (nat \<bar>SerialNumber c\<bar>)) \<and> gotParsed sv xs (ID sg) c)"
    unfolding attribute_origin_def by (subst none; simp add: const_vals)
  show "attribute_origin sv sg o' CKA_MODULUS v xs \<longleftrightarrow> v = VBytes []
     \<or> isKey o' \<and> getKeyType sg = CKK_RSA \<and> (\<exists>k. v = VBytes (modulus k) \<and> gotRSA sv xs (ID sg) k)"
    unfolding attribute_origin_def by (subst none; simp add: const_vals)
  show "attribute_origin sv sg o' CKA_PUBLIC_EXPONENT v xs \<longleftrightarrow> v = VBytes []
     \<or> isKey o' \<and> getKeyType sg = CKK_RSA \<and> (\<exists>k. v = VBytes (exponent k) \<and> gotRSA sv xs (ID sg) k)"
    unfolding attribute_origin_def by (subst none; simp add: const_vals)
  show "attribute_origin sv sg o' CKA_MODULUS_BITS v xs \<longleftrightarrow> v = VUint 0
     \<or> isKey o' \<and> getKeyType sg = CKK_RSA
        \<and> (\<exists>k. v = VUint (of_nat (length (modulus k) * 8)) \<and> gotRSA sv xs (ID sg) k)"
    unfolding attribute_origin_def by (subst none; simp add: const_vals)
  show "attribute_origin sv sg o' CKA_EC_PARAMS v xs \<longleftrightarrow> v = VBytes []
     \<or> isKey o' \<and> getKeyType sg = CKK_EC \<and> (\<exists>k. v = VBytes (ecParams k) \<and> gotEC sv xs (ID sg) k)"
    unfolding attribute_origin_def by (subst none; simp add: const_vals)
  show "attribute_origin sv sg o' CKA_EC_POINT v xs \<longleftrightarrow> v = VBytes []
     \<or> isKey o' \<and> getKeyType sg = CKK_EC \<and> (\<exists>k. v = VBytes (ecPoint k) \<and> gotEC sv xs (ID sg) k)"
    unfolding attribute_origin_def by (subst none; simp add: const_vals)
qed

lemma gives_attributeValue:
  "gives sv (\<lambda>xs. True) (attributeValue (traced sv) sg o' ty) (\<lambda>xs v. attribute_origin sv sg o' ty v xs)"
proof (cases "map_of (ownAttributes sg o') ty")
  case (Some v)
  with attributeValue_own [of sg o' "traced sv"] have "attributeValue (traced sv) sg o' ty = returnE v"
    by (auto dest: map_of_SomeD)
  with Some show ?thesis by (simp add: attribute_origin_def gives_basic)
next
  case None
  have rsa: "gives sv (\<lambda>xs. True) (rsaAttr (traced sv) sg o' a f)
      (\<lambda>xs v. v = a \<or> isKey o' \<and> getKeyType sg = CKK_RSA \<and> (\<exists>k. v = f k \<and> gotRSA sv xs (ID sg) k))"
    if "\<And>k. modulus k = [] \<Longrightarrow> exponent k = [] \<Longrightarrow> f k = a" for a f
    unfolding rsaAttr_def
    by (rule gives_weaken [OF gives_attr [OF gives_getPublicKeyData]]) (use that in auto)
  have ec: "gives sv (\<lambda>xs. True) (ecAttr (traced sv) sg o' f)
      (\<lambda>xs v. v = VBytes [] \<or> isKey o' \<and> getKeyType sg = CKK_EC
        \<and> (\<exists>k. v = VBytes (f k) \<and> gotEC sv xs (ID sg) k))" for f
    unfolding ecAttr_def by (rule gives_weaken [OF gives_attr [OF gives_getECPublicKeyData]]) auto
  have cert: "gives sv (\<lambda>xs. True) (certAttr (traced sv) sg o' f)
      (\<lambda>xs v. v = VBytes [] \<or> o' = objCertificate \<and> (\<exists>c. v = VBytes (f c) \<and> gotParsed sv xs (ID sg) c))" for f
    unfolding certAttr_def by (rule gives_attr [OF gives_getCertificate])
  have der: "gives sv (\<lambda>xs. True) (attributeValue (traced sv) sg o' CKA_VALUE)
      (\<lambda>xs v. v = VBytes [] \<or> o' = objCertificate \<and> (\<exists>der. v = VBytes der \<and> gotCertificate sv xs (ID sg) der))"
    unfolding attributeValue_fetched by (rule gives_attr [OF gives_getCertificateData])
  show ?thesis
  proof (cases "ty \<in> set [CKA_VALUE, CKA_MODULUS, CKA_PUBLIC_EXPONENT, CKA_MODULUS_BITS, CKA_EC_PARAMS,
       CKA_EC_POINT, CKA_SUBJECT, CKA_ISSUER, CKA_SERIAL_NUMBER]")
    case True
    with der show ?thesis
      by (auto simp: attribute_origin_fetched attributeValue_fetched(3-9) attributeValue_number
          simp del: of_nat_mult intro!: rsa ec cert)
  next
    case False
    from attributeValue_other(1) [OF None this, of "traced sv"] attributeValue_other(2) [OF None this] show ?thesis
      using None by (simp add: attribute_origin_def gives_basic)
  qed
qed

lemma gives_attributeLoop:
  "gives sv (\<lambda>xs. True) (attributeLoop (traced sv) sg o' template)
     (\<lambda>xs rs. list_all2 (\<lambda>a r. \<exists>v. r = newAttribute sv (Type a) v
        \<and> attribute_origin sv sg o' (Type a) v xs) template rs)"
proof (induction template)
  case (Cons a template)
  have new: "newAttribute (traced sv) = newAttribute sv" by (simp add: newAttribute_def fun_eq_iff)
  show ?case
    unfolding attributeLoop.simps
    by (rule gives_bind [OF gives_attributeValue], rule gives_bind [OF gives_carry [OF Cons fetched_attributes]])
       (auto intro: lasts intro!: gives_basic simp: new)
qed (auto simp: gives_def)

lemma gives_getSignerBySlot:
  "gives sv (\<lambda>xs. True) (getSignerBySlot (traced sv) i)
     (\<lambda>xs sg. \<exists>signers. gotSigners sv xs signers \<and> unat i < length signers \<and> sg = signers ! unat i)"
  unfolding getSignerBySlot_def
proof (rule gives_bind [OF gives_getSigners])
  fix signers :: "signerResponse list"
  have "unat (of_nat (length signers) :: uint) \<le> length signers" by (simp add: unat_of_nat)
  then have "unat i < length signers" if "\<not> of_nat (length signers) \<le> i"
    using that by (simp add: word_le_nat_alt)
  then show "gives sv (\<lambda>xs. gotSigners sv xs signers) (if of_nat (length signers) \<le> i
      then throwE (Wrapf ''slot'' ErrSlotIDInvalid) else returnE (signers ! unat i))
      (\<lambda>xs sg. \<exists>signers. gotSigners sv xs signers \<and> unat i < length signers \<and> sg = signers ! unat i)"
    by (auto intro!: gives_basic)
qed

lemma gives_GetAttributeValue:
  "gives sv (\<lambda>xs. True) (GetAttributeValue (traced sv) sh obj template) (\<lambda>xs result.
     \<exists>sg. (\<exists>signers. gotSigners sv xs signers \<and> unat (snd (parseObjectHandle obj)) < length signers
          \<and> sg = signers ! unat (snd (parseObjectHandle obj)))
       \<and> list_all2 (\<lambda>a r. \<exists>v. r = newAttribute sv (Type a) v
             \<and> attribute_origin sv sg (fst (parseObjectHandle obj)) (Type a) v xs) template result)"
proof -
  obtain o' i where p: "parseObjectHandle obj = (o', i)" by fastforce
  have slot: "lasting (\<lambda>xs. \<exists>signers. gotSigners sv xs signers \<and> unat i < length signers
      \<and> sg = signers ! unat i)" for sg
    by (intro lasts)
  show ?thesis
    unfolding GetAttributeValue_def p prod.case fst_conv snd_conv
    by (rule gives_bind [OF gives_keeps [OF fetched_slots(1) lasting_basic(1)]],
        rule gives_bind [OF gives_getSignerBySlot],
        rule gives_weaken [OF gives_carry [OF gives_attributeLoop fetched_attributes slot]]) blast
qed

end
