(* ===== verification/Api_Properties.thy ===== *)
theory Api_Properties
  imports Invariants
begin

text \<open>What holds of every exported function, and of every state a process can reach.\<close>

section \<open>A process to start from\<close>

definition unloaded_state :: "'w \<Rightarrow> 'w backend" where
  "unloaded_state w = (example_state w)\<lparr>initialized := False\<rparr>"

lemma unloaded_state: "unloaded (unloaded_state w)" "sm_room (manager (unloaded_state w))"
  by (simp_all add: unloaded_def unloaded_state_def example_state_def sm_room_def newSessionManager_def
      word_less_def unsigned_minus_1_eq_mask mask_eq_exp_minus_1)

text \<open>Services whose server always has the same signature, and whose certificates are RSA.\<close>

definition signature_services :: "nat services" where
  "signature_services = (example_services ok_server)\<lparr>sv_decode_signature := \<lambda>r. Inr ''AQID''\<rparr>"

lemma signature_services:
  "points_on_curve signature_services" "signatures_nonempty signature_services"
proof -
  have "b64_decode ''AQID'' = Some [1, 2, 3]" by code_simp
  then show "signatures_nonempty signature_services"
    by (simp add: signatures_nonempty_def signature_services_def)
qed (simp add: points_on_curve_def signature_services_def example_services_def coordinates_fit_def)

lemma example_initialize:
  "\<exists>t. exec signature_services InitializeCall (unloaded_state 0) = Returns (Inr (CKR_OK, NoMemory), t)
    \<and> initialized t"
  using loadConfig_example
  by (simp add: withoutMemory_run C_Initialize_def Initialize_def catchE_def bindE_def
      unloaded_state_def signature_services_def example_run_defs setDefaults_def
      newInfisicalClient_def Let_def signingCtx_def currentSigningContext_def authenticate_def
      UniversalAuthLogin_def ensureSDKClient_def)

lemma example_reachable:
  "\<exists>t. reachable_from unloaded (module_step signature_services) t \<and> initialized t"
proof -
  obtain t where "exec signature_services InitializeCall (unloaded_state 0)
      = Returns (Inr (CKR_OK, NoMemory), t)" "initialized t" using example_initialize by blast
  then show ?thesis
    using unloaded_state [of 0] by (meson module_step.call reachable_move reachable_start)
qed

section \<open>Properties\<close>

text \<open>
  C3: in every state a process can reach with the module initialized, whatever the calls,
  the server, the clock and the environment did: handles in use are below the next handle,
  every session satisfies its invariant (the search position is within the results, the sign
  buffer holds at most 16 MiB, an ended operation keeps no mechanism, key, data or results),
  and requests go to the configured server, with certificate checks as configured and TLS
  1.2 or later.
\<close>

theorem reachable_states:
  assumes "reachable_from unloaded (module_step sv) s" "initialized s"
  shows "sm_inv (manager s) \<and> client_inv s
    \<and> (\<forall>h x. sm_get (manager s) h = Some x \<longrightarrow> session_inv x)"
  using module_machine.reachable_inv [OF assms(1)] assms(2) by (simp add: module_inv_def)

theorem reachable_states_witness:
  "\<exists>t. reachable_from unloaded (module_step signature_services) t \<and> initialized t \<and> client_inv t
    \<and> sm_inv (manager t)"
  using example_reachable reachable_states by blast

text \<open>
  C2: in every reachable state every call returns a code, and none panics and ends the host
  process, if the lengths it is given are below 2^31 (2^61 for the number of objects), the
  server's signatures are not empty and the points of EC certificates lie in the field of
  their curve.
\<close>

theorem every_call_returns:
  assumes "reachable_from unloaded (module_step sv) s" "lengths_small c" "points_on_curve sv"
    "signatures_nonempty sv"
  shows "\<exists>rv m t. exec sv c s = Returns (Inr (rv, m), t)"
  using exec_returns [OF assms(2-4)] module_machine.reachable_inv [OF assms(1)] by blast

theorem every_call_returns_witness:
  "\<exists>s rv m t. initialized s \<and> exec signature_services
      (SignCall 1 (Some [1, 2, 3]) 3 (Some [0, 0, 0]) (Some 3)) s = Returns (Inr (rv, m), t)"
  using example_reachable signature_services
    every_call_returns [of signature_services _ "SignCall 1 (Some [1, 2, 3]) 3 (Some [0, 0, 0]) (Some 3)"]
  by fastforce



text \<open>
  C17: of the requests the module sends to the server's API with its own HTTP client, only those
  of \<^verbatim>\<open>C_Sign\<close> and \<^verbatim>\<open>C_SignFinal\<close> can be anything but a GET: every other call sends only GET
  requests without a body, with the configured client. Logins are not among them: where
  \<^verbatim>\<open>C_Login\<close>, \<^verbatim>\<open>C_Initialize\<close> or a refused token makes the module log in, the SDK does so with
  a client of its own, which the log of exchanges does not see.
\<close>

theorem only_signing_posts:
  assumes "exec (traced sv) c s = Returns (r, t)" "\<not> signs c"
  shows "\<exists>xs. exchanges t = exchanges s @ xs
    \<and> (\<forall>x \<in> set xs. reading (httpClient (client s)) x)"
  using traced.exec_reads [OF assms] .

lemma example_slot_call:
  "\<exists>t. exec (traced (example_services ok_server)) (GetSlotListCall 1 (Some [7, 7, 7]) (Some 3))
      (example_state (1, [])) = Returns (Inr (CKR_OK, ListMemory (Some [0, 1, 7]) (Some 2)), t)
    \<and> length (exchanges t) = 1"
  by (simp add: withMemory_run C_GetSlotList_def guarded_run orElse_run answerList_def
      GetSlotList_def)
    (simp add: fetch_defs example_run_defs ok_server_def ListSigners_def newSignerCache_def
      cache_defs seconds_exact overwrite_def const_vals)

theorem only_signing_posts_witness:
  "\<exists>t x. exec (traced (example_services ok_server)) (GetSlotListCall 1 (Some [7, 7, 7]) (Some 3))
      (example_state (1, [])) = Returns (Inr (CKR_OK, ListMemory (Some [0, 1, 7]) (Some 2)), t)
    \<and> exchanges t = [x] \<and> reading (httpClient example_client) x"
proof -
  obtain t where t: "exec (traced (example_services ok_server))
      (GetSlotListCall 1 (Some [7, 7, 7]) (Some 3)) (example_state (1, []))
      = Returns (Inr (CKR_OK, ListMemory (Some [0, 1, 7]) (Some 2)), t)" "length (exchanges t) = 1"
    using example_slot_call by blast
  from only_signing_posts [OF t(1)] t(2) have "\<forall>x \<in> set (exchanges t). reading (httpClient example_client) x"
    by (auto simp: signs_def example_state_def)
  with t show ?thesis by (cases "exchanges t") auto
qed

text \<open>
  C15: what a call that takes a session handle, \<^verbatim>\<open>C_CloseSession\<close>, \<^verbatim>\<open>C_Login\<close> and
  \<^verbatim>\<open>C_Logout\<close> included, does outside that session. Every other session is unchanged,
  except that a login or logout may set the login flag, and nothing else, of the sessions on
  the same slot. The session itself stays in its slot, its login changes only by login and
  logout, and it disappears only by \<^verbatim>\<open>C_CloseSession\<close>. The configuration changes only by a
  login, and then in its \<^verbatim>\<open>auth\<close> part alone.
\<close>

theorem session_isolation:
  assumes "exec sv c s = Returns (r, t)" "session_of c = Some h"
  shows "initialized t = initialized s
    \<and> (\<exists>a. config t = (config s)\<lparr>Auth := a\<rparr>) \<and> (login_flag c \<noteq> Some True \<longrightarrow> config t = config s)
    \<and> (\<forall>k. k \<noteq> h \<longrightarrow> sm_get (manager t) k = sm_get (manager s) k
        \<or> (\<exists>b x y. login_flag c = Some b \<and> sm_get (manager s) h = Some x
            \<and> sm_get (manager s) k = Some y \<and> slotID y = slotID x
            \<and> sm_get (manager t) k = Some (y\<lparr>loggedIn := b\<rparr>)))
    \<and> (case sm_get (manager t) h of
         None \<Rightarrow> sm_get (manager s) h = None \<or> c = CloseSessionCall h
       | Some y \<Rightarrow> \<exists>x. sm_get (manager s) h = Some x \<and> slotID y = slotID x
           \<and> (loggedIn y = loggedIn x \<or> login_flag c = Some (loggedIn y)))"
proof -
  from assms(2) show ?thesis
  proof (cases rule: session_calls)
    case own
    from keepsD [OF touches_exec [OF this] assms(1)] show ?thesis
      by (cases "sm_get (manager t) h"; cases "sm_get (manager s) h") (auto simp: touches_def auth_same)
  next
    case close
    from runs_CloseSessionCall [OF assms(1) [unfolded close]] close show ?thesis
      by (auto simp: auth_same sm_close_def sm_get_def split: option.splits)
  next
    case login
    from runs_LoginCall [OF assms(1) [unfolded login]] show ?thesis
    proof (elim disjE)
      assume "slot_login h True s t" "config_frame s t"
      with slot_login_at [OF this(1)] login show ?thesis by (auto simp: config_frame_def)
    qed (auto simp: login config_frame_def split: option.splits)
  next
    case logout
    from runs_LogoutCall [OF assms(1) [unfolded logout]] show ?thesis
    proof (elim disjE)
      assume "slot_login h False s t" "config t = config s" "initialized t = initialized s"
      with slot_login_at [OF this(1)] logout show ?thesis by (auto simp: auth_same)
    qed (auto simp: logout auth_same split: option.splits)
  qed
qed

theorem session_isolation_witness:
  "\<exists>t. exec (traced (example_services ok_server)) (FindObjectsInitCall 1 None 0) two_sessions
      = Returns (Inr (CKR_OK, NoMemory), t) \<and> sm_get (manager t) 2 = Some (new_session 1)"
proof -
  have "initialized two_sessions" "\<not> findActive (new_session 0)"
    by (simp_all add: two_sessions_def example_state_def new_session_def)
  then obtain t where t: "exec (traced (example_services ok_server)) (FindObjectsInitCall 1 None 0)
      two_sessions = Returns (Inr (CKR_OK, NoMemory), t)"
    by (simp add: withMemory_run C_FindObjectsInit_def guarded_run liftOut_def orElse_run
        FindObjectsInit_def bind_getSession two_sessions_get collectTemplate_def matchesIDLabel_def
        matchesSubject_def setFindResult_run const_vals)
  from session_isolation [OF t] t show ?thesis by (simp add: two_sessions_get)
qed

text \<open>
  C35: a call that fails leaves the caller's memory as it was, unless it fails because a
  buffer is too small.
\<close>

theorem errors_leave_memory:
  assumes "exec sv c s = Returns (Inr (rv, m), t)" "rv \<noteq> CKR_OK" "rv \<noteq> CKR_BUFFER_TOO_SMALL"
  shows "m = memoryOf c"
  using leaves_exec [of c sv] assms by (auto simp: leaves_def)

lemma example_closed:
  "exec (example_services ok_server) (SignCall 9 (Some [1]) 1 (Some [0, 0]) (Some 2)) (example_state 1)
    = Returns (Inr (CKR_SESSION_HANDLE_INVALID, SignatureMemory (Some [0, 0]) (Some 2)), example_state 1)"
  by (simp add: withMemory_run C_Sign_def guarded_run goBytes_small liftOut_def orElse_run Sign_def
      finishSign_run mapErrorToRV_root example_state_def newSessionManager_def sm_get_def)

theorem errors_leave_memory_witness:
  "\<exists>rv m t. exec (example_services ok_server) (SignCall 9 (Some [1]) 1 (Some [0, 0]) (Some 2))
      (example_state 1) = Returns (Inr (rv, m), t) \<and> m = SignatureMemory (Some [0, 0]) (Some 2)"
  using errors_leave_memory [OF example_closed] example_closed by (auto simp: const_vals)

text \<open>
  C13: if every buffer is as long as the count given with it, no call writes past the end of a
  buffer or of a field of a structure, whatever the server answers and however long its
  answers are.
\<close>

theorem no_buffer_overflow:
  assumes "exec sv c s = Returns (Inr (rv, m), t)" "memory_valid c"
  shows "sizes m = sizes (memoryOf c)"
  using exec_sizes [OF assms(2,1)] .

theorem no_buffer_overflow_witness:
  "\<exists>m t. exec (traced (example_services ok_server)) (GetSlotListCall 1 (Some [7, 7, 7]) (Some 3))
      (example_state (1, [])) = Returns (Inr (CKR_OK, m), t) \<and> sizes m = [3]"
proof -
  obtain t where t: "exec (traced (example_services ok_server))
      (GetSlotListCall 1 (Some [7, 7, 7]) (Some 3)) (example_state (1, []))
      = Returns (Inr (CKR_OK, ListMemory (Some [0, 1, 7]) (Some 2)), t)"
    using example_slot_call by blast
  from no_buffer_overflow [OF t] t show ?thesis by (auto simp: covers_def buffer_size_def)
qed

text \<open>
  A login that fails changes neither a session nor the configuration, and its code is one
  of three; a refused credential is not told apart from an unreachable server.
\<close>

theorem login_codes:
  assumes "exec sv (LoginCall h u p n) s = Returns (Inr (rv, m), t)" "rv \<noteq> CKR_OK"
  shows "manager t = manager s \<and> config t = config s
    \<and> rv \<in> {CKR_CRYPTOKI_NOT_INITIALIZED, CKR_SESSION_HANDLE_INVALID, CKR_GENERAL_ERROR}"
proof (cases "initialized s")
  case False
  with assms show ?thesis by (simp add: withMemory_run C_Login_def simply_run)
next
  case True
  with assms obtain pin e where "Login sv h u pin s = Returns (Inl e, t)" "rv = mapErrorToRV e"
    by (auto simp: withMemory_run C_Login_def simply_run liftOut_def bindE_def catchE_def
        split: outcome.splits sum.splits if_splits)
  then show ?thesis by (cases rule: Login_cases) auto
qed

theorem login_codes_witness:
  "\<exists>rv m t. exec (example_services ok_server) (LoginCall 9 1 (Some [65]) 1) (example_state 1)
      = Returns (Inr (rv, m), t) \<and> rv = CKR_SESSION_HANDLE_INVALID \<and> manager t = newSessionManager"
proof -
  have run: "exec (example_services ok_server) (LoginCall 9 1 (Some [65]) 1) (example_state 1)
      = Returns (Inr (CKR_SESSION_HANDLE_INVALID, NoMemory), example_state 1)"
    by (simp add: withMemory_run C_Login_def simply_run pinOf_def goBytes_small liftOut_def
        Login_def bind_getSession mapErrorToRV_root example_state_def newSessionManager_def sm_get_def)
  from login_codes [OF run] run show ?thesis by (auto simp: const_vals example_state_def)
qed

section \<open>Reading attributes in two calls\<close>

text \<open>
  What an application does to read attributes of unknown length: a call with NULL pointers,
  then a call with buffers of the lengths the first one reported.
\<close>

definition null_value :: "ck_attribute \<Rightarrow> ck_attribute" where
  "null_value a = a\<lparr>attr_pValue := None\<rparr>"

definition allocate :: "ck_attribute \<Rightarrow> ck_attribute" where
  "allocate a = a\<lparr>attr_pValue := Some (replicate (unat (attr_vallen a)) 0)\<rparr>"

definition reported :: "Attribute \<Rightarrow> ck_attribute \<Rightarrow> ck_attribute" where
  "reported r a = (null_value a)\<lparr>attr_vallen := of_nat (length (value_of r))\<rparr>"

lemma reported_fields [simp]:
  "attr_pValue (null_value a) = None" "attr_type (null_value a) = attr_type a"
  "attr_vallen (reported r a) = of_nat (length (value_of r))" "attr_type (reported r a) = attr_type a"
  "attr_pValue (allocate a) = Some (replicate (unat (attr_vallen a)) 0)"
  "attr_vallen (allocate a) = attr_vallen a" "attr_type (allocate a) = attr_type a"
  by (simp_all add: null_value_def reported_def allocate_def)

lemma copyResults_null:
  "length rs = length as \<Longrightarrow> copyResults rs (map null_value as) = (CKR_OK, map2 reported rs as)"
  by (induction rs as rule: list_induct2)
     (simp_all add: copyResults_Cons reported_def del: copyResults.simps(1))

lemma copyResults_allocated:
  "length rs = length as \<Longrightarrow> \<forall>r \<in> set rs. length (value_of r) < 2 ^ 64 \<Longrightarrow>
   \<exists>cs. copyResults rs (map allocate (map2 reported rs as)) = (CKR_OK, cs)
     \<and> map attr_pValue cs = map (\<lambda>r. Some (value_of r)) rs
     \<and> map (\<lambda>c. unat (attr_vallen c)) cs = map (\<lambda>r. length (value_of r)) rs"
proof (induction rs as rule: list_induct2)
  case (Cons r rs a as)
  then obtain cs where "copyResults rs (map allocate (map2 reported rs as)) = (CKR_OK, cs)"
    "map attr_pValue cs = map (\<lambda>r. Some (value_of r)) rs"
    "map (\<lambda>c. unat (attr_vallen c)) cs = map (\<lambda>r. length (value_of r)) rs" by auto
  with Cons.prems show ?case
    by (simp add: copyResults_Cons unat_of_nat_u64 overwrite_def del: copyResults.simps(1))
qed simp

text \<open>
  C25: as long as the backend's answer stays the same, the first call succeeds and reports the
  lengths, and the second, with buffers of exactly these lengths, succeeds and delivers every
  value in full.
\<close>

theorem attributes_in_two_calls:
  assumes "initialized s" "n \<le> maxTemplateAttrs" "length as = unat n"
    "GetAttributeValue sv h obj (map (\<lambda>a. \<lparr>Type = attr_type a, Value = None\<rparr>) as) s = Returns (Inr results, t)"
    "GetAttributeValue sv h obj (map (\<lambda>a. \<lparr>Type = attr_type a, Value = None\<rparr>) as) t = Returns (Inr results, u)"
    "\<forall>r \<in> set results. \<forall>v. Value r = Some v \<longrightarrow> length v < 2 ^ 64"
  shows "\<exists>bs cs. C_GetAttributeValue sv h obj (Some (map null_value as)) n s = Returns (Inr (CKR_OK, Some bs), t)
    \<and> C_GetAttributeValue sv h obj (Some (map allocate bs)) n t = Returns (Inr (CKR_OK, Some cs), u)
    \<and> map attr_pValue cs = map Value results
    \<and> map (\<lambda>c. unat (attr_vallen c)) cs = map (\<lambda>r. length (the (Value r))) results"
proof -
  let ?types = "map (\<lambda>a. \<lparr>Type = attr_type a, Value = None\<rparr>)"
  let ?bs = "map2 reported results as"
  obtain signer where "list_all2 (\<lambda>a r. \<exists>v s1 s2.
      attributeValue sv signer (fst (parseObjectHandle obj)) (Type a) s1 = Returns (Inr v, s2)
      \<and> r = newAttribute sv (Type a) v) (?types as) results"
    using GetAttributeValue_all2 [OF assms(4)] by blast
  then have all: "list_all2 (\<lambda>a r. Value r = Some (value_of r)) (?types as) results"
    by (rule list_all2_mono) (auto simp: newAttribute_def value_of_def)
  then have rs: "length results = length as" "\<forall>r \<in> set results. Value r = Some (value_of r)"
    using list_all2_lengthD [OF all] by (auto simp: list_all2_conv_all_nth in_set_conv_nth)
  have types: "?types (map null_value as) = ?types as" "?types (map allocate ?bs) = ?types as"
    using rs(1) by (auto simp: null_value_def allocate_def reported_def intro!: nth_equalityI)
  have t: "initialized t" using keepsD [OF core_GetAttributeValue assms(4)] assms(1) by (simp add: same_core_def)
  have one: "C_GetAttributeValue sv h obj (Some (map null_value as)) n s = Returns (Inr (CKR_OK, Some ?bs), t)"
    using C_GetAttributeValue_run [OF assms(1,2) _ assms(4) [folded types(1)]] assms(3)
      copyResults_null [OF rs(1)] by simp
  obtain cs where cs: "copyResults results (map allocate ?bs) = (CKR_OK, cs)"
    "map attr_pValue cs = map (\<lambda>r. Some (value_of r)) results"
    "map (\<lambda>c. unat (attr_vallen c)) cs = map (\<lambda>r. length (value_of r)) results"
    using copyResults_allocated [OF rs(1)] rs(2) assms(6) by fastforce
  have "C_GetAttributeValue sv h obj (Some (map allocate ?bs)) n t = Returns (Inr (CKR_OK, Some cs), u)"
    using C_GetAttributeValue_run [OF t assms(2) _ assms(5) [folded types(2)]] assms(3) rs(1) cs(1)
    by simp
  moreover have "map (\<lambda>r. Some (value_of r)) results = map Value results"
    "map (\<lambda>r. length (value_of r)) results = map (\<lambda>r. length (the (Value r))) results"
    using rs(2) by auto
  ultimately show ?thesis using one cs(2,3) by auto
qed

lemma example_attributes_twice:
  "\<exists>t u. GetAttributeValue (example_services ok_server) 1 (makePrivateKeyHandle 0)
      [\<lparr>Type = CKA_EXTRACTABLE, Value = None\<rparr>, \<lparr>Type = CKA_LABEL, Value = None\<rparr>] policy_state
    = Returns (Inr [\<lparr>Type = CKA_EXTRACTABLE, Value = Some [0]\<rparr>,
        \<lparr>Type = CKA_LABEL, Value = Some (bytes_of_string ''release'')\<rparr>], t)
    \<and> GetAttributeValue (example_services ok_server) 1 (makePrivateKeyHandle 0)
      [\<lparr>Type = CKA_EXTRACTABLE, Value = None\<rparr>, \<lparr>Type = CKA_LABEL, Value = None\<rparr>] t
    = Returns (Inr [\<lparr>Type = CKA_EXTRACTABLE, Value = Some [0]\<rparr>,
        \<lparr>Type = CKA_LABEL, Value = Some (bytes_of_string ''release'')\<rparr>], u)"
  by (simp add: GetAttributeValue_def getSession_run policy_state_def sm_get_def parse_make
      attributeValue_def newAttribute_def const_vals fetch_defs example_run_defs ok_server_def
      ListSigners_def newSignerCache_def cache_defs seconds_exact attribute_bytes_def rsa_signer_def)

theorem attributes_in_two_calls_witness:
  "\<exists>t u bs cs. C_GetAttributeValue (example_services ok_server) 1 (makePrivateKeyHandle 0) (Some bs) 2 t
      = Returns (Inr (CKR_OK, Some cs), u)
    \<and> map attr_pValue cs = [Some [0], Some (bytes_of_string ''release'')]"
proof -
  let ?as = "[\<lparr>attr_type = CKA_EXTRACTABLE, attr_pValue = None, attr_vallen = 0\<rparr>,
    \<lparr>attr_type = CKA_LABEL, attr_pValue = None, attr_vallen = 0\<rparr>]"
  let ?types = "map (\<lambda>a. \<lparr>Type = attr_type a, Value = None\<rparr>) ?as"
  let ?rs = "[\<lparr>Type = CKA_EXTRACTABLE, Value = Some [0]\<rparr>,
    \<lparr>Type = CKA_LABEL, Value = Some (bytes_of_string ''release'')\<rparr>]"
  obtain t u where "GetAttributeValue (example_services ok_server) 1 (makePrivateKeyHandle 0) ?types policy_state
      = Returns (Inr ?rs, t)" "GetAttributeValue (example_services ok_server) 1 (makePrivateKeyHandle 0) ?types t
      = Returns (Inr ?rs, u)"
    using example_attributes_twice by auto
  moreover have "initialized policy_state" "(2 :: uint) \<le> maxTemplateAttrs"
    by (simp_all add: policy_state_def example_state_def const_vals)
  ultimately show ?thesis
    using attributes_in_two_calls [of policy_state 2 ?as "example_services ok_server" 1
        "makePrivateKeyHandle 0" ?rs t u] by fastforce
qed

section \<open>A fresh start\<close>

text \<open>
  C38: An initialization that succeeds happens only when the module was not initialized, and
  it starts clean: with a configuration that was just loaded and validated, with no session, so
  that no handle is valid when it returns, and with no signer, no certificate and no key cached.
\<close>

theorem initialize_starts_clean:
  assumes "exec sv InitializeCall s = Returns (Inr (CKR_OK, m), t)"
  shows "\<not> initialized s \<and> initialized t
    \<and> loadConfig (sv_parsers sv) (sv_os sv (world s)) = Inr (config t)
    \<and> (\<forall>h. sm_get (manager t) h = None) \<and> sc_entry (signer_cache t) = None
    \<and> certs (cert_cache t) = Map.empty \<and> pubKeys (cert_cache t) = Map.empty"
proof -
  from assms have run: "Initialize sv s = Returns (Inr (), t)"
    by (auto simp: withoutMemory_run C_Initialize_def catchE_def const_vals
        split: outcome.splits sum.splits if_split_asm)
  then show ?thesis
  proof (cases rule: Initialize_cases)
    case (started cfg cl u)
    then have "initialized t" "config t = cfg" "manager t = newSessionManager"
      "signer_cache t = newSignerCache (SignerTTLSeconds (CacheCfg cfg))"
      "cert_cache t = newCertDataCache (CertTTLSeconds (CacheCfg cfg))"
      by (simp_all add: same_core_def same_caches_def)
    with started(1,2) show ?thesis
      by (simp add: sm_get_def newSessionManager_def newSignerCache_def newCertDataCache_def Let_def)
  qed auto
qed

theorem initialize_starts_clean_witness:
  "\<exists>t. exec signature_services InitializeCall (unloaded_state 0) = Returns (Inr (CKR_OK, NoMemory), t)
    \<and> sm_get (manager t) 1 = None"
  using example_initialize initialize_starts_clean by blast

end
