(* ===== verification/Provenance.thy ===== *)
theory Provenance
  imports Fetched Api_Properties
begin

text \<open>
  What a history proves of every signature that is handed out: who asked for it, and where it
  comes from. With the example of a whole process.
\<close>

section \<open>An example history\<close>

text \<open>A process that starts the module, opens a session, and signs a digest with the EC key.\<close>

abbreviation demo :: "(nat \<times> exchange list) services" where
  "demo \<equiv> traced (example_services ok_server)"

definition demo_started :: "(nat \<times> exchange list) backend" where
  "demo_started = (example_state (1, []))\<lparr>captured := Some (captureSigningContext (example_os [])),
     config := fill_method (setDefaults example_config),
     client := example_client\<lparr>cl_sdkConfig := (cl_sdkConfig example_client)\<lparr>SiteUrl :=
       trimRightChar ''https://app.infisical.com'' CHR ''/''\<rparr>\<rparr>,
     signer_cache := newSignerCache 60\<rparr>"

definition demo_opened :: "(nat \<times> exchange list) backend" where
  "demo_opened = demo_started\<lparr>
     world := (1, [(listSigners_request (httpClient example_client) ''t1'', Inr (ok_response ''AQID''))]),
     manager := \<lparr>sessions = [1 \<mapsto> (new_session 1)\<lparr>loggedIn := True\<rparr>], nextID = 2\<rparr>,
     signer_cache := \<lparr>sc_ttl = 60000000000, sc_entry = Some
       \<lparr>entry_value = [rsa_signer, ec_signer], expiresAt = 60000000000\<rparr>\<rparr>\<rparr>"

definition demo_signing :: "(nat \<times> exchange list) backend" where
  "demo_signing = demo_opened\<lparr>manager := sm_update (manager demo_opened) 1 (startSign CKM_ECDSA 1)\<rparr>"

lemmas demo_defs = demo_started_def demo_opened_def demo_signing_def setDefaults_def

lemma demo_initialize:
  "exec demo InitializeCall (unloaded_state (0, [])) = Returns (Inr (CKR_OK, NoMemory), demo_started)"
  using loadConfig_example
  by (simp add: withoutMemory_run C_Initialize_def Initialize_def catchE_def bindE_def demo_defs
      unloaded_state_def example_run_defs newInfisicalClient_def Let_def signingCtx_def
      currentSigningContext_def authenticate_def UniversalAuthLogin_def ensureSDKClient_def)

lemma demo_open:
  "exec demo (OpenSessionCall 1 0 (Some 0)) demo_started
    = Returns (Inr (CKR_OK, HandleMemory (Some 1)), demo_opened)"
  by (simp add: withMemory_run C_OpenSession_def guarded_run orElse_run OpenSession_def openIn_def
      fetch_defs example_run_defs ok_server_def ListSigners_def newSignerCache_def cache_defs
      seconds_exact sm_open_def newSessionManager_def demo_defs setLoggedIn_def sm_update_def
      map_at_def isTokenAuth_def hasConfigCredentials_def word_le_nat_alt)

lemma demo_session:
  "sm_get (manager demo_opened) 1 = Some ((new_session 1)\<lparr>loggedIn := True\<rparr>)"
  "initialized demo_started" "initialized demo_opened" "initialized demo_signing"
  by (simp_all add: demo_defs sm_get_def example_state_def)

lemma demo_sign_init:
  "exec demo (SignInitCall 1 (Some CKM_ECDSA) (makePrivateKeyHandle 1)) demo_opened
    = Returns (Inr (CKR_OK, NoMemory), demo_signing)"
  by (simp add: withMemory_run C_SignInit_run demo_session new_session_def demo_signing_def
      parse_make)

lemma demo_sign:
  "\<exists>t. exec demo (SignCall 1 (Some (replicate 32 1)) 32 (Some [0, 0, 0]) (Some 3)) demo_signing
    = Returns (Inr (CKR_OK, SignatureMemory (Some [1, 2, 3]) (Some 3)), t)"
proof -
  have "\<exists>t. Sign demo 1 (replicate 32 1) demo_signing = Returns (Inr [1, 2, 3], t)"
    by (simp add: Sign_def finishSign_run demo_signing_def demo_session new_session_def
        startSign_def sm_get_update)
       (simp add: signing_example_defs demo_defs ok_server_def b64_AQID const_vals word_le_nat_alt)
  then show ?thesis
    using C_Sign_run [of demo_signing "replicate 32 1"]
    by (auto simp: withMemory_run demo_session orElse_run handSignature_run overwrite_def)
qed
definition demo_events :: "nat event list" where
  "demo_events = [(InitializeCall, CKR_OK, unloaded_state (0, [])),
     (OpenSessionCall 1 0 (Some 0), CKR_OK, demo_started),
     (SignInitCall 1 (Some CKM_ECDSA) (makePrivateKeyHandle 1), CKR_OK, demo_opened)]"

lemma demo_history: "history (example_services ok_server) demo_events demo_signing"
proof -
  have room: "sm_room (manager demo_started)" "sm_room (manager demo_opened)"
    using unloaded_state(2) by (simp_all add: demo_defs example_state_def sm_room_def
        newSessionManager_def unloaded_state_def word_less_def unsigned_minus_1_eq_mask
        mask_eq_exp_minus_1)
  have "history (example_services ok_server) [] (unloaded_state (0, []))"
    by (intro history.load unloaded_state) (simp add: unloaded_state_def example_state_def)
  from history.call [OF this unloaded_state(2) demo_initialize]
  have "history (example_services ok_server) [(InitializeCall, CKR_OK, unloaded_state (0, []))]
      demo_started" by simp
  from history.call [OF this room(1) demo_open] history.call [OF _ room(2) demo_sign_init]
  show ?thesis unfolding demo_events_def by fastforce
qed

text \<open>A call that hands out a signature.\<close>

lemma handed_out:
  assumes "exec sv c s = Returns (Inr (CKR_OK, m), t)" "signs_on c = Some h"
  obtains d sig u buf where "initialized s" "finishSign sv h d s = Returns (Inr sig, u)"
    "m = SignatureMemory (Some (overwrite sig buf)) (Some (of_nat (length sig)))"
    "length sig < 2 ^ 64" "exchanges t = exchanges u"
proof -
  have signs: "signs c" using assms(2) by (cases c) (auto simp: signs_def)
  have init: "initialized s"
    using assms(1) signs
    by (auto simp: signs_def withMemory_run C_Sign_def C_SignFinal_def guarded_run const_vals
        split: api_call.splits if_splits)
  from assms(1) signs init show thesis
  proof (cases rule: signing_cases_exec)
    case (finish h' d buf len out)
    from finish(3) show thesis
    proof (cases rule: orElse_finish_cases)
      case (failed e)
      with mapErrorToRV_not_OK(2) show thesis by blast
    next
      case (handed sig u)
      have "length sig < 2 ^ 64" using handed(3) unat_lt_u64 [of len] by linarith
      with handed finish assms(2) that init show thesis by simp
    qed (simp add: const_vals)
  qed (use assms(2) in \<open>simp_all add: const_vals\<close>)
qed

section \<open>Properties\<close>

text \<open>
  C8: a signature is handed out on a session only if, earlier in the process, an operation was
  started on that session, with the mechanism and the key the signature is made with, and
  before that a login was granted for the slot the session then belonged to: a successful
  \<^verbatim>\<open>C_Login\<close> on a session of the slot, or the opening of a session of the slot while the
  configuration held a token or client credentials.
\<close>

theorem signing_requires_login:
  assumes "history sv evs s" "exec (traced sv) c s = Returns (Inr (CKR_OK, m), t)" "signs_on c = Some h"
  shows "\<exists>pre mech key s0 x y post. evs = pre @ (SignInitCall h (Some mech) key, CKR_OK, s0) # post
    \<and> sm_get (manager s) h = Some y \<and> signMech y = mech
    \<and> signKeyIndex y = snd (parseObjectHandle key)
    \<and> sm_get (manager s0) h = Some x \<and> (\<exists>e \<in> set pre. logs_in (slotID x) e)"
  using assms(2,3)
proof (cases rule: handed_out)
  case (1 d sig u buf)
  from 1(2) obtain y where y: "sm_get (manager s) h = Some y" "signActive y"
    by (cases rule: finishSign_cases) auto
  then have "started evs h (signMech y) (signKeyIndex y)"
    using history_login [OF assms(1)] 1(1) by (auto simp: login_inv_def session_history_def)
  then obtain pre key s0 x post where
    "evs = pre @ (SignInitCall h (Some (signMech y)) key, CKR_OK, s0) # post"
    "signKeyIndex y = snd (parseObjectHandle key)" "sm_get (manager s0) h = Some x"
    "\<exists>e \<in> set pre. logs_in (slotID x) e"
    unfolding started_def authorised_def by (elim exE conjE) (rule that, assumption, erule sym, assumption+)
  with y(1) show ?thesis by (intro exI conjI) (assumption | rule refl)+
qed

theorem signing_requires_login_witness:
  "\<exists>pre mech key s0 x post. demo_events = pre @ (SignInitCall 1 (Some mech) key, CKR_OK, s0) # post
    \<and> sm_get (manager s0) 1 = Some x \<and> (\<exists>e \<in> set pre. logs_in (slotID x) e)"
proof -
  obtain t where "exec demo (SignCall 1 (Some (replicate 32 1)) 32 (Some [0, 0, 0]) (Some 3)) demo_signing
    = Returns (Inr (CKR_OK, SignatureMemory (Some [1, 2, 3]) (Some 3)), t)" using demo_sign by blast
  from signing_requires_login [OF demo_history this signs_on.simps(1)]
  obtain pre mech key s0 x post where
    e: "demo_events = pre @ (SignInitCall 1 (Some mech) key, CKR_OK, s0) # post" and
    x: "sm_get (manager s0) 1 = Some x" and l: "\<exists>e \<in> set pre. logs_in (slotID x) e"
    by (elim exE conjE) (rule that)
  show ?thesis using e x l by (intro exI conjI) assumption+
qed

text \<open>
  C9: every signature that is handed out, kept from before or new, is the decoded answer of the
  server to a sign request this process sent: the module never makes up a signature and
  never takes one from anywhere else.
\<close>

theorem signatures_come_from_server:
  assumes "history sv evs s" "signs_on c = Some h"
    "exec (traced sv) c s = Returns (Inr (CKR_OK, SignatureMemory (Some out) (Some n)), t)"
  shows "received sv (exchanges t) (take (unat n) out)"
  using assms(3,2)
proof (cases rule: handed_out)
  case (1 d sig u buf)
  from 1(3,4) have "take (unat n) out = sig" by (simp add: unat_of_nat_u64)
  with 1 finishSign_received [OF 1(2) history_kept [OF assms(1)] 1(1)] show ?thesis by simp
qed

theorem signatures_come_from_server_witness:
  "\<exists>t. exec demo (SignCall 1 (Some (replicate 32 1)) 32 (Some [0, 0, 0]) (Some 3)) demo_signing
      = Returns (Inr (CKR_OK, SignatureMemory (Some [1, 2, 3]) (Some 3)), t)
    \<and> received (example_services ok_server) (exchanges t) [1, 2, 3]"
proof -
  obtain t where t: "exec demo (SignCall 1 (Some (replicate 32 1)) 32 (Some [0, 0, 0]) (Some 3)) demo_signing
    = Returns (Inr (CKR_OK, SignatureMemory (Some [1, 2, 3]) (Some 3)), t)" using demo_sign by blast
  from signatures_come_from_server [OF demo_history _ this, of 1] t show ?thesis by auto
qed

text \<open>
  C18: what the module says of an object comes from the server: the signer of the object is the
  one at its slot in a list the server sent to this process, and every attribute a client
  reads, of any type, is what that signer and the kind of the object make it. Class, key type,
  certificate type, label, identifier and all booleans are those of the table
  \<open>ownAttributes\<close>; the certificate, its subject, issuer and serial number are, for a certificate
  object, empty or those of the certificate the server sent for this signer, cached or not,
  and so are the parts of the key, for a key object of the algorithm; everything else is empty.
\<close>

theorem attributes_come_from_server:
  assumes "history sv evs s" "initialized s"
    "GetAttributeValue (traced sv) sh obj template s = Returns (Inr result, t)"
  shows "\<exists>signers slot. gotSigners sv (exchanges t) signers
    \<and> slot = unat (snd (parseObjectHandle obj)) \<and> slot < length signers
    \<and> list_all2 (\<lambda>a r. \<exists>v. r = newAttribute sv (Type a) v
        \<and> attribute_origin sv (signers ! slot) (fst (parseObjectHandle obj)) (Type a) v (exchanges t))
      template result"
  using givesD [OF gives_GetAttributeValue assms(3) history_caches [OF assms(1,2)]] by blast

lemma demo_attributes:
  "\<exists>t. GetAttributeValue demo 1 (makeCertificateHandle 1) [\<lparr>Type = CKA_VALUE, Value = None\<rparr>] demo_signing
    = Returns (Inr [\<lparr>Type = CKA_VALUE, Value = Some [48, 0]\<rparr>], t)"
proof -
  have "sm_get (manager demo_signing) 1 \<noteq> None"
    by (simp add: demo_signing_def demo_session sm_get_update)
  then show ?thesis
    by (clarsimp simp: GetAttributeValue_def bind_getSession parse_make attributeValue_fetched newAttribute_def)
      (simp add: getCertificateData_def getSignerBySignerID_def fetchCertificate_def fetch_defs
      example_run_defs demo_defs ok_server_def GetCertificate_def cache_defs newCertDataCache_def
      attribute_bytes_def rsa_signer_def ec_signer_def const_vals word_le_nat_alt)
qed

theorem attributes_come_from_server_witness:
  "\<exists>t signers. GetAttributeValue demo 1 (makeCertificateHandle 1) [\<lparr>Type = CKA_VALUE, Value = None\<rparr>]
      demo_signing = Returns (Inr [\<lparr>Type = CKA_VALUE, Value = Some [48, 0]\<rparr>], t)
    \<and> gotSigners (example_services ok_server) (exchanges t) signers
    \<and> gotCertificate (example_services ok_server) (exchanges t) (ID (signers ! 1)) [48, 0]"
proof -
  obtain t where t: "GetAttributeValue demo 1 (makeCertificateHandle 1)
      [\<lparr>Type = CKA_VALUE, Value = None\<rparr>] demo_signing
    = Returns (Inr [\<lparr>Type = CKA_VALUE, Value = Some [48, 0]\<rparr>], t)" using demo_attributes by blast
  from attributes_come_from_server [OF demo_history demo_session(4) this] obtain signers slot where
    g: "gotSigners (example_services ok_server) (exchanges t) signers" and
    slot: "slot = unat (snd (parseObjectHandle (makeCertificateHandle 1)))" and
    l: "list_all2 (\<lambda>a r. \<exists>v. r = newAttribute (example_services ok_server) (Type a) v
        \<and> attribute_origin (example_services ok_server) (signers ! slot)
             (fst (parseObjectHandle (makeCertificateHandle 1))) (Type a) v (exchanges t))
      [\<lparr>Type = CKA_VALUE, Value = None\<rparr>] [\<lparr>Type = CKA_VALUE, Value = Some [48, 0]\<rparr>]"
    by (elim exE conjE) (rule that)
  have "slot = 1" using slot by (simp add: parse_make)
  with l obtain v where v: "sv_attribute (example_services ok_server) v = [48, 0]"
      "attribute_origin (example_services ok_server) (signers ! 1)
         (fst (parseObjectHandle (makeCertificateHandle 1))) CKA_VALUE v (exchanges t)"
    unfolding list.rel_inject newAttribute_def by auto
  from v(2) have "v = VBytes [] \<or> (\<exists>der. v = VBytes der \<and>
      gotCertificate (example_services ok_server) (exchanges t) (ID (signers ! 1)) der)"
    by (auto simp: attribute_origin_fetched)
  with v(1) have "gotCertificate (example_services ok_server) (exchanges t) (ID (signers ! 1)) [48, 0]"
    by (elim disjE exE conjE) (simp_all add: example_services_def attribute_bytes_def)
  with t g show ?thesis by (intro exI conjI)
qed

end
