(* ===== verification/Interleaving.thy ===== *)
theory Interleaving
  imports Signing_Contract
begin

text \<open>
  Calls of an application that works on several sessions: a call that works on its session
  alone can be moved before or after any call on another session, also one that talks to
  the server.
\<close>

section \<open>Computations that do not see a session\<close>

text \<open>
  A computation ignores a session when it does the same, and leaves the change in place,
  whatever was changed in that session before.
\<close>

definition ignores :: "uint \<Rightarrow> ('w, 'a) call \<Rightarrow> bool" where
  "ignores h f \<longleftrightarrow> (\<forall>s g. f (s\<lparr>manager := sm_update (manager s) h g\<rparr>) =
     (case f s of Panics \<Rightarrow> Panics
      | Returns (r, t) \<Rightarrow> Returns (r, t\<lparr>manager := sm_update (manager t) h g\<rparr>)))"

named_theorems ignoring "computations that do not see a session"

lemma ignoresD:
  "ignores h f \<Longrightarrow> f (s\<lparr>manager := sm_update (manager s) h g\<rparr>) =
     (case f s of Panics \<Rightarrow> Panics
      | Returns (r, t) \<Rightarrow> Returns (r, t\<lparr>manager := sm_update (manager t) h g\<rparr>))"
  by (simp add: ignores_def)

lemma ignores_blind:
  assumes "blind f"
  shows "ignores h f"
  unfolding ignores_def
proof (intro allI)
  fix s g
  have keep: "manager t = manager s" if "f s = Returns (r, t)" for r t
    using blindD [OF assms, where s = s and m = "manager s"] that by (cases t) simp
  then show "f (s\<lparr>manager := sm_update (manager s) h g\<rparr>) = (case f s of Panics \<Rightarrow> Panics
      | Returns (r, t) \<Rightarrow> Returns (r, t\<lparr>manager := sm_update (manager t) h g\<rparr>))"
    by (auto simp: blindD [OF assms] split: outcome.splits)
qed

lemma sm_update_commute:
  "h \<noteq> k \<Longrightarrow> sm_update (sm_update m h f) k g = sm_update (sm_update m k g) h f"
  by (auto simp: sm_update_def map_at_def fun_eq_iff split: option.splits)

lemma ignores_basic [ignoring]:
  "ignores h (returnE x)" "ignores h (throwE e)" "ignores h panicE" "ignores h (liftR r)"
  "h \<noteq> k \<Longrightarrow> ignores h (getSession k)" "h \<noteq> k \<Longrightarrow> ignores h (updateSession k g)"
  "h \<noteq> k \<Longrightarrow> ignores h (getE (\<lambda>st. sm_get (manager st) k))"
  by (auto simp: ignores_def getSession_run updateSession_def sm_get_update go_defs
      sm_update_commute split: option.splits)

lemma ignores_get [ignoring]: "(\<And>s m. f (s\<lparr>manager := m\<rparr>) = f s) \<Longrightarrow> ignores h (getE f)"
  by (simp add: ignores_def)

lemma ignores_catch [ignoring]:
  "ignores h f \<Longrightarrow> (\<And>r. ignores h (g r)) \<Longrightarrow> ignores h (catchE f g)"
  by (simp add: ignores_def catchE_def split: outcome.splits prod.splits)

lemma ignores_bind [ignoring]:
  "ignores h f \<Longrightarrow> (\<And>x. ignores h (g x)) \<Longrightarrow> ignores h (bindE f g)"
  unfolding bindE_def by (intro ignores_catch) (auto intro: ignores_basic split: sum.splits)

lemma ignores_cases [ignoring]:
  "ignores h f \<Longrightarrow> ignores h g \<Longrightarrow> ignores h (if b then f else g)"
  "ignores h f \<Longrightarrow> (\<And>x. ignores h (p x)) \<Longrightarrow> ignores h (case_option f p v)"
  "(\<And>x. ignores h (k x)) \<Longrightarrow> (\<And>x. ignores h (p x)) \<Longrightarrow> ignores h (case_sum k p w)"
  "(\<And>x y. ignores h (q x y)) \<Longrightarrow> ignores h (case_prod q z)"
  "(\<And>x. ignores h (l x)) \<Longrightarrow> ignores h (let x = u in l x)"
  by (auto split: option.splits sum.splits prod.splits)

section \<open>Fetching does not see the sessions\<close>

lemma blind_more [blinds]:
  "blind (modifyE (\<lambda>st. st\<lparr>cert_cache := setCert (cert_cache st) a b c\<rparr>))"
  "blind (modifyE (\<lambda>st. st\<lparr>cert_cache := setPubKey (cert_cache st) a d c\<rparr>))" "blind panicE"
  "blind (liftO r)"
  by (auto simp: blind_def go_defs liftO_def split: outcome.splits)

lemma blind_fetch [blinds]:
  "blind (getToken sv)" "(\<And>token. blind (fn token)) \<Longrightarrow> blind (withRetryOnAuth sv fn)"
  "blind (getSigners sv)" "blind (getSignerBySlot sv j)" "blind (getSignerBySignerID sv i)"
  unfolding getToken_def withRetryOnAuth_def retry_after_def getSigners_def getSignerBySlot_def
    getSignerBySignerID_def
  by (intro blinds; simp)+

lemma blind_keys [blinds]:
  "blind (getCertificateData sv i)" "blind (getCertificate sv i)" "blind (getPublicKeyData sv i)"
  "blind (getECPublicKeyData sv i)"
  unfolding getCertificateData_def fetchCertificate_def getCertificate_def getPublicKeyData_def
    getECPublicKeyData_def
  by (intro blinds; simp)+

lemma blind_attributes [blinds]:
  "blind (attributeValue sv sg o' ty)" "blind (matchesIDLabel sv f i)" "blind (matchesSubject sv f i)"
  unfolding attributeValue_def rsaAttr_def ecAttr_def certAttr_def matchesIDLabel_def matchesSubject_def
  by (intro blinds)+

lemma blind_attributeLoop [blinds]: "blind (attributeLoop sv sg o' template)"
  by (induction template) (unfold attributeLoop.simps, (intro blinds | assumption)+)

lemmas ignores_fetch [ignoring] = blind_fetch(4) [THEN ignores_blind]
  blind_attributes [THEN ignores_blind] blind_attributeLoop [THEN ignores_blind]
  blind_signInternal [THEN ignores_blind]

lemma ignores_operations [ignoring]:
  assumes "h \<noteq> k"
  shows "ignores h (FindObjectsInit sv k template)" "ignores h (FindObjects k n)"
    "ignores h (FindObjectsFinal k)" "ignores h (GetAttributeValue sv k obj template)"
    "ignores h (GetSessionInfo k)" "ignores h (SignInit k mechs key)" "ignores h (SignUpdate k d)"
    "ignores h (finishSign sv k data)" "ignores h (EstimateSignatureSize sv k)"
    "ignores h (clearSignStateByHandle k)" "ignores h (cacheSignResult k sig)"
  unfolding FindObjectsInit_def setEmptyFindResult_def setFindResult_def FindObjects_def
    FindObjectsFinal_def GetAttributeValue_def GetSessionInfo_def SignInit_def SignUpdate_def
    finishSign_def EstimateSignatureSize_def clearSignStateByHandle_def clearSignState_def
    cacheSignResult_def Let_def
  by (intro ignoring assms)+

lemma ignores_frame [ignoring]:
  "ignores h body \<Longrightarrow> ignores h (guarded mem body)"
  "ignores h f \<Longrightarrow> (\<And>x. ignores h (p x)) \<Longrightarrow> ignores h (orElse f mem p)"
  "ignores h c \<Longrightarrow> ignores h (withMemory w c)" "ignores h (liftOut out)"
  unfolding guarded_def checkInitialized_def orElse_def withMemory_def liftOut_def
  by (intro ignoring; simp)+ (auto intro!: ignoring split: outcome.splits)

lemma ignores_exec: "own_session d = Some k \<Longrightarrow> h \<noteq> k \<Longrightarrow> ignores h (exec sv d)"
  by (cases d; simp; unfold api_defs Sign_def SignFinal_def; intro ignoring; assumption)

section \<open>Logging in does not see the sessions of other slots\<close>

text \<open>
  The same in one state and for one change of the session, and the condition on them that a
  login on the slot asks for: before and after the change the session is on another slot.
\<close>

definition ignores_at :: "uint \<Rightarrow> (session \<Rightarrow> session) \<Rightarrow> 'w backend \<Rightarrow> ('w, 'a) call \<Rightarrow> bool" where
  "ignores_at h g s f \<longleftrightarrow> f (s\<lparr>manager := sm_update (manager s) h g\<rparr>) =
     (case f s of Panics \<Rightarrow> Panics
      | Returns (r, t) \<Rightarrow> Returns (r, t\<lparr>manager := sm_update (manager t) h g\<rparr>))"

definition off_slot :: "uint \<Rightarrow> uint \<Rightarrow> (session \<Rightarrow> session) \<Rightarrow> sessionManager \<Rightarrow> bool" where
  "off_slot slot h g m \<longleftrightarrow>
     (\<forall>x. sm_get m h = Some x \<longrightarrow> slotID x \<noteq> slot \<and> slotID (g x) \<noteq> slot)"

lemma blind_manager:
  assumes "blind f" "f s = Returns (r, t)"
  shows "manager t = manager s"
  using blindD [OF assms(1), where s = s and m = "manager s"] assms(2) by (cases t) simp

lemma at_ignores: "ignores h f \<Longrightarrow> ignores_at h g s f"
  by (simp add: ignores_at_def ignores_def)

lemma at_catch: "ignores_at h g s f \<Longrightarrow> (\<And>r. ignores h (k r)) \<Longrightarrow> ignores_at h g s (catchE f k)"
  by (simp add: ignores_at_def catchE_def ignoresD split: outcome.splits prod.splits)

lemma at_bind:
  assumes "blind f" "\<And>x t. manager t = manager s \<Longrightarrow> ignores_at h g t (k x)"
  shows "ignores_at h g s (bindE f k)"
proof (cases "f s")
  case Panics
  then show ?thesis
    by (simp add: ignores_at_def bindE_def catchE_def ignoresD [OF ignores_blind [OF assms(1)]])
next
  case (Returns rt)
  then obtain r t where run: "f s = Returns (r, t)" by (cases rt) auto
  note m = blind_manager [OF assms(1) run]
  have upd: "f (s\<lparr>manager := sm_update (manager s) h g\<rparr>) = Returns (r, t\<lparr>manager := sm_update (manager t) h g\<rparr>)"
    by (simp add: ignoresD [OF ignores_blind [OF assms(1)]] run)
  show ?thesis
  proof (cases r)
    case (Inl e)
    then show ?thesis by (simp add: ignores_at_def bindE_def catchE_def run upd [unfolded m] m)
  next
    case (Inr x)
    then show ?thesis
      using assms(2) [OF m, where x = x] by (simp add: ignores_at_def bindE_Inr run upd)
  qed
qed

lemma at_getSession:
  "h \<noteq> k \<Longrightarrow> (\<And>x. sm_get (manager s) k = Some x \<Longrightarrow> ignores_at h g s (p x)) \<Longrightarrow>
   ignores_at h g s (bindE (getSession k) p)"
  by (simp add: ignores_at_def bind_getSession sm_get_update split: option.splits)

lemma at_cases:
  "(b \<Longrightarrow> ignores_at h g s f) \<Longrightarrow> (\<not> b \<Longrightarrow> ignores_at h g s f') \<Longrightarrow> ignores_at h g s (if b then f else f')"
  "ignores_at h g s f \<Longrightarrow> (\<And>x. ignores_at h g s (p x)) \<Longrightarrow> ignores_at h g s (case_option f p v)"
  "(\<And>x y. ignores_at h g s (q x y)) \<Longrightarrow> ignores_at h g s (case_prod q z)"
  by (auto split: option.splits prod.splits)

lemma off_setAll:
  "off_slot slot h g m \<Longrightarrow>
   setAllLoggedInForSlot (sm_update m h g) slot b = sm_update (setAllLoggedInForSlot m slot b) h g"
  by (auto simp: off_slot_def sm_defs map_at_def fun_eq_iff split: option.splits)

lemma at_setAll:
  "off_slot slot h g (manager s) \<Longrightarrow>
   ignores_at h g s (updateManager (\<lambda>m. setAllLoggedInForSlot m slot b))"
  by (simp add: ignores_at_def off_setAll)

lemma at_loginSlot:
  assumes "off_slot slot h g (manager s)" "h \<noteq> k"
  shows "ignores_at h g s (loginSlot k slot)"
proof -
  have "off_slot slot h g (setLoggedIn (manager s) k True)"
    using assms by (simp add: off_slot_def setLoggedIn_def sm_get_update)
  from off_setAll [OF this] show ?thesis
    using assms(2) by (simp add: ignores_at_def loginSlot_run setLoggedIn_def sm_update_commute)
qed

lemma blind_login:
  "blind (authenticate sv i p)" "blind (setConfigToken p)" "blind (accessToken sv)"
  by (intro blinds) (simp add: setConfigToken_def blind_def go_defs, intro blinds)

lemma at_Login:
  assumes "h \<noteq> k" "\<And>x. sm_get (manager s) k = Some x \<Longrightarrow> off_slot (slotID x) h g (manager s)"
  shows "ignores_at h g s (Login sv k u pin)"
  unfolding Login_def
  by (intro at_getSession at_cases at_bind at_loginSlot assms blind_login blinds at_ignores
     [OF ignores_basic(2)] | simp add: assms)+

lemma at_Logout:
  assumes "h \<noteq> k" "\<And>x. sm_get (manager s) k = Some x \<Longrightarrow> off_slot (slotID x) h g (manager s)"
  shows "ignores_at h g s (Logout k)"
  unfolding Logout_def by (intro at_getSession at_setAll assms)

lemma ignores_CloseSession: "h \<noteq> k \<Longrightarrow> ignores h (CloseSession k)"
  by (auto simp: ignores_def CloseSession_def bindE_Inr go_defs sm_defs map_at_def fun_eq_iff split: option.splits)


lemma at_frame: "ignores_at h g s f \<Longrightarrow> ignores_at h g s (withMemory w (simply f))"
  by (simp add: ignores_at_def withMemory_run simply_run split: outcome.splits sum.splits prod.splits)

lemma at_exec:
  assumes "session_of d = Some k" "h \<noteq> k"
    "login_flag d = None \<or> (\<forall>y. sm_get (manager s) k = Some y \<longrightarrow> off_slot (slotID y) h g (manager s))"
  shows "ignores_at h g s (exec sv d)"
proof -
  from assms(1) show ?thesis
  proof (cases rule: session_calls)
    case own
    from ignores_exec [OF this assms(2)] show ?thesis by (rule at_ignores)
  next
    case close
    then show ?thesis
      unfolding close exec.simps C_CloseSession_def
      by (intro at_frame at_ignores ignores_CloseSession assms(2))
  next
    case login
    with assms(3) show ?thesis
      unfolding login exec.simps C_Login_def
      by (intro at_frame at_bind at_Login) (auto simp: assms(2) liftOut_def split: outcome.splits intro: blinds)
  next
    case logout
    with assms(3) show ?thesis
      unfolding logout exec.simps C_Logout_def by (intro at_frame at_Logout) (auto simp: assms(2))
  qed
qed

lemma keeps_elsewhere:
  assumes "exec sv d s = Returns (q, t)" "session_of d = Some k" "h \<noteq> k"
    "login_flag d = None \<or> (\<forall>x y. sm_get (manager s) h = Some x \<and> sm_get (manager s) k = Some y
      \<longrightarrow> slotID x \<noteq> slotID y)"
  shows "initialized t = initialized s \<and> sm_get (manager t) h = sm_get (manager s) h"
proof -
  from assms(2) show ?thesis
  proof (cases rule: session_calls)
    case own
    from keepsD [OF touches_exec [OF own] assms(1)] assms(3) show ?thesis by (simp add: touches_def)
  next
    case close
    from runs_CloseSessionCall [OF assms(1) [unfolded close]] assms(3) show ?thesis
      by (auto simp: sm_close_def sm_get_def split: option.splits)
  next
    case login
    from runs_LoginCall [OF assms(1) [unfolded login]] show ?thesis
      using slot_login_at(1) [of k True s t h] assms(4) login by (auto simp: config_frame_def)
  next
    case logout
    from runs_LogoutCall [OF assms(1) [unfolded logout]] show ?thesis
      using slot_login_at(1) [of k False s t h] assms(4) logout by auto
  qed
qed

section \<open>Computations on one session\<close>

text \<open>
  A computation is local to a session when all it does is determined by that session and by
  whether the module is initialized, and all it changes is that session.
\<close>

definition local_to :: "uint \<Rightarrow> ('w, 'a) call \<Rightarrow> bool" where
  "local_to h f \<longleftrightarrow> (\<exists>F. \<forall>s. f s = (case F (initialized s) (sm_get (manager s) h) of
       Panics \<Rightarrow> Panics
     | Returns (r, g) \<Rightarrow> Returns (r, s\<lparr>manager := sm_update (manager s) h g\<rparr>)))"

named_theorems locals "computations that are local to a session"

lemma local_toI:
  "(\<And>s. f s = (case F (initialized s) (sm_get (manager s) h) of Panics \<Rightarrow> Panics
     | Returns (r, g) \<Rightarrow> Returns (r, s\<lparr>manager := sm_update (manager s) h g\<rparr>))) \<Longrightarrow> local_to h f"
  unfolding local_to_def by blast

lemma sm_update_id [simp]: "sm_update m h (\<lambda>x. x) = m"
  by (simp add: sm_update_def)

lemma local_basic [locals]:
  "local_to h (returnE x)" "local_to h (throwE e)" "local_to h panicE" "local_to h (liftR r)"
  "local_to h (updateSession h g)" "local_to h checkInitialized"
proof -
  show "local_to h (returnE x)" by (rule local_toI [where F = "\<lambda>i y. Returns (Inr x, \<lambda>x. x)"]) simp
  show "local_to h (throwE e)" by (rule local_toI [where F = "\<lambda>i y. Returns (Inl e, \<lambda>x. x)"]) simp
  show "local_to h panicE" by (rule local_toI [where F = "\<lambda>i y. Panics"]) simp
  show "local_to h (liftR r)" by (rule local_toI [where F = "\<lambda>i y. Returns (r, \<lambda>x. x)"]) simp
  show "local_to h (updateSession h g)"
    by (rule local_toI [where F = "\<lambda>i y. Returns (Inr (), g)"]) (simp add: updateSession_def)
  show "local_to h checkInitialized"
    by (rule local_toI [where F = "\<lambda>i y. Returns (Inr (if \<not> i then CKR_CRYPTOKI_NOT_INITIALIZED else CKR_OK), \<lambda>x. x)"])
       (simp add: checkInitialized_def)
qed

lemma local_getSession [locals]: "local_to h (getSession h)"
  by (rule local_toI [where F = "\<lambda>i y. Returns (case y of None \<Rightarrow> Inl ErrSessionHandleInvalid | Some x \<Rightarrow> Inr x, \<lambda>x. x)"])
     (simp add: getSession_run split: option.splits)

lemma local_catch [locals]:
  assumes "local_to h f" "\<And>r. local_to h (k r)"
  shows "local_to h (catchE f k)"
proof -
  obtain F where F: "f s = (case F (initialized s) (sm_get (manager s) h) of Panics \<Rightarrow> Panics
      | Returns (r, g) \<Rightarrow> Returns (r, s\<lparr>manager := sm_update (manager s) h g\<rparr>))" for s
    using assms(1) unfolding local_to_def by blast
  obtain G where G: "k r s = (case G r (initialized s) (sm_get (manager s) h) of Panics \<Rightarrow> Panics
      | Returns (q, g) \<Rightarrow> Returns (q, s\<lparr>manager := sm_update (manager s) h g\<rparr>))" for r s
    using assms(2) unfolding local_to_def by metis
  show ?thesis
  proof (rule local_toI)
    show "catchE f k s = (case (\<lambda>i y. case F i y of Panics \<Rightarrow> Panics | Returns (r, g) \<Rightarrow>
          (case G r i (map_option g y) of Panics \<Rightarrow> Panics | Returns (q, g') \<Rightarrow> Returns (q, \<lambda>x. g' (g x))))
        (initialized s) (sm_get (manager s) h) of Panics \<Rightarrow> Panics
      | Returns (r, g) \<Rightarrow> Returns (r, s\<lparr>manager := sm_update (manager s) h g\<rparr>))" for s
      by (simp add: catchE_def F G sm_get_update sm_update_twice split: outcome.splits prod.splits)
  qed
qed

lemma local_bind [locals]:
  "local_to h f \<Longrightarrow> (\<And>x. local_to h (g x)) \<Longrightarrow> local_to h (bindE f g)"
  unfolding bindE_def by (intro local_catch) (auto intro: local_basic split: sum.splits)

lemma local_cases [locals]:
  "local_to h f \<Longrightarrow> local_to h g \<Longrightarrow> local_to h (if b then f else g)"
  "local_to h f \<Longrightarrow> (\<And>x. local_to h (p x)) \<Longrightarrow> local_to h (case_option f p v)"
  "(\<And>x. local_to h (k x)) \<Longrightarrow> (\<And>x. local_to h (p x)) \<Longrightarrow> local_to h (case_sum k p w)"
  "(\<And>x y. local_to h (q x y)) \<Longrightarrow> local_to h (case_prod q z)"
  "(\<And>x. local_to h (l x)) \<Longrightarrow> local_to h (let x = u in l x)"
  by (auto split: option.splits sum.splits prod.splits)

text \<open>The calls that work on their session alone, and the session.\<close>

fun works_on :: "api_call \<Rightarrow> uint option" where
  "works_on (FindObjectsCall h p k n) = Some h"
| "works_on (FindObjectsFinalCall h) = Some h"
| "works_on (GetSessionInfoCall h p) = Some h"
| "works_on (SignInitCall h m k) = Some h"
| "works_on (SignUpdateCall h p n) = Some h"
| "works_on _ = None"

lemma local_frame [locals]:
  "local_to h body \<Longrightarrow> local_to h (guarded mem body)"
  "local_to h f \<Longrightarrow> (\<And>x. local_to h (p x)) \<Longrightarrow> local_to h (orElse f mem p)"
  "local_to h c \<Longrightarrow> local_to h (withMemory w c)" "local_to h (liftOut out)"
  unfolding guarded_def orElse_def withMemory_def liftOut_def
  by (intro locals)+ (auto intro!: locals split: outcome.splits)

lemma local_exec: "works_on c = Some h \<Longrightarrow> local_to h (exec sv c)"
  by (cases c; simp; unfold api_defs FindObjects_def FindObjectsFinal_def GetSessionInfo_def
      SignInit_def SignUpdate_def; intro locals)

section \<open>Order does not matter\<close>

text \<open>Two calls one after the other, with both results.\<close>

definition both :: "('s, 'a) go \<Rightarrow> ('s, 'b) go \<Rightarrow> ('s, 'a result \<times> 'b result) go" where
  "both f g = catchE f (\<lambda>r. catchE g (\<lambda>q. returnE (r, q)))"

lemma local_commutes:
  assumes "local_to h f" "ignores h g" "keeps (touches k) g" "h \<noteq> k"
  shows "both f g s = bindE (both g f) (\<lambda>(q, r). returnE (r, q)) s"
proof -
  obtain F where F: "f s = (case F (initialized s) (sm_get (manager s) h) of Panics \<Rightarrow> Panics
      | Returns (r, u) \<Rightarrow> Returns (r, s\<lparr>manager := sm_update (manager s) h u\<rparr>))" for s
    using assms(1) unfolding local_to_def by blast
  have kept: "initialized t = initialized s \<and> sm_get (manager t) h = sm_get (manager s) h"
    if "g s = Returns (q, t)" for q t
    using keepsD [OF assms(3) that] assms(4) by (simp add: touches_def)
  show ?thesis
    by (cases "g s") (auto simp: both_def catchE_def bindE_def F ignoresD [OF assms(2)] kept
        split: outcome.splits prod.splits)
qed

lemma works_on_own: "works_on c = Some h \<Longrightarrow> own_session c = Some h"
  by (cases c) auto

text \<open>
  C16: calls on different sessions do not disturb each other: a call that works on its session
  alone (the start or a part of a signature, the results or the end of a search, the
  information on a session) gives the same result, and leads to the same state, before and
  after any call on another session, also one that signs, fetches from the server or closes
  that session. A login or logout on the other session is included when the two sessions are
  on different slots; on the same slot it changes the login of both, and the order matters.
\<close>

theorem different_sessions_commute:
  assumes "works_on c = Some h" "session_of d = Some k" "h \<noteq> k"
    "login_flag d = None \<or> (\<forall>x y. sm_get (manager s) h = Some x \<and> sm_get (manager s) k = Some y
      \<longrightarrow> slotID x \<noteq> slotID y)"
  shows "both (exec sv c) (exec sv d) s
    = bindE (both (exec sv d) (exec sv c)) (\<lambda>(q, r). returnE (r, q)) s"
proof -
  obtain F where F: "exec sv c s = (case F (initialized s) (sm_get (manager s) h) of Panics \<Rightarrow> Panics
      | Returns (r, u) \<Rightarrow> Returns (r, s\<lparr>manager := sm_update (manager s) h u\<rparr>))" for s
    using local_exec [OF assms(1)] unfolding local_to_def by blast
  have at: "ignores_at h u s (exec sv d)"
    if "F (initialized s) (sm_get (manager s) h) = Returns (r, u)" for r u
  proof -
    have "exec sv c s = Returns (r, s\<lparr>manager := sm_update (manager s) h u\<rparr>)" by (simp add: F that)
    from keepsD [OF touches_exec [OF works_on_own [OF assms(1)]] this]
    have "map_option slotID (map_option u (sm_get (manager s) h)) = map_option slotID (sm_get (manager s) h)"
      by (simp add: touches_def sm_get_update)
    then show ?thesis
      by (intro at_exec [where k = k] assms(2,3)) (use assms(4) in \<open>auto simp: off_slot_def\<close>)
  qed
  show ?thesis
    by (cases "exec sv d s") (auto simp: both_def catchE_def bindE_def F at [unfolded ignores_at_def]
        dest: keeps_elsewhere [OF _ assms(2,3,4)]
        split: outcome.splits prod.splits)
qed

theorem different_sessions_commute_witness:
  "both (exec (traced (example_services ok_server)) (SignUpdateCall 2 (Some [7]) 1))
      (exec (traced (example_services ok_server)) (SignCall 1 (Some (replicate 32 1)) 32 (Some [0]) (Some 1)))
      (signing_state CKM_ECDSA)
    = bindE (both
        (exec (traced (example_services ok_server)) (SignCall 1 (Some (replicate 32 1)) 32 (Some [0]) (Some 1)))
        (exec (traced (example_services ok_server)) (SignUpdateCall 2 (Some [7]) 1)))
      (\<lambda>(q, r). returnE (r, q)) (signing_state CKM_ECDSA)"
  by (rule different_sessions_commute [where h = 2 and k = 1]) simp_all

end
