(* ===== verification/Signing_Runs.thy ===== *)
theory Signing_Runs
  imports Signing_Contract
begin

text \<open>
  Whole runs of the signing functions on a session: they are runs of the abstract machine as
  long as the application, after it was told that its buffer is too small, comes back with
  a buffer of the size it was told.
\<close>

section \<open>Runs\<close>

type_synonym sign_event = "sign_op \<times> ck_rv \<times> signature_out"

fun sign_run :: "'w services \<Rightarrow> uint \<Rightarrow> sign_op list \<Rightarrow> ('w, sign_event list) call" where
  "sign_run sv h [] = returnE []"
| "sign_run sv h (op' # ops) =
     bindE (sign_call sv h op') (\<lambda>(rv, out).
     bindE (sign_run sv h ops) (\<lambda>es. returnE ((op', rv, out) # es)))"

fun spec_run ::
  "(uint \<Rightarrow> uint \<Rightarrow> bytes \<Rightarrow> bytes \<Rightarrow> bool) \<Rightarrow> bool \<Rightarrow> sign_event list \<Rightarrow> signing \<Rightarrow> signing \<Rightarrow> bool" where
  "spec_run answers logged [] st st' \<longleftrightarrow> st' = st"
| "spec_run answers logged ((op', rv, out) # es) st st' \<longleftrightarrow>
     (\<exists>u. sign_spec answers logged op' st rv (handed op' rv out) u \<and> spec_run answers logged es u st')"

text \<open>
  The application keeps to the lengths it is told: \<open>need\<close> is the length last reported with
  \<^const>\<open>CKR_BUFFER_TOO_SMALL\<close>, or 0.
\<close>

definition reported_length :: "ck_rv \<Rightarrow> signature_out \<Rightarrow> nat" where
  "reported_length rv out =
     (if rv = CKR_BUFFER_TOO_SMALL then (case snd out of None \<Rightarrow> 0 | Some n \<Rightarrow> unat n) else 0)"

fun patient :: "nat \<Rightarrow> sign_event list \<Rightarrow> bool" where
  "patient need [] \<longleftrightarrow> True"
| "patient need ((OpFinish e n, rv, out) # es) \<longleftrightarrow> need \<le> n \<and> patient (reported_length rv out) es"
| "patient need (x # es) \<longleftrightarrow> patient need es"

section \<open>Every run is a run of the machine\<close>

text \<open>What the session keeps is not longer than what was reported.\<close>

definition needs :: "signing \<Rightarrow> nat" where
  "needs st = (case st of Produced sig \<Rightarrow> length sig | _ \<Rightarrow> 0)"

lemma spec_needs:
  assumes "sign_spec answers logged op' st rv out st'" "\<And>e n. op' \<noteq> OpFinish e n"
  shows "needs st' \<le> needs st"
  using assms by (cases rule: sign_spec.cases) (auto simp: needs_def)

lemma sign_call_initialized:
  assumes "sign_call sv h op' s = Returns (r, t)"
  shows "initialized t = initialized s"
proof -
  have "keeps (touches h) (sign_call sv h op')"
    by (cases "(sv, h, op')" rule: sign_call.cases; simp; unfold C_SignInit_def C_SignUpdate_def C_Sign_def
        C_SignFinal_def querySize_def handSignature_def; intro preserves)
  from keepsD [OF this assms] show ?thesis by (simp add: touches_def)
qed

text \<open>Go slices are shorter than 2^63; here it is enough that lengths fit 64 bits.\<close>

definition signatures_bounded :: "'w services \<Rightarrow> bool" where
  "signatures_bounded sv \<longleftrightarrow>
     (\<forall>resp text sig. sv_decode_signature sv resp = Inr text \<longrightarrow> b64_decode text = Some sig \<longrightarrow>
        length sig < 2 ^ 64)"

lemma finish_call_run:
  assumes "sign_call sv h (OpFinish e n) s = Returns (Inr (rv, out), t)" "initialized s"
    "op_fits (OpFinish e n)"
  shows "\<exists>data. orElse (finishSign sv h data) (Some (replicate n 0), Some (of_nat n))
      (\<lambda>sig. handSignature h (replicate n 0) (of_nat n) sig) s = Returns (Inr (rv, out), t)"
  using assms by (cases e) (auto simp: C_Sign_run C_SignFinal_run Sign_def SignFinal_def op_fits_def)

text \<open>The length reported is that of the signature that is kept.\<close>

lemma finish_reports:
  assumes "sign_call sv h (OpFinish e n) s = Returns (Inr (rv, out), t)" "initialized s"
    "op_fits (OpFinish e n)" "signatures_bounded sv" "sm_get (manager s) h = Some x"
    "needs (signing_of x) \<le> n" "sm_get (manager t) h = Some y"
  shows "needs (signing_of y) \<le> reported_length rv out"
proof -
  have n: "unat (of_nat n :: uint) = n" using assms(3) by (simp add: op_fits_def unat_of_nat_u64)
  obtain data where "orElse (finishSign sv h data) (Some (replicate n 0), Some (of_nat n))
      (\<lambda>sig. handSignature h (replicate n 0) (of_nat n) sig) s = Returns (Inr (rv, out), t)"
    using finish_call_run [OF assms(1-3)] by blast
  then show ?thesis
  proof (cases rule: orElse_finish_cases)
    case (failed e)
    from failed(1) have "signing_of y = Idle"
    proof (cases rule: finishSign_cases)
      case (inactive e')
      with assms(7) show ?thesis by (simp add: signing_of_def)
    next
      case (failed x' e' u)
      with assms(7) show ?thesis by (auto simp: sm_get_update)
    qed simp_all
    then show ?thesis by (simp add: needs_def)
  next
    case (kept sig u)
    from kept(1) show ?thesis
    proof (cases rule: finishSign_cases)
      case (again x' sig')
      with kept(3) n assms(5,6) show ?thesis by (simp add: needs_def signing_of_def)
    next
      case (signed x' sig')
      then have "length sig < 2 ^ 64"
        using signature_decoded assms(4) unfolding signatures_bounded_def by blast
      moreover have "cachedSignature y = Some sig"
        using kept(5) assms(7) by (auto simp: sm_get_update)
      ultimately show ?thesis
        using kept(2,4) by (auto simp: needs_def signing_of_def reported_length_def unat_of_nat_u64)
    qed simp_all
  next
    case (handed sig u)
    then have "signing_of y = Idle" using assms(7) by (auto simp: sm_get_update)
    then show ?thesis by (simp add: needs_def)
  qed
qed

lemma run_refines:
  assumes "sign_run sv h ops s = Returns (Inr es, t)" "initialized s"
    "sm_get (manager s) h = Some x" "fresh x" "\<forall>op' \<in> set ops. op_fits op'" "signatures_bounded sv"
    "patient need es" "needs (signing_of x) \<le> need"
  shows "\<exists>y. sm_get (manager t) h = Some y
    \<and> spec_run (backend_answers sv) (loggedIn x) es (signing_of x) (signing_of y)"
  using assms
proof (induction ops arbitrary: s es x need)
  case (Cons op' ops)
  from Cons.prems(1) obtain rv out s1 es1 where
    call: "sign_call sv h op' s = Returns (Inr (rv, out), s1)" and
    rest: "sign_run sv h ops s1 = Returns (Inr es1, t)" and es: "es = (op', rv, out) # es1"
    by (auto elim!: bindE_InrE split: prod.splits)
  have room: "length sig \<le> n" if "op' = OpFinish e n" "signing_of x = Produced sig" for e n sig
    using that Cons.prems(7,8) by (simp add: es needs_def)
  have "refines sv h op' x rv out s1"
    by (rule sign_call_refines [OF call Cons.prems(2-4)]) (use Cons.prems(5) room in auto)
  then obtain y where y: "sm_get (manager s1) h = Some y" "fresh y" "loggedIn y = loggedIn x"
    and spec: "sign_spec (backend_answers sv) (loggedIn x) op' (signing_of x) rv (handed op' rv out)
      (signing_of y)"
    unfolding refines_def by blast
  obtain need' where need': "patient need' es1" "needs (signing_of y) \<le> need'"
  proof (cases "\<exists>e n. op' = OpFinish e n")
    case True
    then obtain e n where op: "op' = OpFinish e n" by blast
    have "needs (signing_of y) \<le> reported_length rv out"
      using finish_reports [OF call [unfolded op] Cons.prems(2) _ Cons.prems(6,3) _ y(1)]
        Cons.prems(5,7,8) by (simp add: op es)
    with that [of "reported_length rv out"] Cons.prems(7) show thesis by (simp add: op es)
  next
    case False
    then have "patient need es1" using Cons.prems(7) by (cases op') (auto simp: es)
    with that spec_needs [OF spec] False Cons.prems(8) show thesis using le_trans by blast
  qed
  have "initialized s1" using sign_call_initialized [OF call] Cons.prems(2) by simp
  from Cons.IH [OF rest this y(1,2) _ Cons.prems(6) need'] Cons.prems(5) y(3) spec show ?case
    by (auto simp: es)
qed simp

text \<open>In a run of the machine an operation that was started hands out one signature at most.\<close>

definition starts :: "sign_event list \<Rightarrow> nat" where
  "starts es = length (filter (\<lambda>(op', rv, out). (\<exists>m k. op' = OpInit m k) \<and> rv = CKR_OK) es)"

definition handouts :: "sign_event list \<Rightarrow> nat" where
  "handouts es = length (filter (\<lambda>(op', rv, out). handed op' rv out \<noteq> None) es)"

definition pending :: "signing \<Rightarrow> nat" where
  "pending st = (if st = Idle then 0 else 1)"

lemma spec_step_counts:
  assumes "sign_spec answers logged op' st rv out st'"
  shows "(if out \<noteq> None then 1 else 0) + pending st'
    \<le> (if (\<exists>m k. op' = OpInit m k) \<and> rv = CKR_OK then 1 else 0) + pending st"
  using assms by (cases rule: sign_spec.cases) (auto simp: pending_def const_vals)

lemma counts_Cons:
  "starts ((op', rv, out) # es)
    = (if (\<exists>m k. op' = OpInit m k) \<and> rv = CKR_OK then 1 else 0) + starts es"
  "handouts ((op', rv, out) # es) = (if handed op' rv out \<noteq> None then 1 else 0) + handouts es"
  by (simp_all add: starts_def handouts_def)

lemma spec_run_counts:
  "spec_run answers logged es st st' \<Longrightarrow> handouts es + pending st' \<le> starts es + pending st"
proof (induction es arbitrary: st)
  case (Cons e es)
  obtain op' rv out where e: "e = (op', rv, out)" by (cases e)
  with Cons.prems obtain u where "sign_spec answers logged op' st rv (handed op' rv out) u"
    and rest: "spec_run answers logged es u st'" by auto
  from spec_step_counts [OF this(1)] Cons.IH [OF rest] show ?case
    unfolding e counts_Cons by linarith
qed (simp add: handouts_def starts_def)

section \<open>An example\<close>

definition run_services :: "(nat \<times> exchange list) services" where
  "run_services = (traced (example_services ok_server))\<lparr>sv_decode_signature := \<lambda>r. Inr ''AQID''\<rparr>"

definition run_session :: session where
  "run_session = (new_session 1)\<lparr>loggedIn := True\<rparr>"

definition run_state :: "(nat \<times> exchange list) backend" where
  "run_state = (signing_state CKM_ECDSA)\<lparr>manager := \<lparr>sessions = [1 \<mapsto> run_session], nextID = 2\<rparr>\<rparr>"

lemma run_services: "signatures_bounded run_services"
  by (simp add: signatures_bounded_def run_services_def b64_AQID)

lemma run_state: "initialized run_state" "sm_get (manager run_state) 1 = Some run_session"
  "loggedIn run_session" "\<not> signActive run_session" "cachedSignature run_session = None"
  by (simp_all add: run_state_def sm_get_def run_session_def new_session_def)

definition run_ops :: "sign_op list" where
  "run_ops = [OpInit CKM_ECDSA (makePrivateKeyHandle 1), OpFinish (Some (replicate 32 1)) 2,
     OpFinish (Some (replicate 32 1)) 3]"

definition run_events :: "sign_event list" where
  "run_events = zip run_ops [(CKR_OK, None, None), (CKR_BUFFER_TOO_SMALL, Some [0, 0], Some 3),
     (CKR_OK, Some [1, 2, 3], Some 3)]"

lemma run_sign:
  "\<exists>t. signInternal run_services (startSign CKM_ECDSA 1 run_session) (replicate 32 1)
      (run_state\<lparr>manager := sm_update (manager run_state) 1 (startSign CKM_ECDSA 1)\<rparr>) = Returns (Inr [1, 2, 3], t)"
  by (simp add: signing_example_defs run_services_def run_state_def signing_state_def startSign_def
      ok_server_def b64_AQID const_vals word_le_nat_alt run_session_def new_session_def)

lemma example_run: "\<exists>t. sign_run run_services 1 run_ops run_state = Returns (Inr run_events, t)"
proof -
  let ?x = "startSign CKM_ECDSA 1 run_session"
  let ?s = "run_state\<lparr>manager := sm_update (manager run_state) 1 (startSign CKM_ECDSA 1)\<rparr>"
  let ?d = "replicate 32 (1 :: byte)"
  have zeros: "replicate 2 0 = [0, 0 :: byte]" "replicate 3 0 = [0, 0, 0 :: byte]"
    by (simp_all add: numeral_2_eq_2 numeral_3_eq_3)
  obtain t where t: "signInternal run_services ?x ?d ?s = Returns (Inr [1, 2, 3], t)"
    using run_sign by blast
  have x: "sm_get (manager ?s) 1 = Some ?x" "initialized ?s"
    using run_state by (simp_all add: sm_get_update)
  have st: "sm_get (manager t) 1 = Some ?x" "initialized t"
    using keepsD [OF core_sign(4) t] x by (simp_all add: same_core_def)
  have active: "signActive ?x" "cachedSignature ?x = None"
    by (simp_all add: startSign_def run_state)
  have one: "sign_call run_services 1 (OpInit CKM_ECDSA (makePrivateKeyHandle 1)) run_state
      = Returns (Inr (CKR_OK, None, None), ?s)"
    using run_state by (simp add: bindE_def catchE_def C_SignInit_run parse_make)
  let ?t = "t\<lparr>manager := sm_update (manager t) 1 (\<lambda>x. x\<lparr>cachedSignature := Some [1, 2, 3]\<rparr>)\<rparr>"
  have two: "sign_call run_services 1 (OpFinish (Some ?d) 2) ?s
      = Returns (Inr (CKR_BUFFER_TOO_SMALL, Some [0, 0], Some 3), ?t)"
    using C_Sign_run [OF x(2), of ?d] x(1) active t
    by (simp add: orElse_run handSignature_run Sign_def finishSign_run zeros)
  have three: "\<exists>u. sign_call run_services 1 (OpFinish (Some ?d) 3) ?t
      = Returns (Inr (CKR_OK, Some [1, 2, 3], Some 3), u)"
    using C_Sign_run [of ?t ?d] st active
    by (simp add: orElse_run handSignature_run Sign_def finishSign_run sm_get_update overwrite_def
        zeros)
  then show ?thesis
    by (auto simp: run_ops_def run_events_def one two bindE_Inr simp del: sign_call.simps)
qed

section \<open>Properties\<close>

text \<open>
  C11: every run of the signing functions on a logged-in or logged-out session, with any
  operations in any order, is a run of the abstract machine that starts idle, if the
  application comes back with a buffer of the length it was told; and no such run hands out
  more signatures than operations were started.
\<close>

theorem signing_run_refines:
  assumes "sign_run sv h ops s = Returns (Inr es, t)" "initialized s"
    "sm_get (manager s) h = Some x" "\<not> signActive x" "cachedSignature x = None"
    "\<forall>op' \<in> set ops. op_fits op'" "signatures_bounded sv" "patient 0 es"
  shows "\<exists>y. sm_get (manager t) h = Some y
    \<and> spec_run (backend_answers sv) (loggedIn x) es Idle (signing_of y)
    \<and> handouts es \<le> starts es"
proof -
  have "signing_of x = Idle" "fresh x" using assms(4,5) by (simp_all add: signing_of_def fresh_def)
  with run_refines [OF assms(1-3) _ assms(6-8)] obtain y where "sm_get (manager t) h = Some y"
    "spec_run (backend_answers sv) (loggedIn x) es Idle (signing_of y)" by (auto simp: needs_def)
  with spec_run_counts [OF this(2)] show ?thesis by (auto simp: pending_def)
qed

theorem signing_run_refines_witness:
  "\<exists>t y. sign_run run_services 1 run_ops run_state = Returns (Inr run_events, t)
    \<and> spec_run (backend_answers run_services) True run_events Idle (signing_of y)
    \<and> handouts run_events \<le> starts run_events"
proof -
  obtain t where t: "sign_run run_services 1 run_ops run_state = Returns (Inr run_events, t)"
    using example_run by blast
  have "\<forall>op' \<in> set run_ops. op_fits op'" "patient 0 run_events"
    by (simp_all add: run_ops_def run_events_def op_fits_def reported_length_def const_vals)
  with signing_run_refines [OF t run_state(1,2,4,5)] run_services t run_state(3) show ?thesis by auto
qed

end
