(* ===== verification/Threads.thy ===== *)
theory Threads
  imports Go_Monad
begin

text \<open>
  Calls that run at the same time. A call is a thread: it ends with a result or an error, it
  has panicked, or it takes a step on the shared state. Threads take their steps in any order.
  What a thread does among others is shown by its rely and its guarantee: what it expects of
  the steps of the others, and what it promises of its own.
\<close>

section \<open>Threads\<close>

datatype ('s, 'a) thread = Finished "'a result" | Crashed | Step "'s \<Rightarrow> ('s, 'a) thread \<times> 's"

text \<open>A computation that is one step.\<close>

definition atom :: "('s, 'a) go \<Rightarrow> ('s, 'a) thread" where
  "atom f = Step (\<lambda>s. case f s of Panics \<Rightarrow> (Crashed, s) | Returns (r, t) \<Rightarrow> (Finished r, t))"

primrec catchT :: "('s, 'a) thread \<Rightarrow> ('a result \<Rightarrow> ('s, 'b) thread) \<Rightarrow> ('s, 'b) thread" where
  "catchT (Finished r) k = k r"
| "catchT Crashed k = Crashed"
| "catchT (Step f) k = Step (map_prod (\<lambda>t. catchT t k) id \<circ> f)"

definition returnT :: "'a \<Rightarrow> ('s, 'a) thread" where
  "returnT x = Finished (Inr x)"

definition throwT :: "go_error \<Rightarrow> ('s, 'a) thread" where
  "throwT e = Finished (Inl e)"

definition bindT :: "('s, 'a) thread \<Rightarrow> ('a \<Rightarrow> ('s, 'b) thread) \<Rightarrow> ('s, 'b) thread" where
  "bindT t k = catchT t (\<lambda>r. case r of Inl e \<Rightarrow> throwT e | Inr x \<Rightarrow> k x)"

lemma bindT_basic [simp]:
  "bindT (returnT x) k = k x" "bindT (throwT e) k = throwT e"
  "catchT (returnT x) c = c (Inr x)" "catchT (throwT e) c = c (Inl e)"
  by (simp_all add: bindT_def returnT_def throwT_def)

section \<open>A thread on its own\<close>

primrec runT :: "('s, 'a) thread \<Rightarrow> ('s, 'a) go" where
  "runT (Finished r) = (\<lambda>s. Returns (r, s))"
| "runT Crashed = (\<lambda>s. Panics)"
| "runT (Step f) = (\<lambda>s. case map_prod runT id (f s) of (g, t) \<Rightarrow> g t)"

lemma runT_catch: "runT (catchT t k) = catchE (runT t) (\<lambda>r. runT (k r))"
proof (induction t)
  case (Step f)
  show ?case
  proof
    fix s
    obtain t u where "f s = (t, u)" by (cases "f s")
    moreover from this have "runT (catchT t k) = catchE (runT t) (\<lambda>r. runT (k r))"
      by (intro Step [of "f s"]) (auto intro: range_eqI [of _ f s])
    ultimately show "runT (catchT (Step f) k) s = catchE (runT (Step f)) (\<lambda>r. runT (k r)) s"
      by (simp add: catchE_def)
  qed
qed (simp_all add: catchE_def fun_eq_iff)

lemma runT_simps [simp]:
  "runT (atom f) = f" "runT (returnT x) = returnE x" "runT (throwT e) = throwE e"
  by (auto simp: atom_def returnT_def throwT_def go_defs fun_eq_iff split: outcome.splits)

lemma runT_bind: "runT (bindT t k) = bindE (runT t) (\<lambda>x. runT (k x))"
  unfolding bindT_def bindE_def runT_catch
  by (rule arg_cong [where f = "catchE (runT t)"]) (auto simp: fun_eq_iff split: sum.splits)

lemma runT_if: "runT (if b then t else u) = (if b then runT t else runT u)"
  by simp

section \<open>Threads together\<close>

definition advance :: "('s, 'a) thread \<times> 's \<Rightarrow> ('s, 'a) thread \<times> 's" where
  "advance p = (case p of (Step f, s) \<Rightarrow> f s | _ \<Rightarrow> p)"

lemma advance_bind:
  "f s = Returns (Inr x, t) \<Longrightarrow> advance (bindT (atom f) k, s) = (k x, t)"
  "f s = Returns (Inr x, t) \<Longrightarrow> advance (catchT (bindT (atom f) k) c, s) = (catchT (k x) c, t)"
  by (simp_all add: advance_def bindT_def atom_def)

text \<open>A schedule names the thread that takes the next step.\<close>

fun run_pool :: "nat list \<Rightarrow> ('s, 'a) thread list \<Rightarrow> 's \<Rightarrow> ('s, 'a) thread list \<times> 's" where
  "run_pool [] ts s = (ts, s)"
| "run_pool (i # sched) ts s =
     (if i < length ts then
        (case advance (ts ! i, s) of (t, u) \<Rightarrow> run_pool sched (ts[i := t]) u)
      else run_pool sched ts s)"

lemma run_pool_append:
  "run_pool (xs @ ys) ts s = (case run_pool xs ts s of (us, t) \<Rightarrow> run_pool ys us t)"
  by (induction xs arbitrary: ts s) (auto split: prod.splits)

text \<open>A thread that is given all the steps it takes ends as it ends on its own.\<close>

lemma run_pool_one:
  assumes "i < length ts"
  shows "runT (ts ! i) s = Returns (r, u) \<Longrightarrow> \<exists>n. run_pool (replicate n i) ts s = (ts[i := Finished r], u)"
    and "runT (ts ! i) s = Panics \<Longrightarrow> \<exists>n t. run_pool (replicate n i) ts s = (ts[i := Crashed], t)"
proof -
  have "(runT t s = Returns (r, u) \<longrightarrow> (\<exists>n. run_pool (replicate n i) ts s = (ts[i := Finished r], u)))
    \<and> (runT t s = Panics \<longrightarrow> (\<exists>n t. run_pool (replicate n i) ts s = (ts[i := Crashed], t)))"
    if "i < length ts" "ts ! i = t" for t ts s
    using that
  proof (induction t arbitrary: ts s)
    case (Step f)
    obtain t v where t: "f s = (t, v)" by (cases "f s")
    have "t \<in> Basic_BNFs.fsts (f s)" using t by (auto intro: fsts.intros)
    from Step.IH [OF _ this, of "ts[i := t]" v] Step.prems
    have ih: "(runT t v = Returns (r, u) \<longrightarrow> (\<exists>n. run_pool (replicate n i) (ts[i := t]) v = (ts[i := Finished r], u)))
      \<and> (runT t v = Panics \<longrightarrow> (\<exists>n w. run_pool (replicate n i) (ts[i := t]) v = (ts[i := Crashed], w)))"
      by simp
    have first: "run_pool (replicate (Suc n) i) ts s = run_pool (replicate n i) (ts[i := t]) v" for n
      using Step.prems t by (simp add: advance_def)
    have "runT (Step f) s = runT t v" using t by simp
    with ih show ?case unfolding first [symmetric] by metis
  next
    case (Finished x)
    then have "ts = ts[i := Finished x]" by (metis list_update_id)
    then show ?case by (auto intro!: exI [of _ 0])
  next
    case Crashed
    then have "ts = ts[i := Crashed]" by (metis list_update_id)
    then show ?case by (auto intro!: exI [of _ 0])
  qed
  with assms show "runT (ts ! i) s = Returns (r, u) \<Longrightarrow> \<exists>n. run_pool (replicate n i) ts s = (ts[i := Finished r], u)"
    and "runT (ts ! i) s = Panics \<Longrightarrow> \<exists>n t. run_pool (replicate n i) ts s = (ts[i := Crashed], t)" by blast+
qed

section \<open>Rely and guarantee\<close>

text \<open>
  A thread has a footprint, the part of the state it works on. It is on course when within \<open>n\<close> of
  its steps it ends with a result that satisfies the postcondition and does not panic, whatever
  the others do between its steps, as long as they keep the rely of its footprint; its own steps
  keep the guarantee, by which the footprint may change.
\<close>

primrec on_course ::
  "('f \<Rightarrow> 's \<Rightarrow> 's \<Rightarrow> bool) \<Rightarrow> ('f \<Rightarrow> 'f \<Rightarrow> 's \<Rightarrow> 's \<Rightarrow> bool) \<Rightarrow> ('a result \<Rightarrow> 'f \<Rightarrow> 's \<Rightarrow> bool) \<Rightarrow>
   nat \<Rightarrow> ('s, 'a) thread \<Rightarrow> 'f \<Rightarrow> 's \<Rightarrow> bool" where
  "on_course R G Q 0 t f s \<longleftrightarrow> (\<exists>r. t = Finished r \<and> (\<forall>u. R f s u \<longrightarrow> Q r f u))"
| "on_course R G Q (Suc n) t f s \<longleftrightarrow>
     (case t of
        Finished r \<Rightarrow> \<forall>u. R f s u \<longrightarrow> Q r f u
      | Crashed \<Rightarrow> False
      | Step g \<Rightarrow> \<forall>u. R f s u \<longrightarrow>
          (\<exists>k. G f k u (snd (g u)) \<and> on_course R G Q n (fst (g u)) k (snd (g u))))"

definition satisfies ::
  "('f \<Rightarrow> 's \<Rightarrow> 's \<Rightarrow> bool) \<Rightarrow> ('f \<Rightarrow> 'f \<Rightarrow> 's \<Rightarrow> 's \<Rightarrow> bool) \<Rightarrow> ('f \<Rightarrow> 's \<Rightarrow> bool) \<Rightarrow> nat \<Rightarrow>
   ('s, 'a) thread \<Rightarrow> ('a result \<Rightarrow> 'f \<Rightarrow> 's \<Rightarrow> bool) \<Rightarrow> bool" where
  "satisfies R G P n t Q \<longleftrightarrow> (\<forall>f s. P f s \<longrightarrow> on_course R G Q n t f s)"

definition stable :: "('f \<Rightarrow> 's \<Rightarrow> 's \<Rightarrow> bool) \<Rightarrow> ('f \<Rightarrow> 's \<Rightarrow> bool) \<Rightarrow> bool" where
  "stable R P \<longleftrightarrow> (\<forall>f s t. P f s \<longrightarrow> R f s t \<longrightarrow> P f t)"

lemma on_course_Suc: "on_course R G Q n t f s \<Longrightarrow> on_course R G Q (Suc n) t f s"
proof (induction n arbitrary: t f s)
  case (Suc n)
  then show ?case by (cases t) (fastforce simp del: on_course.simps(1))+
qed auto

lemma on_course_le: "on_course R G Q m t f s \<Longrightarrow> m \<le> n \<Longrightarrow> on_course R G Q n t f s"
  by (induction n) (auto simp: le_Suc_eq intro: on_course_Suc simp del: on_course.simps)

lemma on_course_post:
  "on_course R G Q n t f s \<Longrightarrow> (\<And>r f s. Q r f s \<Longrightarrow> Q' r f s) \<Longrightarrow> on_course R G Q' n t f s"
  by (induction n arbitrary: t f s) (fastforce split: thread.splits)+

lemma on_course_Step:
  "on_course R G Q n (Step g) f s \<longleftrightarrow> (\<exists>m. n = Suc m \<and>
     (\<forall>u. R f s u \<longrightarrow> (\<exists>k. G f k u (snd (g u)) \<and> on_course R G Q m (fst (g u)) k (snd (g u)))))"
  by (cases n) auto

lemma on_course_Crashed [simp]: "\<not> on_course R G Q n Crashed f s"
  by (cases n) auto

lemma on_course_Finished: "on_course R G Q n (Finished r) f s \<longleftrightarrow> (\<forall>u. R f s u \<longrightarrow> Q r f u)"
  by (cases n) auto

text \<open>
  The contract under which threads can run together: what one does with its footprint, when the
  footprints are compatible, keeps them compatible and is what the others rely on.
\<close>

locale parallel =
  fixes rely :: "'f \<Rightarrow> 's \<Rightarrow> 's \<Rightarrow> bool"
    and guar :: "'f \<Rightarrow> 'f \<Rightarrow> 's \<Rightarrow> 's \<Rightarrow> bool"
    and compatible :: "'s \<Rightarrow> 'f list \<Rightarrow> bool"
  assumes rely_refl: "rely f s s"
    and rely_trans: "rely f s t \<Longrightarrow> rely f t u \<Longrightarrow> rely f s u"
    and step_compatible:
      "compatible s fs \<Longrightarrow> i < length fs \<Longrightarrow> guar (fs ! i) k s t \<Longrightarrow> compatible t (fs[i := k])"
    and step_rely:
      "compatible s fs \<Longrightarrow> i < length fs \<Longrightarrow> guar (fs ! i) k s t \<Longrightarrow> j < length fs \<Longrightarrow> j \<noteq> i \<Longrightarrow>
       rely (fs ! j) s t"
begin

lemma on_course_rely:
  "on_course rely G Q n t f s \<Longrightarrow> rely f s u \<Longrightarrow> on_course rely G Q n t f u"
  by (cases n) (auto intro: rely_trans split: thread.splits)

lemma satisfies_return:
  "stable rely P \<Longrightarrow> (\<And>f s. P f s \<Longrightarrow> Q (Inr x) f s) \<Longrightarrow> satisfies rely G P n (returnT x) Q"
  unfolding satisfies_def returnT_def on_course_Finished stable_def by blast

lemma satisfies_atom:
  assumes "stable rely P" "\<And>r. stable rely (Q r)"
    "\<And>f s. P f s \<Longrightarrow> \<exists>r k t. g s = Returns (r, t) \<and> G f k s t \<and> Q r k t"
  shows "satisfies rely G P 1 (atom g) Q"
  unfolding satisfies_def
proof (intro allI impI)
  fix f s
  assume "P f s"
  have "\<exists>k. G f k u (snd (g' u)) \<and> on_course rely G Q 0 (fst (g' u)) k (snd (g' u))"
    if "rely f s u" "g' = (\<lambda>s. case g s of Panics \<Rightarrow> (Crashed, s) | Returns (r, t) \<Rightarrow> (Finished r, t))" for u g'
  proof -
    have "P f u" using assms(1) \<open>P f s\<close> that(1) unfolding stable_def by blast
    then obtain r k t where "g u = Returns (r, t)" "G f k u t" "Q r k t" using assms(3) by blast
    with that(2) assms(2) show ?thesis unfolding stable_def by auto
  qed
  then show "on_course rely G Q 1 (atom g) f s" by (simp add: atom_def)
qed

lemma satisfies_catch:
  assumes "satisfies rely G P m t Q'" "\<And>r. satisfies rely G (Q' r) n (k r) Q"
  shows "satisfies rely G P (m + n) (catchT t k) Q"
proof -
  have next_thread: "on_course rely G Q n (k r) f s" if "\<forall>u. rely f s u \<longrightarrow> Q' r f u" for r f s
    using assms(2) that rely_refl unfolding satisfies_def by blast
  have "on_course rely G Q (m + n) (catchT t k) f s" if "on_course rely G Q' m t f s" for f s
    using that
  proof (induction m arbitrary: t f s)
    case (Suc m)
    show ?case
    proof (cases t)
      case (Finished r)
      with Suc.prems have "on_course rely G Q n (k r) f s"
        by (intro next_thread) (simp add: on_course_Finished)
      with Finished show ?thesis by (simp add: on_course_le [of _ _ _ n] del: on_course.simps)
    next
      case (Step g)
      with Suc show ?thesis by (simp add: on_course_Step) blast
    qed (use Suc in auto)
  qed (auto intro: next_thread)
  with assms(1) show ?thesis unfolding satisfies_def by blast
qed

text \<open>
  Threads that are on course stay so together: each comes closer to its end with every step it
  is given.
\<close>

lemma run_pool_on_course:
  assumes "run_pool sched ts s = (us, u)" "compatible s fs" "length fs = length ts"
    "\<And>i. i < length ts \<Longrightarrow> on_course rely guar (Q i) (n i) (ts ! i) (fs ! i) s"
  shows "\<exists>ks. length us = length ts \<and> length ks = length ts \<and> compatible u ks
    \<and> (\<forall>i < length ts. on_course rely guar (Q i) (n i - count_list sched i) (us ! i) (ks ! i) u)"
  using assms
proof (induction sched arbitrary: ts s n fs)
  case (Cons j sched)
  show ?case
  proof (cases "j < length ts")
    case False
    with Cons.prems(1) have run: "run_pool sched ts s = (us, u)" by simp
    have "count_list (j # sched) i = count_list sched i" if "i < length ts" for i using that False by simp
    with Cons.IH [OF run Cons.prems(2,3,4)] show ?thesis by simp
  next
    case True
    obtain t v where t: "advance (ts ! j, s) = (t, v)" by (cases "advance (ts ! j, s)")
    let ?n = "\<lambda>i. if i = j then n i - 1 else n i"
    have j: "on_course rely guar (Q j) (n j) (ts ! j) (fs ! j) s" using Cons.prems(4) True by simp
    have "\<exists>k. on_course rely guar (Q j) (n j - 1) t k v \<and> (v = s \<and> k = fs ! j \<or> guar (fs ! j) k s v)"
    proof (cases "ts ! j")
      case (Step g)
      with j obtain m where "n j = Suc m" "\<exists>k. guar (fs ! j) k s (snd (g s))
          \<and> on_course rely guar (Q j) m (fst (g s)) k (snd (g s))"
        using rely_refl [of "fs ! j" s] by (auto simp: on_course_Step)
      with t Step show ?thesis by (auto simp: advance_def)
    next
      case (Finished r)
      with t have "t = Finished r" "v = s" by (simp_all add: advance_def)
      with j Finished show ?thesis by (auto simp: on_course_Finished)
    qed (use j in simp)
    then obtain k where step: "on_course rely guar (Q j) (n j - 1) t k v"
      "v = s \<and> k = fs ! j \<or> guar (fs ! j) k s v" by blast
    have comp: "compatible v (fs[j := k])"
      using step(2) step_compatible [OF Cons.prems(2), of j k v] Cons.prems(2,3) True
      by (auto simp: list_update_id)
    have "on_course rely guar (Q i) (?n i) (ts[j := t] ! i) (fs[j := k] ! i) v" if "i < length ts" for i
    proof (cases "i = j")
      case False
      then have "rely (fs ! i) s v"
        using step(2) step_rely [OF Cons.prems(2), of j k v i] that True Cons.prems(3) rely_refl by auto
      with Cons.prems(4) [OF that] False that show ?thesis by (simp add: on_course_rely)
    qed (use step that Cons.prems(3) in simp)
    from Cons.IH [of "ts[j := t]" v "fs[j := k]" ?n] this Cons.prems(1,3) True t comp
    obtain ks where "length us = length ts" "length ks = length ts" "compatible u ks"
      "\<forall>i < length ts. on_course rely guar (Q i) (?n i - count_list sched i) (us ! i) (ks ! i) u" by auto
    moreover have "?n i - count_list sched i = n i - count_list (j # sched) i" for i by simp
    ultimately show ?thesis by metis
  qed
qed auto

lemma run_pool_ends:
  assumes "run_pool sched ts s = (us, u)" "compatible s fs" "length fs = length ts"
    "\<And>i. i < length ts \<Longrightarrow> on_course rely guar (Q i) n (ts ! i) (fs ! i) s"
    "\<And>i. i < length ts \<Longrightarrow> n \<le> count_list sched i"
  shows "\<exists>ks. length us = length ts \<and> length ks = length ts \<and> compatible u ks
    \<and> (\<forall>i < length ts. \<exists>r. us ! i = Finished r \<and> Q i r (ks ! i) u)"
proof -
  obtain ks where ks: "length us = length ts" "length ks = length ts" "compatible u ks"
    "\<forall>i < length ts. on_course rely guar (Q i) (n - count_list sched i) (us ! i) (ks ! i) u"
    using run_pool_on_course [OF assms(1-3), of Q "\<lambda>_. n"] assms(4) by blast
  have "\<exists>r. us ! i = Finished r \<and> Q i r (ks ! i) u" if "i < length ts" for i
    using ks(4) assms(5) [OF that] that rely_refl by fastforce
  with ks show ?thesis by blast
qed

end

end
