(* ===== verification/Workflow.thy ===== *)
theory Workflow
  imports Signing_Contract
begin

text \<open>
  A whole signature, the way applications make one: open a session on a slot, search for the
  private key, start to sign with the handle found, and sign. With a server that lists its
  signers and answers the sign request, every call of this sequence succeeds and the last one
  delivers the server's signature, whatever is cached and whatever the clock says.
\<close>

section \<open>A server that serves\<close>

definition lists :: "'w services \<Rightarrow> restyClient \<Rightarrow> string \<Rightarrow> signerResponse list \<Rightarrow> bool" where
  "lists sv c token signers \<longleftrightarrow>
     (\<forall>w. \<exists>resp w'. sv_http sv (listSigners_request c token) w = (Inr resp, w')
        \<and> rs_status resp \<le> 399 \<and> sv_decode_signers sv resp = Inr signers)"

definition signs ::
  "'w services \<Rightarrow> restyClient \<Rightarrow> string \<Rightarrow> string \<Rightarrow> string \<Rightarrow> bytes \<Rightarrow> bool \<Rightarrow> bytes \<Rightarrow> bool" where
  "signs sv c token signerID alg data dig sig \<longleftrightarrow>
     (\<forall>w ctx. \<exists>resp w' body.
        sv_http sv (sign_request c token signerID (signRequestFor alg data dig ctx)) w = (Inr resp, w')
        \<and> rs_status resp \<le> 399 \<and> sv_decode_signature sv resp = Inr body \<and> b64_decode body = Some sig)"

text \<open>
  A process that has a token, in either kind of authentication, and knows no list of signers but
  the server's. The HTTP client and the token stay what they are.
\<close>

definition authenticated :: "'w services \<Rightarrow> string \<Rightarrow> Config \<Rightarrow> InfisicalClient \<Rightarrow> bool" where
  "authenticated sv token cfg cl \<longleftrightarrow>
     token \<noteq> [] \<and>
     (if Method (Auth cfg) = authMethodToken then Token (Auth cfg) = token
      else hasConfigCredentials cfg
        \<and> (\<exists>k. sdkClient cl = Some k \<and> (\<forall>w. sv_sdk_token sv k w = token)))"

definition steady ::
  "'w services \<Rightarrow> restyClient \<Rightarrow> string \<Rightarrow> signerResponse list \<Rightarrow> 'w backend \<Rightarrow> bool" where
  "steady sv c token signers s \<longleftrightarrow>
     initialized s \<and> authenticated sv token (config s) (client s) \<and> httpClient (client s) = c
     \<and> (\<forall>e. sc_entry (signer_cache s) = Some e \<longrightarrow> entry_value e = signers)"

lemma steady_manager [simp]: "steady sv c token signers (s\<lparr>manager := m\<rparr>) = steady sv c token signers s"
  by (simp add: steady_def)

lemma steady_world [simp]: "steady sv c token signers (s\<lparr>world := w\<rparr>) = steady sv c token signers s"
  by (simp add: steady_def)

lemma steady_captured [simp]: "steady sv c token signers (s\<lparr>captured := x\<rparr>) = steady sv c token signers s"
  by (simp add: steady_def)

lemma getToken_steady: "steady sv c token signers s \<Longrightarrow> getToken sv s = Returns (Inr token, s)"
  by (auto simp: steady_def authenticated_def getToken_def accessToken_def GetAccessToken_def bindE_Inr
      split: if_splits)

text \<open>A request the server answers: one exchange, and only the world changes.\<close>

lemma request_steady:
  assumes "steady sv c token signers s" "sv_http sv (rq c token) (world s) = (Inr resp, w)"
    "rs_status resp \<le> 399" "decode resp = Inr v"
  shows "withRetryOnAuth sv (\<lambda>token. apiE (\<lambda>cl. send sv op (rq (httpClient cl) token) decode)) s
    = Returns (Inr v, s\<lparr>world := w\<rparr>)"
proof -
  have "httpClient (client s) = c" using assms(1) by (simp add: steady_def)
  then show ?thesis using assms(2-4) getToken_steady [OF assms(1)]
    by (simp add: withRetryOnAuth_def bindE_Inr apiE_def send_def catchE_def)
qed

lemma getSigners_steady:
  assumes "steady sv c token signers s" "lists sv c token signers"
  shows "\<exists>t. getSigners sv s = Returns (Inr signers, t) \<and> steady sv c token signers t \<and> manager t = manager s
    \<and> captured t = captured s"
proof (cases "sc_get (signer_cache s) (fst (sv_now sv (world s)))")
  case (Some l)
  then have "l = signers" using assms(1) by (auto simp: steady_def sc_get_def split: option.splits if_splits)
  with getSigners_hit [OF Some] assms(1) show ?thesis by auto
next
  case None
  let ?s = "s\<lparr>world := snd (sv_now sv (world s))\<rparr>"
  obtain resp w where resp: "sv_http sv (listSigners_request c token) (world ?s) = (Inr resp, w)"
    "rs_status resp \<le> 399" "sv_decode_signers sv resp = Inr signers"
    using assms(2) unfolding lists_def by blast
  have "withRetryOnAuth sv (\<lambda>token. apiE (\<lambda>c. ListSigners sv c token)) ?s
      = Returns (Inr signers, ?s\<lparr>world := w\<rparr>)"
    unfolding ListSigners_def
    by (rule request_steady [where rq = listSigners_request and decode = "sv_decode_signers sv"
        and signers = signers, OF _ resp])
      (simp add: assms(1))
  then show ?thesis using None assms(1)
    by (cases "sv_now sv (world s)"; cases "sv_now sv w")
      (auto simp: getSigners_def nowE_def bindE_Inr steady_def sc_set_def)
qed

lemma getSignerBySlot_steady:
  assumes "steady sv c token signers s" "lists sv c token signers" "unat i < length signers"
    "length signers < 2 ^ 64"
  shows "\<exists>t. getSignerBySlot sv i s = Returns (Inr (signers ! unat i), t) \<and> steady sv c token signers t
    \<and> manager t = manager s \<and> captured t = captured s"
proof -
  obtain t where t: "getSigners sv s = Returns (Inr signers, t)" "steady sv c token signers t"
    "manager t = manager s" "captured t = captured s" using getSigners_steady [OF assms(1,2)] by blast
  have "\<not> of_nat (length signers) \<le> i" using assms(3,4) by (simp add: word_le_of_nat_iff)
  with t show ?thesis by (simp add: getSignerBySlot_def bindE_Inr)
qed

section \<open>The calls, one by one\<close>

lemma open_steady:
  assumes "steady sv c token signers s" "lists sv c token signers" "unat i < length signers"
    "length signers < 2 ^ 64"
  shows "\<exists>t. exec sv (OpenSessionCall i f (Some h0)) s
      = Returns (Inr (CKR_OK, HandleMemory (Some (nextID (manager s)))), t)
    \<and> steady sv c token signers t
    \<and> sm_get (manager t) (nextID (manager s)) = Some ((new_session i)\<lparr>loggedIn := True\<rparr>)"
proof -
  obtain u where u: "getSignerBySlot sv i s = Returns (Inr (signers ! unat i), u)"
    "steady sv c token signers u" "manager u = manager s"
    using getSignerBySlot_steady [OF assms] by blast
  let ?m = "setLoggedIn (snd (sm_open (manager s) i)) (nextID (manager s)) True"
  have "isTokenAuth (config u) \<or> hasConfigCredentials (config u) \<and> GetAccessToken sv (client u) (world u) \<noteq> []"
    using u(2) by (auto simp: steady_def authenticated_def isTokenAuth_def GetAccessToken_def split: if_splits)
  then have "openIn sv i u = Returns (Inr (nextID (manager s)), u\<lparr>manager := ?m\<rparr>)"
    using u(3) by (simp add: openIn_def sm_open_def accessToken_def updateManager_def bindE_Inr Let_def)
  moreover have "initialized s" using assms(1) by (simp add: steady_def)
  ultimately have "exec sv (OpenSessionCall i f (Some h0)) s
      = Returns (Inr (CKR_OK, HandleMemory (Some (nextID (manager s)))), u\<lparr>manager := ?m\<rparr>)"
    using u(1) by (simp add: withMemory_run C_OpenSession_def guarded_run orElse_run OpenSession_def bindE_Inr)
  moreover have "sm_get ?m (nextID (manager s)) = Some ((new_session i)\<lparr>loggedIn := True\<rparr>)"
    by (simp add: setLoggedIn_def sm_get_update sm_open_def Let_def) (simp add: sm_get_def)
  ultimately show ?thesis using u(2) by auto
qed

text \<open>The template of a search for private keys.\<close>

definition private_keys :: "ck_attribute list" where
  "private_keys = [\<lparr>attr_type = CKA_CLASS, attr_pValue = Some (le_bytes CKO_PRIVATE_KEY), attr_vallen = 8\<rparr>]"

lemma search_steady:
  assumes "steady sv c token signers s" "sm_get (manager s) h = Some x" "\<not> findActive x"
  shows "\<exists>t template. exec sv (FindObjectsInitCall h (Some private_keys) 1) s = Returns (Inr (CKR_OK, NoMemory), t)
    \<and> steady sv c token signers t
    \<and> sm_get (manager t) h = Some (x\<lparr>findActive := True, findTemplate := template,
        findResults := [makePrivateKeyHandle (slotID x)], findPos := 0\<rparr>)"
proof -
  let ?template = "[\<lparr>Type = CKA_CLASS, Value = Some (le_bytes CKO_PRIVATE_KEY)\<rparr>]"
  have len: "length (le_bytes CKO_PRIVATE_KEY) = 8" by (simp add: le_bytes_def)
  then have read: "readTemplate private_keys = Returns ?template"
    by (simp add: private_keys_def goBytes_small)
  have "classOf (le_bytes CKO_PRIVATE_KEY) = CKO_PRIVATE_KEY"
    by (rule classOf_le_bytes) (simp add: const_vals)
  then have "requestedClass (collectTemplate ?template) = Some CKO_PRIVATE_KEY"
    "requestedID (collectTemplate ?template) = None" "requestedLabel (collectTemplate ?template) = None"
    "requestedSubject (collectTemplate ?template) = None"
    using len by (simp_all add: collectTemplate_def collectAttr_def)
  then have "FindObjectsInit sv h ?template s
      = setFindResult h ?template [makePrivateKeyHandle (slotID x)] s"
    using assms(2,3) by (simp add: FindObjectsInit_def bind_getSession matchesIDLabel_def
        matchesSubject_def findHandles_def Let_def)
  moreover have "take (unat (1 :: uint)) private_keys = private_keys" by (simp add: private_keys_def)
  moreover have "\<not> maxTemplateAttrs < 1" by (simp add: const_vals)
  ultimately have "exec sv (FindObjectsInitCall h (Some private_keys) 1) s = Returns (Inr (CKR_OK, NoMemory),
      s\<lparr>manager := sm_update (manager s) h (\<lambda>x. x\<lparr>findActive := True, findTemplate := ?template,
        findResults := [makePrivateKeyHandle (slotID x)], findPos := 0\<rparr>)\<rparr>)"
    using assms read
    by (simp add: withMemory_run C_FindObjectsInit_def guarded_run steady_def liftOut_def bindE_Inr orElse_run
        setFindResult_run sm_update_def map_at_def sm_get_def del: readTemplate.simps)
  then show ?thesis using assms(1,2) by (auto simp: sm_get_update)
qed

lemma find_steady:
  assumes "steady sv c token signers s" "sm_get (manager s) h = Some x" "findActive x" "findPos x = 0"
    "findResults x = [key]"
  shows "\<exists>t. exec sv (FindObjectsCall h (Some [0]) 1 (Some 0)) s
      = Returns (Inr (CKR_OK, ListMemory (Some [key]) (Some 1)), t)
    \<and> steady sv c token signers t \<and> sm_get (manager t) h = Some (x\<lparr>findPos := 1\<rparr>)"
proof -
  have one: "go_int 1 = 1" "sliceable 1" by (simp_all add: go_int_def sliceable_def)
  have "FindObjects h 1 s = Returns (Inr [key],
      s\<lparr>manager := sm_update (manager s) h (\<lambda>s. s\<lparr>findPos := findPos s + 1\<rparr>)\<rparr>)"
    using assms(2-5) by (simp add: FindObjects_def bind_getSession updateSession_def bindE_Inr Let_def)
  moreover have "initialized s" using assms(1) by (simp add: steady_def)
  ultimately show ?thesis using assms(1,2,4) one
    by (simp add: withMemory_run C_FindObjects_def guarded_run orElse_run overwrite_def sm_get_update)
qed

lemma final_steady:
  assumes "steady sv c token signers s" "sm_get (manager s) h = Some x"
  shows "\<exists>t. exec sv (FindObjectsFinalCall h) s = Returns (Inr (CKR_OK, NoMemory), t)
    \<and> steady sv c token signers t
    \<and> sm_get (manager t) h = Some (x\<lparr>findActive := False, findResults := [], findPos := 0\<rparr>)"
  using assms
  by (simp add: withMemory_run C_FindObjectsFinal_def simply_run FindObjectsFinal_def bind_getSession
      updateSession_def sm_get_update steady_def)

lemma init_steady:
  assumes "steady sv c token signers s" "sm_get (manager s) h = Some x" "loggedIn x" "\<not> signActive x"
  shows "\<exists>t. exec sv (SignInitCall h (Some mech) key) s = Returns (Inr (CKR_OK, NoMemory), t)
    \<and> steady sv c token signers t
    \<and> sm_get (manager t) h = Some (startSign mech (snd (parseObjectHandle key)) x)"
proof -
  have "initialized s" using assms(1) by (simp add: steady_def)
  with assms show ?thesis by (simp add: withMemory_run C_SignInit_run sm_get_update)
qed

lemma signInternal_steady:
  assumes "steady sv c token signers s" "lists sv c token signers" "unat (signKeyIndex x) < length signers"
    "length signers < 2 ^ 64" "prepareSign (signMech x) d = Inr (alg, data, dig)"
    "signs sv c token (ID (signers ! unat (signKeyIndex x))) alg data dig sig"
  shows "\<exists>t. signInternal sv x d s = Returns (Inr sig, t) \<and> steady sv c token signers t \<and> manager t = manager s"
proof -
  let ?signer = "signers ! unat (signKeyIndex x)"
  obtain u where u: "getSignerBySlot sv (signKeyIndex x) s = Returns (Inr ?signer, u)"
    "steady sv c token signers u" "manager u = manager s"
    using getSignerBySlot_steady [OF assms(1-4)] by blast
  obtain ctx v where v: "signingCtx sv u = Returns (Inr ctx, v)" "same_core u v" "world v = world u"
    "client v = client u"
    by (rule signingCtx_result)
  have cache: "signer_cache v = signer_cache u"
    using v(1) by (auto simp: signingCtx_def split: prod.splits)
  then have steady: "steady sv c token signers v" using u(2) v(2,4) by (simp add: steady_def same_core_def)
  obtain resp w body where resp:
    "sv_http sv (sign_request c token (ID ?signer) (signRequestFor alg data dig ctx)) (world v) = (Inr resp, w)"
    "rs_status resp \<le> 399" "sv_decode_signature sv resp = Inr body" "b64_decode body = Some sig"
    using assms(6) unfolding signs_def by blast
  have "withRetryOnAuth sv (\<lambda>token. apiE (\<lambda>c. client_Sign sv c token (ID ?signer)
      (signRequestFor alg data dig ctx))) v = Returns (Inr body, v\<lparr>world := w\<rparr>)"
    unfolding client_Sign_def
    by (rule request_steady [where decode = "sv_decode_signature sv" and signers = signers
        and rq = "\<lambda>c token. sign_request c token (ID ?signer) (signRequestFor alg data dig ctx)",
        OF steady resp(1-3)])
  then have "signInternal sv x d s = Returns (Inr sig, v\<lparr>world := w\<rparr>)"
    using u(1) v(1) assms(5) resp(4)
    by (simp add: signInternal_def sendSign_def bindE_Inr catchE_def)
  with steady u(3) v(2) show ?thesis by (simp add: same_core_def)
qed

lemma sign_steady:
  assumes "steady sv c token signers s" "lists sv c token signers" "sm_get (manager s) h = Some x"
    "signActive x" "cachedSignature x = None" "unat (signKeyIndex x) < length signers"
    "length signers < 2 ^ 64" "prepareSign (signMech x) d = Inr (alg, data, dig)"
    "signs sv c token (ID (signers ! unat (signKeyIndex x))) alg data dig sig"
    "length d < 2 ^ 31" "sig \<noteq> []" "length sig \<le> unat n"
  shows "\<exists>t. exec sv (SignCall h (Some d) (of_nat (length d)) (Some buf) (Some n)) s
      = Returns (Inr (CKR_OK, SignatureMemory (Some (overwrite sig buf)) (Some (of_nat (length sig)))), t)
    \<and> steady sv c token signers t \<and> sm_get (manager t) h = Some (clearSign x)"
proof -
  obtain t where t: "signInternal sv x d s = Returns (Inr sig, t)" "steady sv c token signers t"
    "manager t = manager s" using signInternal_steady [OF assms(1,2,6-9)] by blast
  have "initialized s" using assms(1) by (simp add: steady_def)
  then show ?thesis
    using t assms(3-5,10-12) C_Sign_run [of s d sv h buf n]
    by (simp add: withMemory_run Sign_def finishSign_run orElse_run handSignature_run sm_get_update)
qed

section \<open>The whole sequence\<close>

fun exec_all :: "'w services \<Rightarrow> api_call list \<Rightarrow> ('w, (ck_rv \<times> memory) list) call" where
  "exec_all sv [] = returnE []"
| "exec_all sv (c # cs) =
     bindE (exec sv c) (\<lambda>r. bindE (exec_all sv cs) (\<lambda>rs. returnE (r # rs)))"

lemma exec_all_Cons:
  "exec sv c s = Returns (Inr r, t) \<Longrightarrow> exec_all sv cs t = Returns (Inr rs, u) \<Longrightarrow>
   exec_all sv (c # cs) s = Returns (Inr (r # rs), u)"
  by (simp add: bindE_Inr)

text \<open>The calls of an application that signs \<open>d\<close> with the private key of slot \<open>i\<close>.\<close>

definition signing_calls :: "uint \<Rightarrow> uint \<Rightarrow> uint \<Rightarrow> bytes \<Rightarrow> bytes \<Rightarrow> uint \<Rightarrow> api_call list" where
  "signing_calls h i mech d buf n =
     [OpenSessionCall i CKF_SERIAL_SESSION (Some 0), FindObjectsInitCall h (Some private_keys) 1,
      FindObjectsCall h (Some [0]) 1 (Some 0), FindObjectsFinalCall h,
      SignInitCall h (Some mech) (makePrivateKeyHandle i),
      SignCall h (Some d) (of_nat (length d)) (Some buf) (Some n)]"

text \<open>
  C5: in an initialized process that has a token, in either kind of authentication, every call
  of an application that opens a session, looks for the private key of the slot and signs with
  it succeeds, and the last one delivers the signature of the slot's signer. This is under the
  conditions that make it possible: the server answers every request for its signers, always
  with the same list, and every sign request for this signer and these data with this
  signature; a signer list that is already cached is that list (the cache may also be empty, and
  may expire at any time in between); the slot is one of the list and fits the 28 bits of a
  handle; mechanism and data are acceptable, the data shorter than 2^31 bytes; the signature is
  not empty and fits the buffer.
\<close>

theorem signing_works:
  assumes "steady sv c token signers s" "lists sv c token signers" "unat i < length signers"
    "length signers < 2 ^ 64" "i < 2 ^ 28" "prepareSign mech d = Inr (alg, data, dig)"
    "signs sv c token (ID (signers ! unat i)) alg data dig sig"
    "length d < 2 ^ 31" "sig \<noteq> []" "length sig \<le> unat n"
  shows "\<exists>t. exec_all sv (signing_calls (nextID (manager s)) i mech d buf n) s = Returns (Inr
      [(CKR_OK, HandleMemory (Some (nextID (manager s)))), (CKR_OK, NoMemory),
       (CKR_OK, ListMemory (Some [makePrivateKeyHandle i]) (Some 1)), (CKR_OK, NoMemory), (CKR_OK, NoMemory),
       (CKR_OK, SignatureMemory (Some (overwrite sig buf)) (Some (of_nat (length sig))))], t)
    \<and> steady sv c token signers t"
proof -
  let ?h = "nextID (manager s)" and ?x = "(new_session i)\<lparr>loggedIn := True\<rparr>"
  let ?key = "makePrivateKeyHandle i"
  have key: "snd (parseObjectHandle ?key) = i" using parse_make(1) [OF assms(5)] by simp
  obtain s1 where 1: "exec sv (OpenSessionCall i CKF_SERIAL_SESSION (Some 0)) s
      = Returns (Inr (CKR_OK, HandleMemory (Some ?h)), s1)"
    "steady sv c token signers s1" "sm_get (manager s1) ?h = Some ?x"
    using open_steady [OF assms(1-4)] by blast
  obtain s2 template where 2: "exec sv (FindObjectsInitCall ?h (Some private_keys) 1) s1
      = Returns (Inr (CKR_OK, NoMemory), s2)" "steady sv c token signers s2"
    "sm_get (manager s2) ?h = Some (?x\<lparr>findActive := True, findTemplate := template,
        findResults := [?key], findPos := 0\<rparr>)"
    using search_steady [OF 1(2,3)] by (auto simp: new_session_def)
  obtain s3 y where 3: "exec sv (FindObjectsCall ?h (Some [0]) 1 (Some 0)) s2
      = Returns (Inr (CKR_OK, ListMemory (Some [?key]) (Some 1)), s3)" "steady sv c token signers s3"
    "sm_get (manager s3) ?h = Some y" "loggedIn y" "\<not> signActive y" "cachedSignature y = None"
    using find_steady [OF 2(2,3), where key = ?key] by (auto simp: new_session_def)
  obtain s4 z where 4: "exec sv (FindObjectsFinalCall ?h) s3 = Returns (Inr (CKR_OK, NoMemory), s4)"
    "steady sv c token signers s4" "sm_get (manager s4) ?h = Some z" "loggedIn z" "\<not> signActive z"
    "cachedSignature z = None"
    using final_steady [OF 3(2,3)] 3(4-6) by auto
  obtain s5 where 5: "exec sv (SignInitCall ?h (Some mech) ?key) s4 = Returns (Inr (CKR_OK, NoMemory), s5)"
    "steady sv c token signers s5" "sm_get (manager s5) ?h = Some (startSign mech i z)"
    using init_steady [OF 4(2-5), of mech ?key] key by auto
  obtain s6 where 6: "exec sv (SignCall ?h (Some d) (of_nat (length d)) (Some buf) (Some n)) s5
      = Returns (Inr (CKR_OK, SignatureMemory (Some (overwrite sig buf)) (Some (of_nat (length sig)))), s6)"
    "steady sv c token signers s6"
    using sign_steady [OF 5(2) assms(2) 5(3), of d alg data dig sig n buf] assms 4(6)
    by (auto simp: startSign_def)
  have "exec_all sv [] s6 = Returns (Inr [], s6)" by simp
  from exec_all_Cons [OF 1(1) exec_all_Cons [OF 2(1) exec_all_Cons [OF 3(1) exec_all_Cons [OF 4(1)
      exec_all_Cons [OF 5(1) exec_all_Cons [OF 6(1) this]]]]]] 6(2)
  show ?thesis unfolding signing_calls_def by blast
qed

text \<open>The instance: universal authentication, and the EC signer of slot 1.\<close>

definition serving :: "nat services" where
  "serving = (example_services ok_server)\<lparr>sv_sdk_token := (\<lambda>k w. ''t'')\<rparr>"

lemma serving_facts:
  "steady serving (httpClient example_client) ''t'' [rsa_signer, ec_signer] (example_state 1)"
  "lists serving (httpClient example_client) ''t'' [rsa_signer, ec_signer]"
  "signs serving (httpClient example_client) ''t'' signerID alg data dig [1, 2, 3]"
proof -
  have "b64_decode ''AQID'' = Some [1, 2, 3]" by code_simp
  then show "signs serving (httpClient example_client) ''t'' signerID alg data dig [1, 2, 3]"
    by (simp add: signs_def serving_def example_services_def ok_server_def ok_response_def)
qed (simp_all add: steady_def authenticated_def lists_def hasConfigCredentials_def serving_def
    example_services_def example_state_def example_config_def example_client_def fill_method_def
    newSignerCache_def ok_server_def ok_response_def)

theorem signing_works_witness:
  "\<exists>t. exec_all serving (signing_calls 1 1 CKM_ECDSA (replicate 32 1) [0, 0, 0, 0] 4) (example_state 1)
    = Returns (Inr [(CKR_OK, HandleMemory (Some 1)), (CKR_OK, NoMemory),
       (CKR_OK, ListMemory (Some [makePrivateKeyHandle 1]) (Some 1)), (CKR_OK, NoMemory), (CKR_OK, NoMemory),
       (CKR_OK, SignatureMemory (Some [1, 2, 3, 0]) (Some 3))], t)"
proof -
  have "prepareSign CKM_ECDSA (replicate 32 1) = Inr (AlgECDSASHA256, replicate 32 1, True)"
    by (simp add: prepareSign_def const_vals)
  moreover have "nextID (manager (example_state w)) = 1" for w :: nat
    by (simp add: example_state_def newSessionManager_def)
  ultimately show ?thesis
    using signing_works [OF serving_facts(1,2), of 1 CKM_ECDSA "replicate 32 1" AlgECDSASHA256
        "replicate 32 1" True "[1, 2, 3]" 4 "[0, 0, 0, 0]"] serving_facts(3)
    by (auto simp: overwrite_def word_less_nat_alt)
qed

end
