(* ===== verification/Sign_Threads.thy ===== *)
theory Sign_Threads
  imports Threads Workflow
begin

text \<open>
  Calls that open a session and sign, run at the same time. A step is what the code does under
  a lock, an exchange with the server and the write of what it brought, or one access to a field
  of the session, which the code reads and writes through a pointer without a lock. On its own
  a thread does what the call does; on sessions of their own any number of threads sign as if
  each was alone; on one session they get in each other's way.
\<close>

section \<open>Talking to the server\<close>

definition getToken_thread :: "'w services \<Rightarrow> ('w backend, string) thread" where
  "getToken_thread sv =
     bindT (atom (getE config)) (\<lambda>cfg.
       if Method (Auth cfg) = authMethodToken then
         (if Token (Auth cfg) = [] then throwT (Errorf ''token auth: no token provided'')
          else returnT (Token (Auth cfg)))
       else
         bindT (atom (accessToken sv)) (\<lambda>token.
           if token \<noteq> [] then returnT token
           else if ClientID (Auth cfg) \<noteq> [] \<and> ClientSecret (Auth cfg) \<noteq> [] then
             bindT (atom (authenticate sv (ClientID (Auth cfg)) (ClientSecret (Auth cfg)))) (\<lambda>_.
               bindT (atom (accessToken sv)) (\<lambda>token.
                 if token \<noteq> [] then returnT token
                 else throwT (Errorf ''token not available after re-auth'')))
           else throwT (Errorf ''no access token and no credentials available for re-auth'')))"

definition retry_after_thread ::
  "'w services \<Rightarrow> string \<Rightarrow> (string \<Rightarrow> ('w backend, 'a) thread) \<Rightarrow> go_error \<Rightarrow> ('w backend, 'a) thread" where
  "retry_after_thread sv token fn err =
     (case errorsAsAPI err of
        None \<Rightarrow> throwT err
      | Some apiErr \<Rightarrow>
          if StatusCode apiErr \<noteq> 401 then throwT err
          else bindT (atom (getE config)) (\<lambda>cfg.
            if Method (Auth cfg) = authMethodToken then throwT err
            else
              bindT (if ClientID (Auth cfg) \<noteq> [] \<and> ClientSecret (Auth cfg) \<noteq> []
                     then atom (authenticate sv (ClientID (Auth cfg)) (ClientSecret (Auth cfg)))
                     else returnT ()) (\<lambda>_.
                bindT (atom (accessToken sv)) (\<lambda>newToken.
                  if newToken = [] \<or> newToken = token then throwT err
                  else fn newToken))))"

definition withRetryOnAuth_thread ::
  "'w services \<Rightarrow> (string \<Rightarrow> ('w backend, 'a) thread) \<Rightarrow> ('w backend, 'a) thread" where
  "withRetryOnAuth_thread sv fn =
     bindT (getToken_thread sv) (\<lambda>token.
       catchT (fn token) (\<lambda>r.
         case r of Inr x \<Rightarrow> returnT x | Inl err \<Rightarrow> retry_after_thread sv token fn err))"

definition getSigners_thread :: "'w services \<Rightarrow> ('w backend, signerResponse list) thread" where
  "getSigners_thread sv =
     bindT (atom (bindE (nowE sv) (\<lambda>t. getE (\<lambda>st. sc_get (signer_cache st) t)))) (\<lambda>hit.
       case hit of
         Some signers \<Rightarrow> returnT signers
       | None \<Rightarrow>
           bindT (withRetryOnAuth_thread sv (\<lambda>token. atom (apiE (\<lambda>c. ListSigners sv c token)))) (\<lambda>signers.
           bindT (atom (bindE (nowE sv) (\<lambda>t.
             modifyE (\<lambda>st. st\<lparr>signer_cache := sc_set (signer_cache st) signers t\<rparr>)))) (\<lambda>_.
             returnT signers)))"

definition getSignerBySlot_thread :: "'w services \<Rightarrow> uint \<Rightarrow> ('w backend, signerResponse) thread" where
  "getSignerBySlot_thread sv slotIndex =
     bindT (getSigners_thread sv) (\<lambda>signers.
       if slotIndex \<ge> of_nat (length signers)
       then throwT (Wrapf ''slot'' ErrSlotIDInvalid)
       else returnT (signers ! unat slotIndex))"

definition requestApproval_thread ::
  "'w services \<Rightarrow> signerResponse \<Rightarrow> string \<Rightarrow> ('w backend, approvalRequestResponse) thread" where
  "requestApproval_thread sv signer dataHash =
     bindT (atom (getE config)) (\<lambda>cfg.
     bindT (atom (signingCtx sv)) (\<lambda>signCtx.
     bindT (getToken_thread sv) (\<lambda>token.
       atom (apiE (\<lambda>c. RequestApproval sv c token (ID signer)
         (approvalFor (Approval cfg) signCtx dataHash))))))"

definition reportApprovalDenial_thread ::
  "'w services \<Rightarrow> signerResponse \<Rightarrow> bytes \<Rightarrow> go_error \<Rightarrow> ('w backend, bool) thread" where
  "reportApprovalDenial_thread sv signer signData signErr =
     (case errorsAsAPI signErr of
        None \<Rightarrow> returnT False
      | Some apiErr \<Rightarrow>
          if \<not> IsApprovalRequired apiErr then returnT False
          else if HasPendingRequest apiErr then returnT True
          else bindT (atom (getE config)) (\<lambda>cfg.
            if SigningCount (Approval cfg) = 0 \<and> SigningDuration (Approval cfg) = []
            then returnT True
            else catchT (requestApproval_thread sv signer (hexEncode (sum256 signData)))
                   (\<lambda>r. returnT True)))"

definition sendSign_thread ::
  "'w services \<Rightarrow> signerResponse \<Rightarrow> bytes \<Rightarrow> signRequest \<Rightarrow> ('w backend, bytes) thread" where
  "sendSign_thread sv signer signData req =
     catchT (withRetryOnAuth_thread sv (\<lambda>token. atom (apiE (\<lambda>c. client_Sign sv c token (ID signer) req)))) (\<lambda>r.
       case r of
         Inl err \<Rightarrow> bindT (reportApprovalDenial_thread sv signer signData err) (\<lambda>_. throwT err)
       | Inr signature \<Rightarrow>
           (case b64_decode signature of
              None \<Rightarrow> throwT (Wrapf ''failed to decode signature'' (Errorf ''base64''))
            | Some sig \<Rightarrow> returnT sig))"

section \<open>The session\<close>

text \<open>Opening: the handle is taken and the session entered under the lock of the map.\<close>

definition openIn_thread :: "'w services \<Rightarrow> uint \<Rightarrow> ('w backend, uint) thread" where
  "openIn_thread sv slot =
     bindT (atom (bindE (getE (\<lambda>st. sm_open (manager st) slot)) (\<lambda>(handle, m).
       bindE (updateManager (\<lambda>_. m)) (\<lambda>_. returnE handle)))) (\<lambda>handle.
     bindT (atom (getE config)) (\<lambda>cfg.
     bindT (atom (accessToken sv)) (\<lambda>token.
     bindT (if isTokenAuth cfg \<or> (hasConfigCredentials cfg \<and> token \<noteq> [])
            then atom (updateManager (\<lambda>m. setLoggedIn m handle True)) else returnT ()) (\<lambda>_.
       returnT handle))))"

definition OpenSession_thread :: "'w services \<Rightarrow> uint \<Rightarrow> uint \<Rightarrow> ('w backend, uint) thread" where
  "OpenSession_thread sv slot flags = bindT (getSignerBySlot_thread sv slot) (\<lambda>_. openIn_thread sv slot)"

text \<open>
  A read through the pointer \<open>x\<close> was found at. The object outlives its entry in the map: a
  session that was closed meanwhile is read as it was found.
\<close>

definition field :: "uint \<Rightarrow> session \<Rightarrow> (session \<Rightarrow> 'a) \<Rightarrow> ('w backend, 'a) thread" where
  "field sh x f = atom (getE (\<lambda>st. f (case sm_get (manager st) sh of None \<Rightarrow> x | Some y \<Rightarrow> y)))"

definition assign :: "uint \<Rightarrow> (session \<Rightarrow> session) \<Rightarrow> ('w backend, unit) thread" where
  "assign sh f = atom (updateSession sh f)"

definition clearSignState_thread :: "uint \<Rightarrow> ('w backend, unit) thread" where
  "clearSignState_thread sh =
     bindT (assign sh (\<lambda>s. s\<lparr>signActive := False\<rparr>)) (\<lambda>_.
     bindT (assign sh (\<lambda>s. s\<lparr>signMech := 0\<rparr>)) (\<lambda>_.
     bindT (assign sh (\<lambda>s. s\<lparr>signKeyIndex := 0\<rparr>)) (\<lambda>_.
     bindT (assign sh (\<lambda>s. s\<lparr>signBuffer := []\<rparr>)) (\<lambda>_.
       assign sh (\<lambda>s. s\<lparr>cachedSignature := None\<rparr>)))))"

definition clearSignStateByHandle_thread :: "uint \<Rightarrow> ('w backend, unit) thread" where
  "clearSignStateByHandle_thread sh =
     bindT (atom (getE (\<lambda>st. sm_get (manager st) sh))) (\<lambda>found.
       case found of None \<Rightarrow> returnT () | Some _ \<Rightarrow> clearSignState_thread sh)"

definition cacheSignResult_thread :: "uint \<Rightarrow> bytes \<Rightarrow> ('w backend, unit) thread" where
  "cacheSignResult_thread sh sig =
     bindT (atom (getE (\<lambda>st. sm_get (manager st) sh))) (\<lambda>found.
       case found of None \<Rightarrow> returnT ()
       | Some _ \<Rightarrow> assign sh (\<lambda>s. s\<lparr>cachedSignature := Some sig\<rparr>))"

section \<open>Signing\<close>

definition SignInit_thread :: "uint \<Rightarrow> uint list \<Rightarrow> uint \<Rightarrow> ('w backend, unit) thread" where
  "SignInit_thread sh mechanism key =
     bindT (atom (getSession sh)) (\<lambda>sess.
     bindT (field sh sess loggedIn) (\<lambda>yes.
       if \<not> yes then throwT ErrNotLoggedIn
       else bindT (field sh sess signActive) (\<lambda>active.
         if active then throwT ErrSignAlreadyActive
         else if mechanism = [] then throwT (Errorf ''no mechanism provided'')
         else
           bindT (assign sh (\<lambda>s. s\<lparr>signActive := True\<rparr>)) (\<lambda>_.
           bindT (assign sh (\<lambda>s. s\<lparr>signMech := hd mechanism\<rparr>)) (\<lambda>_.
           bindT (assign sh (\<lambda>s. s\<lparr>signKeyIndex := snd (parseObjectHandle key)\<rparr>)) (\<lambda>_.
             assign sh (\<lambda>s. s\<lparr>signBuffer := []\<rparr>)))))))"

text \<open>The code reads the mechanism anew for every question it asks about it.\<close>

definition prepareSign_thread :: "uint \<Rightarrow> session \<Rightarrow> bytes \<Rightarrow> ('w backend, string \<times> bytes \<times> bool) thread" where
  "prepareSign_thread sh sess data =
     bindT (field sh sess signMech) (\<lambda>mech.
       if mech = CKM_RSA_PKCS then
         (case parseDigestInfo data of
            Inl err \<Rightarrow> throwT (Errorf ''invalid DigestInfo for CKM_RSA_PKCS'')
          | Inr (alg, digest) \<Rightarrow> returnT (alg, digest, True))
       else bindT (field sh sess signMech) (\<lambda>mech.
         if mech = CKM_ECDSA then
           returnT (if length data = 48 then AlgECDSASHA384
              else if length data = 64 then AlgECDSASHA512 else AlgECDSASHA256, data, True)
         else bindT (field sh sess signMech) (\<lambda>mech.
           if isPSSMechanism mech then
             bindT (field sh sess signMech) (\<lambda>mech.
               case mechanismToAlgorithm mech of Inl err \<Rightarrow> throwT err | Inr alg \<Rightarrow> returnT (alg, data, False))
           else
             bindT (field sh sess signMech) (\<lambda>mech.
               case mechanismToAlgorithm mech of
                 Inl err \<Rightarrow> throwT err
               | Inr alg \<Rightarrow> bindT (field sh sess signMech) (\<lambda>mech.
                   returnT (alg, hashDataForMechanism mech data, True))))))"

definition signInternal_thread :: "'w services \<Rightarrow> uint \<Rightarrow> session \<Rightarrow> bytes \<Rightarrow> ('w backend, bytes) thread" where
  "signInternal_thread sv sh sess data =
     bindT (field sh sess signKeyIndex) (\<lambda>slot.
     bindT (getSignerBySlot_thread sv slot) (\<lambda>signer.
     bindT (prepareSign_thread sh sess data) (\<lambda>(algorithm, signData, isDigest).
     bindT (atom (signingCtx sv)) (\<lambda>signCtx.
       sendSign_thread sv signer signData (signRequestFor algorithm signData isDigest signCtx)))))"

text \<open>
  The kept signature is read twice: to see whether there is one, and to hand it out. The second
  time it may be gone; a nil slice is an empty one.
\<close>

definition finishSign_thread ::
  "'w services \<Rightarrow> uint \<Rightarrow> (session \<Rightarrow> ('w backend, bytes) thread) \<Rightarrow> ('w backend, bytes) thread" where
  "finishSign_thread sv sh data =
     bindT (atom (getSession sh)) (\<lambda>sess.
     bindT (field sh sess signActive) (\<lambda>active.
       if \<not> active then throwT ErrSignNotActive
       else bindT (field sh sess cachedSignature) (\<lambda>kept.
         if kept \<noteq> None then
           bindT (field sh sess cachedSignature) (\<lambda>sig.
           bindT (clearSignState_thread sh) (\<lambda>_.
             returnT (case sig of None \<Rightarrow> [] | Some sig \<Rightarrow> sig)))
         else
           bindT (data sess) (\<lambda>d.
           catchT (signInternal_thread sv sh sess d) (\<lambda>r.
             case r of
               Inl err \<Rightarrow> bindT (clearSignState_thread sh) (\<lambda>_. throwT err)
             | Inr sig \<Rightarrow> returnT sig)))))"

definition Sign_thread :: "'w services \<Rightarrow> uint \<Rightarrow> bytes \<Rightarrow> ('w backend, bytes) thread" where
  "Sign_thread sv sh data = finishSign_thread sv sh (\<lambda>_. returnT data)"

definition SignFinal_thread :: "'w services \<Rightarrow> uint \<Rightarrow> ('w backend, bytes) thread" where
  "SignFinal_thread sv sh = finishSign_thread sv sh (\<lambda>sess. field sh sess signBuffer)"

definition EstimateSignatureSize_thread :: "'w services \<Rightarrow> uint \<Rightarrow> ('w backend, nat) thread" where
  "EstimateSignatureSize_thread sv sh =
     bindT (atom (getE (\<lambda>st. sm_get (manager st) sh))) (\<lambda>found.
       case found of
         None \<Rightarrow> returnT 512
       | Some sess \<Rightarrow>
           bindT (field sh sess signKeyIndex) (\<lambda>slot.
           catchT (getSignerBySlot_thread sv slot) (\<lambda>r.
             case r of Inl err \<Rightarrow> returnT 512 | Inr signer \<Rightarrow> returnT (signatureSize signer))))"

section \<open>The exported functions\<close>

definition guarded_thread :: "'m \<Rightarrow> ('w backend, ck_rv \<times> 'm) thread \<Rightarrow> ('w backend, ck_rv \<times> 'm) thread" where
  "guarded_thread mem body =
     bindT (atom checkInitialized) (\<lambda>rv. if rv \<noteq> CKR_OK then returnT (rv, mem) else body)"

definition orElse_thread ::
  "('s, 'a) thread \<Rightarrow> 'm \<Rightarrow> ('a \<Rightarrow> ('s, ck_rv \<times> 'm) thread) \<Rightarrow> ('s, ck_rv \<times> 'm) thread" where
  "orElse_thread f mem k =
     catchT f (\<lambda>r. case r of Inl err \<Rightarrow> returnT (mapErrorToRV err, mem) | Inr x \<Rightarrow> k x)"

definition C_OpenSession_thread ::
  "'w services \<Rightarrow> uint \<Rightarrow> uint \<Rightarrow> uint option \<Rightarrow> ('w backend, ck_rv \<times> uint option) thread" where
  "C_OpenSession_thread sv slot flags phSession =
     guarded_thread phSession
       (if phSession = None then returnT (CKR_ARGUMENTS_BAD, phSession)
        else orElse_thread (OpenSession_thread sv slot flags) phSession (\<lambda>handle.
          returnT (CKR_OK, Some handle)))"

definition C_SignInit_thread :: "uint \<Rightarrow> uint option \<Rightarrow> uint \<Rightarrow> ('w backend, ck_rv \<times> unit) thread" where
  "C_SignInit_thread hSession pMechanism hKey =
     guarded_thread ()
       (case pMechanism of
          None \<Rightarrow> returnT (CKR_ARGUMENTS_BAD, ())
        | Some mechType \<Rightarrow>
            catchT (SignInit_thread hSession [mechType] hKey) (\<lambda>r.
              case r of
                Inl err \<Rightarrow>
                  if errorsIs err ErrNotLoggedIn then returnT (CKR_USER_NOT_LOGGED_IN, ())
                  else returnT (mapErrorToRV err, ())
              | Inr _ \<Rightarrow> returnT (CKR_OK, ())))"

definition querySize_thread :: "'w services \<Rightarrow> uint \<Rightarrow> ('w backend, ck_rv \<times> signature_out) thread" where
  "querySize_thread sv sh =
     bindT (EstimateSignatureSize_thread sv sh) (\<lambda>size. returnT (CKR_OK, None, Some (of_nat size)))"

definition handSignature_thread ::
  "uint \<Rightarrow> bytes \<Rightarrow> uint \<Rightarrow> bytes \<Rightarrow> ('w backend, ck_rv \<times> signature_out) thread" where
  "handSignature_thread sh buf len sig =
     (if unat len < length sig then
        bindT (cacheSignResult_thread sh sig) (\<lambda>_.
          returnT (CKR_BUFFER_TOO_SMALL, Some buf, Some (of_nat (length sig))))
      else if sig = [] then Crashed
      else
        bindT (clearSignStateByHandle_thread sh) (\<lambda>_.
          returnT (CKR_OK, Some (overwrite sig buf), Some (of_nat (length sig)))))"

definition C_Sign_thread ::
  "'w services \<Rightarrow> uint \<Rightarrow> bytes option \<Rightarrow> uint \<Rightarrow> bytes option \<Rightarrow> uint option \<Rightarrow>
   ('w backend, ck_rv \<times> signature_out) thread" where
  "C_Sign_thread sv hSession pData ulDataLen pSignature pulSignatureLen =
     guarded_thread (pSignature, pulSignatureLen)
       (case (pData, pulSignatureLen) of
          (Some mem, Some len) \<Rightarrow>
            (case pSignature of
               None \<Rightarrow> querySize_thread sv hSession
             | Some buf \<Rightarrow>
                 (case goBytes mem ulDataLen of
                    Panics \<Rightarrow> Crashed
                  | Returns data \<Rightarrow>
                      orElse_thread (Sign_thread sv hSession data) (pSignature, pulSignatureLen) (\<lambda>sig.
                        handSignature_thread hSession buf len sig)))
        | _ \<Rightarrow> returnT (CKR_ARGUMENTS_BAD, pSignature, pulSignatureLen))"

definition C_SignFinal_thread ::
  "'w services \<Rightarrow> uint \<Rightarrow> bytes option \<Rightarrow> uint option \<Rightarrow> ('w backend, ck_rv \<times> signature_out) thread" where
  "C_SignFinal_thread sv hSession pSignature pulSignatureLen =
     guarded_thread (pSignature, pulSignatureLen)
       (case pulSignatureLen of
          None \<Rightarrow> returnT (CKR_ARGUMENTS_BAD, pSignature, pulSignatureLen)
        | Some len \<Rightarrow>
            (case pSignature of
               None \<Rightarrow> querySize_thread sv hSession
             | Some buf \<Rightarrow>
                 orElse_thread (SignFinal_thread sv hSession) (pSignature, pulSignatureLen) (\<lambda>sig.
                   handSignature_thread hSession buf len sig)))"

section \<open>On its own a thread does what the call does\<close>

lemma runT_catch_cases:
  "runT (case_sum f g r) = case_sum (\<lambda>x. runT (f x)) (\<lambda>x. runT (g x)) r"
  "runT (case_option t h v) = case_option (runT t) (\<lambda>x. runT (h x)) v"
  "runT (case_prod k p) = case_prod (\<lambda>x y. runT (k x y)) p"
  "runT (case_outcome h' t' w) = case_outcome (\<lambda>x. runT (h' x)) (runT t') w"
  by (auto split: sum.splits option.splits prod.splits outcome.splits)

lemmas sequential = runT_catch runT_bind runT_simps runT_if runT_catch_cases

lemma runT_server:
  "runT (getToken_thread sv) = getToken sv"
  "runT (retry_after_thread sv token fn err) = retry_after sv token (\<lambda>token. runT (fn token)) err"
  "runT (withRetryOnAuth_thread sv fn) = withRetryOnAuth sv (\<lambda>token. runT (fn token))"
  unfolding getToken_thread_def getToken_def retry_after_thread_def retry_after_def
    withRetryOnAuth_thread_def withRetryOnAuth_def
  by (simp_all only: sequential)

lemma runT_signers:
  "runT (getSigners_thread sv) = getSigners sv"
  "runT (getSignerBySlot_thread sv i) = getSignerBySlot sv i"
  "runT (requestApproval_thread sv signer h) = requestApproval sv signer h"
  "runT (reportApprovalDenial_thread sv signer d e) = reportApprovalDenial sv signer d e"
  "runT (sendSign_thread sv signer d req) = sendSign sv signer d req"
  unfolding getSigners_thread_def getSigners_def getSignerBySlot_thread_def getSignerBySlot_def
    requestApproval_thread_def requestApproval_def reportApprovalDenial_thread_def
    reportApprovalDenial_def sendSign_thread_def sendSign_def
  by (simp_all only: sequential runT_server bindE_assoc)

lemma written_session:
  "(\<lambda>x. x\<lparr>signActive := False, signMech := 0, signKeyIndex := 0, signBuffer := [],
      cachedSignature := None\<rparr>) = clearSign"
  "(\<lambda>x. x\<lparr>signActive := True, signMech := m, signKeyIndex := i, signBuffer := []\<rparr>) = startSign m i"
  by (simp_all add: fun_eq_iff clearSign_def startSign_def)

lemma runT_writes:
  "runT (clearSignState_thread sh) = clearSignState sh"
  "runT (clearSignStateByHandle_thread sh) = clearSignStateByHandle sh"
  "runT (cacheSignResult_thread sh sig) = cacheSignResult sh sig"
proof -
  show *: "runT (clearSignState_thread sh) = (clearSignState sh :: ('w, unit) call)"
    by (simp add: clearSignState_thread_def assign_def sequential fun_eq_iff updateSession_def
        updateManager_def sm_update_twice clearSignState_run written_session)
  show "runT (clearSignStateByHandle_thread sh) = (clearSignStateByHandle sh :: ('w, unit) call)"
    unfolding clearSignStateByHandle_thread_def clearSignStateByHandle_def by (simp only: sequential *)
  show "runT (cacheSignResult_thread sh sig) = (cacheSignResult sh sig :: ('w, unit) call)"
    unfolding cacheSignResult_thread_def cacheSignResult_def assign_def by (simp only: sequential)
qed

lemma field_run:
  "sm_get (manager s) sh = Some x \<Longrightarrow> bindE (runT (field sh x f)) k s = k (f x) s"
  by (simp add: field_def)

lemma prepareSign_thread_run:
  "sm_get (manager s) sh = Some x \<Longrightarrow>
   runT (prepareSign_thread sh x d) s = Returns (prepareSign (signMech x) d, s)"
  by (auto simp: prepareSign_thread_def prepareSign_def sequential field_run split: sum.splits)

lemma signInternal_thread_run:
  assumes "sm_get (manager s) sh = Some x"
  shows "runT (signInternal_thread sv sh x d) s = signInternal sv x d s"
proof (cases "getSignerBySlot sv (signKeyIndex x) s")
  case (Returns p)
  obtain r t where p: "p = (r, t)" by (cases p)
  have "sm_get (manager t) sh = Some x"
    using keepsD [OF core_getSignerBySlot Returns [unfolded p]] assms by (simp add: same_core_def)
  note run = prepareSign_thread_run [OF this]
  show ?thesis
  proof (cases r)
    case (Inr signer)
    with Returns p run show ?thesis
      by (cases "prepareSign (signMech x) d")
        (auto simp: signInternal_thread_def signInternal_def sequential runT_signers field_run assms
          bindE_Inr bindE_Inl)
  qed (use Returns p in \<open>simp add: signInternal_thread_def signInternal_def sequential runT_signers
      field_run assms bindE_Inl\<close>)
qed (simp add: signInternal_thread_def signInternal_def sequential runT_signers field_run assms bindE_Panics)

lemma finishSign_thread_run:
  assumes "\<And>x s. sm_get (manager s) sh = Some x \<Longrightarrow> runT (g x) s = Returns (Inr (data x), s)"
  shows "runT (finishSign_thread sv sh g) = finishSign sv sh data"
proof
  fix s
  show "runT (finishSign_thread sv sh g) s = finishSign sv sh data s"
  proof (cases "sm_get (manager s) sh")
    case (Some x)
    then show ?thesis
      by (auto simp: finishSign_thread_def finishSign_def sequential bind_getSession field_run
          runT_writes bindE_Inr assms [OF Some] catchE_def signInternal_thread_run
          split: option.splits outcome.splits sum.splits)
  qed (simp add: finishSign_thread_def finishSign_def sequential bind_getSession)
qed

lemma runT_Sign:
  "runT (Sign_thread sv sh d) = Sign sv sh d" "runT (SignFinal_thread sv sh) = SignFinal sv sh"
  unfolding Sign_thread_def Sign_def SignFinal_thread_def SignFinal_def
  by (rule finishSign_thread_run, simp add: field_def)+

lemma runT_EstimateSignatureSize: "runT (EstimateSignatureSize_thread sv sh) = EstimateSignatureSize sv sh"
  by (auto simp: EstimateSignatureSize_thread_def EstimateSignatureSize_def sequential runT_signers
      fun_eq_iff field_run split: option.splits)

lemma runT_SignInit: "runT (SignInit_thread sh m k) = SignInit sh m k"
proof
  fix s
  show "runT (SignInit_thread sh m k) s = SignInit sh m k s"
    by (cases "sm_get (manager s) sh")
      (simp_all add: SignInit_thread_def SignInit_def sequential bind_getSession field_run assign_def
        updateSession_def updateManager_def sm_update_twice written_session)
qed

lemma runT_frame:
  "runT (guarded_thread mem body) = guarded mem (runT body)"
  "runT (orElse_thread t mem k) = orElse (runT t) mem (\<lambda>x. runT (k x))"
  "runT (querySize_thread sv sh) = querySize sv sh"
  "runT (handSignature_thread sh buf len sig) = handSignature sh buf len sig"
  unfolding guarded_thread_def guarded_def orElse_thread_def orElse_def querySize_thread_def
    querySize_def handSignature_thread_def handSignature_def
  by (simp_all only: sequential runT_EstimateSignatureSize runT_writes runT.simps panicE_def)

lemma runT_OpenSession: "runT (OpenSession_thread sv slot flags) = OpenSession sv slot flags"
  unfolding OpenSession_thread_def OpenSession_def openIn_thread_def openIn_def
  by (simp only: sequential runT_signers bindE_assoc bind_simps(1) split_def)

lemma thread_runs:
  fixes sv :: "'w services"
  shows "runT (C_SignInit_thread h mech key) = (C_SignInit h mech key :: ('w, ck_rv \<times> unit) call)"
    and "runT (C_Sign_thread sv h data n buf len) = C_Sign sv h data n buf len"
    and "runT (C_SignFinal_thread sv h buf len) = C_SignFinal sv h buf len"
    and "runT (C_OpenSession_thread sv slot flags ph) = C_OpenSession sv slot flags ph"
proof -
  show "runT (C_OpenSession_thread sv slot flags ph) = C_OpenSession sv slot flags ph"
    unfolding C_OpenSession_thread_def C_OpenSession_def by (simp only: sequential runT_frame runT_OpenSession)
  show "runT (C_SignInit_thread h mech key) = (C_SignInit h mech key :: ('w, ck_rv \<times> unit) call)"
    unfolding C_SignInit_thread_def C_SignInit_def by (simp only: sequential runT_frame runT_SignInit)
  show "runT (C_SignFinal_thread sv h buf len) = C_SignFinal sv h buf len"
    unfolding C_SignFinal_thread_def C_SignFinal_def by (simp only: sequential runT_frame runT_Sign)
  have "(case goBytes mem n of Panics \<Rightarrow> runT Crashed | Returns d \<Rightarrow> k d)
      = bindE (liftOut (goBytes mem n)) k" for mem and k :: "bytes \<Rightarrow> ('w, ck_rv \<times> signature_out) call"
    by (auto simp: liftOut_def bindE_Panics fun_eq_iff split: outcome.splits)
  then show "runT (C_Sign_thread sv h data n buf len) = C_Sign sv h data n buf len"
    unfolding C_Sign_thread_def C_Sign_def by (simp only: sequential runT_frame runT_Sign)
qed

section \<open>Threads on sessions of their own\<close>

text \<open>
  A thread starts without a session, or holds one. A thread that holds a session relies on the
  others to leave it alone, and all rely on each other to keep \<open>I\<close>. A thread that holds none may
  take the next handle; otherwise it promises to leave all sessions but its own alone.
\<close>

datatype footprint = Opening | Holding uint

definition session_rely ::
  "('w backend \<Rightarrow> bool) \<Rightarrow> footprint \<Rightarrow> 'w backend \<Rightarrow> 'w backend \<Rightarrow> bool" where
  "session_rely I f s t \<longleftrightarrow>
     (I s \<longrightarrow> I t) \<and> (\<forall>h. f = Holding h \<longrightarrow> sm_get (manager t) h = sm_get (manager s) h)"

definition session_guar ::
  "('w backend \<Rightarrow> bool) \<Rightarrow> footprint \<Rightarrow> footprint \<Rightarrow> 'w backend \<Rightarrow> 'w backend \<Rightarrow> bool" where
  "session_guar I f k s t \<longleftrightarrow>
     (I s \<longrightarrow> I t)
     \<and> (\<forall>h. k \<noteq> Holding h \<longrightarrow> sm_get (manager t) h = sm_get (manager s) h)
     \<and> (k = f \<and> nextID (manager t) = nextID (manager s)
        \<or> f = Opening \<and> k = Holding (nextID (manager s)) \<and> nextID (manager t) = nextID (manager s) + 1)"

text \<open>
  Footprints are compatible when no session is held twice, the handles held lie between the first
  handle \<open>N\<close> of the run and the next one, and the counter lasts for those who will open.
\<close>

definition disjoint_sessions :: "nat \<Rightarrow> 'w backend \<Rightarrow> footprint list \<Rightarrow> bool" where
  "disjoint_sessions N s fs \<longleftrightarrow>
     N \<le> unat (nextID (manager s))
     \<and> unat (nextID (manager s)) + card {i. i < length fs \<and> fs ! i = Opening} < 2 ^ 64
     \<and> (\<forall>i < length fs. \<forall>h. fs ! i = Holding h \<longrightarrow>
          N \<le> unat h \<and> unat h < unat (nextID (manager s)) \<and> (\<forall>j < length fs. fs ! j = Holding h \<longrightarrow> j = i))"

lemma disjoint_open:
  assumes "disjoint_sessions N s fs" "i < length fs" "fs ! i = Opening"
    "nextID (manager t) = nextID (manager s) + 1"
  shows "disjoint_sessions N t (fs[i := Holding (nextID (manager s))])"
proof -
  let ?O = "{i. i < length fs \<and> fs ! i = Opening}" and ?n = "nextID (manager s)"
  let ?fs = "fs[i := Holding ?n]"
  have old: "N \<le> unat ?n" "unat ?n + card ?O < 2 ^ 64"
    "\<And>a h. a < length fs \<Longrightarrow> fs ! a = Holding h \<Longrightarrow> N \<le> unat h \<and> unat h < unat ?n
       \<and> (\<forall>b < length fs. fs ! b = Holding h \<longrightarrow> b = a)"
    using assms(1) unfolding disjoint_sessions_def by blast+
  have "i \<in> ?O" using assms(2,3) by simp
  then have card: "card (?O - {i}) = card ?O - 1" "card ?O \<noteq> 0" by (auto simp del: mem_Collect_eq)
  have fewer: "{j. j < length ?fs \<and> ?fs ! j = Opening} = ?O - {i}"
    using assms(2) by (auto simp: nth_list_update)
  have "Suc (unat ?n) < 2 ^ 64" using old(2) card(2) by linarith
  then have t: "unat (nextID (manager t)) = Suc (unat ?n)" using assms(4) by (simp add: unat_word_ariths)
  have held: "N \<le> unat h \<and> unat h < Suc (unat ?n) \<and> (\<forall>b < length ?fs. ?fs ! b = Holding h \<longrightarrow> b = a)"
    if "a < length ?fs" "?fs ! a = Holding h" for a h
  proof (cases "a = i")
    case True
    then have "h = ?n" using that by simp
    moreover have "fs ! b \<noteq> Holding ?n" if "b < length fs" for b using old(3) [OF that, of ?n] by blast
    ultimately show ?thesis using old(1) True assms(2) by (auto simp: nth_list_update split: if_splits)
  next
    case False
    then have a: "a < length fs" "fs ! a = Holding h" using that by simp_all
    have "h \<noteq> ?n" using old(3) [OF a] by auto
    then show ?thesis using old(3) [OF a] assms(2) by (auto simp: nth_list_update split: if_splits)
  qed
  show ?thesis
    unfolding disjoint_sessions_def t fewer card(1)
  proof (intro conjI)
    show "Suc (unat ?n) + (card ?O - 1) < 2 ^ 64" using old(2) card(2) by linarith
  qed (use old(1) held in auto)
qed

lemma disjoint_step:
  assumes "disjoint_sessions N s fs" "i < length fs" "session_guar I (fs ! i) k s t"
  shows "disjoint_sessions N t (fs[i := k])"
proof -
  from assms(3) consider "k = fs ! i" "nextID (manager t) = nextID (manager s)"
    | "fs ! i = Opening" "k = Holding (nextID (manager s))" "nextID (manager t) = nextID (manager s) + 1"
    unfolding session_guar_def by blast
  then show ?thesis
  proof cases
    case 1
    with assms(1) show ?thesis by (simp add: disjoint_sessions_def)
  next
    case 2
    with disjoint_open [OF assms(1,2)] show ?thesis by simp
  qed
qed

lemma disjoint_rely:
  assumes "disjoint_sessions N s fs" "i < length fs" "session_guar I (fs ! i) k s t"
    "j < length fs" "j \<noteq> i"
  shows "session_rely I (fs ! j) s t"
proof -
  have "k \<noteq> Holding h" if "fs ! j = Holding h" for h
  proof
    assume k: "k = Holding h"
    have "unat h < unat (nextID (manager s))" "fs ! i \<noteq> Holding h"
      using assms(1,2,4,5) that unfolding disjoint_sessions_def by blast+
    with k assms(3) show False unfolding session_guar_def by auto
  qed
  with assms(3) show ?thesis unfolding session_guar_def session_rely_def by blast
qed

interpretation own: parallel "session_rely I" "session_guar I" "disjoint_sessions N" for I N
proof unfold_locales
  show "disjoint_sessions N t (fs[i := k])"
    if "disjoint_sessions N s fs" "i < length fs" "session_guar I (fs ! i) k s t" for s t :: "'a backend" and fs i k
    using that by (rule disjoint_step)
  show "session_rely I (fs ! j) s t"
    if "disjoint_sessions N s fs" "i < length fs" "session_guar I (fs ! i) k s t" "j < length fs" "j \<noteq> i"
    for s t :: "'a backend" and fs i k j
    using that by (rule disjoint_rely)
qed (auto simp: session_rely_def)

text \<open>Where a thread is: without a session, or at its session \<open>h\<close>, which is \<open>x\<close>.\<close>

datatype place = Start | At uint session

definition owns :: "('w backend \<Rightarrow> bool) \<Rightarrow> place \<Rightarrow> footprint \<Rightarrow> 'w backend \<Rightarrow> bool" where
  "owns I p f s \<longleftrightarrow> I s \<and>
     (case p of Start \<Rightarrow> f = Opening | At h x \<Rightarrow> f = Holding h \<and> sm_get (manager s) h = Some x)"

lemma owns_stable: "stable (session_rely I) (owns I p)"
  by (auto simp: stable_def owns_def session_rely_def split: place.splits)

text \<open>
  A thread leads from a place to one of the values \<open>V\<close> within \<open>n\<close> steps, among threads on other
  sessions, and to the place that goes with the value; it delivers when the place is the same
  for all values.
\<close>

definition leads ::
  "('w backend \<Rightarrow> bool) \<Rightarrow> place \<Rightarrow> nat \<Rightarrow> ('w backend, 'a) thread \<Rightarrow> 'a set \<Rightarrow> ('a \<Rightarrow> place) \<Rightarrow> bool" where
  "leads I p n t V q \<longleftrightarrow>
     satisfies (session_rely I) (session_guar I) (owns I p) n t
       (\<lambda>r f s. \<exists>v. r = Inr v \<and> v \<in> V \<and> owns I (q v) f s)"

abbreviation delivers ::
  "('w backend \<Rightarrow> bool) \<Rightarrow> place \<Rightarrow> nat \<Rightarrow> ('w backend, 'a) thread \<Rightarrow> 'a set \<Rightarrow> place \<Rightarrow> bool" where
  "delivers I p n t V q \<equiv> leads I p n t V (\<lambda>_. q)"

lemma leads_le: "leads I p m t V q \<Longrightarrow> m \<le> n \<Longrightarrow> leads I p n t V q"
  unfolding leads_def satisfies_def by (blast intro: on_course_le)

lemmas delivers_le = leads_le [where q = "\<lambda>_. y" for y]

lemma leads_return: "v \<in> V \<Longrightarrow> q v = p \<Longrightarrow> leads I p n (returnT v) V q"
  unfolding leads_def by (rule own.satisfies_return [OF owns_stable]) auto

lemma delivers_return: "v \<in> V \<Longrightarrow> delivers I p 0 (returnT v) V p"
  by (rule leads_return) simp_all

lemma leads_catch:
  assumes "leads I p m t V q" "\<And>v. v \<in> V \<Longrightarrow> leads I (q v) n (k (Inr v)) W z"
  shows "leads I p (m + n) (catchT t k) W z"
  unfolding leads_def
proof (rule own.satisfies_catch [OF assms(1) [unfolded leads_def]])
  fix r
  show "satisfies (session_rely I) (session_guar I)
     (\<lambda>f s. \<exists>v. r = Inr v \<and> v \<in> V \<and> owns I (q v) f s) n (k r)
     (\<lambda>r f s. \<exists>v. r = Inr v \<and> v \<in> W \<and> owns I (z v) f s)"
    using assms(2) unfolding leads_def satisfies_def by blast
qed

lemma leads_bind:
  "leads I p m t V q \<Longrightarrow> (\<And>v. v \<in> V \<Longrightarrow> leads I (q v) n (k v) W z) \<Longrightarrow> leads I p (m + n) (bindT t k) W z"
  unfolding bindT_def by (rule leads_catch) simp_all

lemmas delivers_catch = leads_catch [where q = "\<lambda>_. y" for y]
lemmas delivers_bind = leads_bind [where q = "\<lambda>_. y" for y]

lemma delivers_map:
  assumes "delivers I p n t {v} q" "g v = w"
  shows "delivers I p n (bindT t (\<lambda>v. returnT (g v))) {w} q"
  by (rule delivers_le [OF delivers_bind [where n = 0, OF assms(1)]])
    (use assms(2) in \<open>auto intro: delivers_return\<close>)

lemma leads_atom:
  assumes "\<And>f s. owns I p f s \<Longrightarrow> \<exists>v k t. g s = Returns (Inr v, t) \<and> v \<in> V
    \<and> session_guar I f k s t \<and> owns I (q v) k t"
  shows "leads I p 1 (atom g) V q"
  unfolding leads_def
proof (rule own.satisfies_atom [OF owns_stable])
  show "stable (session_rely I) (\<lambda>f s. \<exists>v. r = Inr v \<and> v \<in> V \<and> owns I (q v) f s)" for r
    using owns_stable [of I] unfolding stable_def by blast
qed (use assms in fastforce)

text \<open>A step that leaves the sessions alone.\<close>

lemma delivers_shared:
  assumes "\<And>s. I s \<Longrightarrow> \<exists>v t. g s = Returns (Inr v, t) \<and> v \<in> V \<and> I t \<and> manager t = manager s"
  shows "delivers I p 1 (atom g) V p"
proof (rule leads_atom)
  fix f s
  assume "owns I p f s"
  moreover from this obtain v t where "g s = Returns (Inr v, t)" "v \<in> V" "I t"
    "manager t = manager s" using assms unfolding owns_def by blast
  ultimately show "\<exists>v k t. g s = Returns (Inr v, t) \<and> v \<in> V
      \<and> session_guar I f k s t \<and> owns I p k t"
    by (intro exI [of _ v] exI [of _ f] exI [of _ t])
      (simp add: session_guar_def owns_def split: place.splits)
qed

lemma delivers_session:
  assumes "\<And>s m. I (s\<lparr>manager := m\<rparr>) = I s"
  shows
  "delivers I (At h x) 1 (field h x' f) {f x} (At h x)"
  "delivers I (At h x) 1 (assign h g) {()} (At h (g x))"
  "delivers I (At h x) 1 (atom (getSession h)) {x} (At h x)"
  "delivers I (At h x) 1 (atom (getE (\<lambda>st. sm_get (manager st) h))) {Some x} (At h x)"
  unfolding field_def assign_def
  by (rule leads_atom; auto simp: assms owns_def session_guar_def getSession_run updateSession_def
      updateManager_def sm_get_update)+

section \<open>Signing on a session of one's own\<close>

text \<open>What the threads keep: the process serves, and its configuration stays what it is.\<close>

definition process ::
  "'w services \<Rightarrow> restyClient \<Rightarrow> string \<Rightarrow> signerResponse list \<Rightarrow> Config \<Rightarrow> 'w backend \<Rightarrow> bool" where
  "process sv c token signers cfg s \<longleftrightarrow> steady sv c token signers s \<and> config s = cfg"

lemma process_manager [simp]: "process sv c token signers cfg (s\<lparr>manager := m\<rparr>) = process sv c token signers cfg s"
  by (simp add: process_def)

lemma process_world [simp]: "process sv c token signers cfg (s\<lparr>world := w\<rparr>) = process sv c token signers cfg s"
  by (simp add: process_def)

lemmas on_session = delivers_session [OF process_manager]

lemma delivers_process:
  "delivers (process sv c token signers cfg) p 1 (atom checkInitialized) {CKR_OK} p"
  "delivers (process sv c token signers cfg) p 1 (atom (getE config)) {cfg} p"
  "Method (Auth cfg) \<noteq> authMethodToken \<Longrightarrow>
    delivers (process sv c token signers cfg) p 1 (atom (accessToken sv)) {token} p"
  "delivers (process sv c token signers cfg) p 1 (atom (signingCtx sv)) UNIV p"
proof -
  show "delivers (process sv c token signers cfg) p 1 (atom (signingCtx sv)) UNIV p"
  proof (rule delivers_shared)
    fix s
    assume s: "process sv c token signers cfg s"
    obtain ctx t where "signingCtx sv s = Returns (Inr ctx, t)" "same_core s t" "client t = client s"
      by (rule signingCtx_result)
    moreover from this have "signer_cache t = signer_cache s"
      by (auto simp: signingCtx_def split: prod.splits)
    ultimately show "\<exists>v t. signingCtx sv s = Returns (Inr v, t) \<and> v \<in> UNIV
        \<and> process sv c token signers cfg t \<and> manager t = manager s"
      using s by (auto simp: process_def steady_def same_core_def)
  qed
qed (rule delivers_shared; auto simp: process_def steady_def authenticated_def accessToken_def
    GetAccessToken_def checkInitialized_def)+

lemma delivers_getToken:
  assumes "authenticated sv token cfg cl"
  shows "delivers (process sv c token signers cfg) p 2 (getToken_thread sv) {token} p"
proof (cases "Method (Auth cfg) = authMethodToken")
  case True
  with assms have tok: "Token (Auth cfg) = token" "token \<noteq> []" by (simp_all add: authenticated_def)
  show ?thesis unfolding getToken_thread_def
    by (rule delivers_le [OF delivers_bind [where n = 0, OF delivers_process(2)]])
      (simp_all add: True tok delivers_return)
next
  case False
  with assms have tok: "token \<noteq> []" by (simp_all add: authenticated_def)
  have "delivers (process sv c token signers cfg) p (1 + 0)
     (bindT (atom (accessToken sv)) (\<lambda>token. if token \<noteq> [] then returnT token else k token)) {token} p" for k
    by (rule delivers_bind [OF delivers_process(3) [OF False]]) (simp add: tok delivers_return)
  note access = this [unfolded add_0_right]
  show ?thesis unfolding getToken_thread_def
    by (rule delivers_le [OF delivers_bind [where n = 1, OF delivers_process(2)]])
      (use access in \<open>auto simp: False\<close>)
qed

text \<open>A request the server answers, in three steps at most.\<close>

lemma delivers_request:
  assumes "authenticated sv token cfg cl"
    "\<And>w. \<exists>resp w' v. sv_http sv (rq c token) w = (Inr resp, w') \<and> rs_status resp \<le> 399
      \<and> decode resp = Inr v \<and> v \<in> V"
  shows "delivers (process sv c token signers cfg) p 3
    (withRetryOnAuth_thread sv (\<lambda>token. atom (apiE (\<lambda>cl. send sv op (rq (httpClient cl) token) decode)))) V p"
proof -
  let ?send = "atom (apiE (\<lambda>cl. send sv op (rq (httpClient cl) token) decode))"
  have send: "delivers (process sv c token signers cfg) p 1 ?send V p"
  proof (rule delivers_shared)
    fix s
    assume s: "process sv c token signers cfg s"
    obtain resp w v where "sv_http sv (rq c token) (world s) = (Inr resp, w)" "rs_status resp \<le> 399"
      "decode resp = Inr v" "v \<in> V" using assms(2) by blast
    with s show "\<exists>u t. apiE (\<lambda>cl. send sv op (rq (httpClient cl) token) decode) s = Returns (Inr u, t)
        \<and> u \<in> V \<and> process sv c token signers cfg t \<and> manager t = manager s"
      by (auto simp: apiE_def send_def process_def steady_def)
  qed
  have "delivers (process sv c token signers cfg) p (1 + 0) (catchT ?send (\<lambda>r.
      case r of Inr x \<Rightarrow> returnT x | Inl err \<Rightarrow> k err)) V p" for k
    by (rule delivers_catch [OF send]) (simp add: delivers_return)
  note answered = this [unfolded add_0_right]
  show ?thesis unfolding withRetryOnAuth_thread_def
    by (rule delivers_le [OF delivers_bind [where n = 1, OF delivers_getToken [OF assms(1)]]])
      (use answered in auto)
qed

lemma delivers_getSigners:
  assumes "authenticated sv token cfg cl" "lists sv c token signers"
  shows "delivers (process sv c token signers cfg) p 5 (getSigners_thread sv) {signers} p"
proof -
  let ?I = "process sv c token signers cfg"
  have get: "delivers ?I p 1 (atom (bindE (nowE sv) (\<lambda>t. getE (\<lambda>st. sc_get (signer_cache st) t)))) {None, Some signers} p"
    by (rule delivers_shared)
      (auto simp: nowE_def bindE_def catchE_def process_def steady_def sc_get_def
        split: prod.splits option.splits if_splits)
  have set: "delivers ?I p 1 (atom (bindE (nowE sv) (\<lambda>t.
      modifyE (\<lambda>st. st\<lparr>signer_cache := sc_set (signer_cache st) signers t\<rparr>)))) {()} p"
    by (rule delivers_shared)
      (auto simp: nowE_def bindE_def catchE_def process_def steady_def sc_set_def split: prod.splits)
  have list: "delivers ?I p 3 (withRetryOnAuth_thread sv (\<lambda>token. atom (apiE (\<lambda>c. ListSigners sv c token)))) {signers} p"
    unfolding ListSigners_def
    by (rule delivers_request [where rq = listSigners_request, OF assms(1)])
      (use assms(2) in \<open>auto simp: lists_def\<close>)
  let ?fetch = "bindT (withRetryOnAuth_thread sv (\<lambda>token. atom (apiE (\<lambda>c. ListSigners sv c token)))) (\<lambda>signers.
      bindT (atom (bindE (nowE sv) (\<lambda>t.
        modifyE (\<lambda>st. st\<lparr>signer_cache := sc_set (signer_cache st) signers t\<rparr>)))) (\<lambda>_. returnT signers))"
  have "delivers ?I p (3 + (1 + 0)) ?fetch {signers} p"
  proof (rule delivers_bind [OF list])
    fix v
    assume v: "v \<in> {signers}"
    show "delivers ?I p (1 + 0) (bindT (atom (bindE (nowE sv) (\<lambda>t.
        modifyE (\<lambda>st. st\<lparr>signer_cache := sc_set (signer_cache st) v t\<rparr>)))) (\<lambda>_. returnT v)) {signers} p"
      by (rule delivers_bind) (use v set in \<open>auto intro: delivers_return\<close>)
  qed
  then have fetch: "delivers ?I p 4 ?fetch {signers} p" by (rule delivers_le) simp
  have hit: "delivers ?I p 4 (returnT signers) {signers} p"
    by (rule delivers_le [OF delivers_return]) simp_all
  show ?thesis unfolding getSigners_thread_def
    by (rule delivers_le [OF delivers_bind [where n = 4, OF get]]) (use fetch hit in auto)
qed

lemma delivers_getSignerBySlot:
  assumes "authenticated sv token cfg cl" "lists sv c token signers" "unat i < length signers"
    "length signers < 2 ^ 64"
  shows "delivers (process sv c token signers cfg) p 5 (getSignerBySlot_thread sv i) {signers ! unat i} p"
proof -
  have "\<not> of_nat (length signers) \<le> i" using assms(3,4) by (simp add: word_le_of_nat_iff)
  then show ?thesis unfolding getSignerBySlot_thread_def
    by (intro delivers_le [OF delivers_bind [where n = 0, OF delivers_getSigners [OF assms(1,2)]]])
      (simp_all add: delivers_return)
qed

lemma delivers_answer: "delivers I p n (returnT v) {v} p"
  by (rule delivers_le [OF delivers_return]) simp_all

lemma delivers_read:
  assumes "delivers (process sv c token signers cfg) (At h x) n (k (f x)) V q"
  shows "delivers (process sv c token signers cfg) (At h x) (Suc n) (bindT (field h sess f) k) V q"
  by (rule delivers_le [OF delivers_bind [where n = n, OF on_session(1)]]) (use assms in auto)

lemma delivers_prepareSign:
  assumes "prepareSign (signMech x) d = Inr v"
  shows "delivers (process sv c token signers cfg) (At h x) 5 (prepareSign_thread h sess d) {v} (At h x)"
proof -
  have "delivers (process sv c token signers cfg) (At h x) (Suc (Suc (Suc (Suc (Suc 0)))))
      (prepareSign_thread h sess d) {v} (At h x)"
    unfolding prepareSign_thread_def
    using assms
    by (auto simp: prepareSign_def intro!: delivers_answer delivers_read split: if_splits sum.splits)
  then show ?thesis by (simp add: numeral_eq_Suc)
qed

lemma delivers_sendSign:
  assumes "authenticated sv token cfg cl" "signs sv c token (ID signer) alg data dig sig"
  shows "delivers (process sv c token signers cfg) p 3
    (sendSign_thread sv signer data (signRequestFor alg data dig ctx)) {sig} p"
proof -
  let ?rq = "\<lambda>c token. sign_request c token (ID signer) (signRequestFor alg data dig ctx)"
  have "delivers (process sv c token signers cfg) p 3
    (withRetryOnAuth_thread sv (\<lambda>token. atom (apiE (\<lambda>c. client_Sign sv c token (ID signer)
      (signRequestFor alg data dig ctx))))) {body. b64_decode body = Some sig} p"
    unfolding client_Sign_def
    by (rule delivers_request [where rq = ?rq, OF assms(1)])
      (use assms(2) in \<open>auto simp: signs_def\<close>)
  then show ?thesis unfolding sendSign_thread_def
    by (rule delivers_le [OF delivers_catch [where n = 0]]) (auto intro: delivers_return)
qed

lemma delivers_signInternal:
  assumes "authenticated sv token cfg cl" "lists sv c token signers" "unat (signKeyIndex x) < length signers"
    "length signers < 2 ^ 64" "prepareSign (signMech x) d = Inr (alg, data, dig)"
    "signs sv c token (ID (signers ! unat (signKeyIndex x))) alg data dig sig"
  shows "delivers (process sv c token signers cfg) (At h x) 15 (signInternal_thread sv h sess d) {sig} (At h x)"
proof -
  let ?I = "process sv c token signers cfg"
  have send: "delivers ?I (At h x) (1 + 3) (bindT (atom (signingCtx sv)) (\<lambda>ctx.
      sendSign_thread sv (signers ! unat (signKeyIndex x)) data (signRequestFor alg data dig ctx))) {sig} (At h x)"
    by (rule delivers_bind [OF delivers_process(4)]) (rule delivers_sendSign [OF assms(1,6)])
  have prepare: "delivers ?I (At h x) (5 + (1 + 3)) (bindT (prepareSign_thread h sess d) (\<lambda>(alg, data, dig).
      bindT (atom (signingCtx sv)) (\<lambda>ctx.
      sendSign_thread sv (signers ! unat (signKeyIndex x)) data (signRequestFor alg data dig ctx)))) {sig} (At h x)"
    by (rule delivers_bind [OF delivers_prepareSign [OF assms(5)]]) (use send in auto)
  have "delivers ?I (At h x) (Suc (5 + (5 + (1 + 3)))) (signInternal_thread sv h sess d) {sig} (At h x)"
    unfolding signInternal_thread_def
    by (rule delivers_read, rule delivers_bind [OF delivers_getSignerBySlot [OF assms(1-4)]])
      (use prepare in auto)
  then show ?thesis by simp
qed

lemma delivers_clearByHandle:
  "delivers (process sv c token signers cfg) (At h x) 6 (clearSignStateByHandle_thread h) {()} (At h (clearSign x))"
proof -
  have "delivers (process sv c token signers cfg) (At h x) (1 + (1 + (1 + (1 + 1)))) (clearSignState_thread h) {()}
     (At h (x\<lparr>signActive := False, signMech := 0, signKeyIndex := 0, signBuffer := [], cachedSignature := None\<rparr>))"
    unfolding clearSignState_thread_def by (intro delivers_bind [OF on_session(2)] on_session(2))
  note writes = this [folded clearSign_def]
  have "delivers (process sv c token signers cfg) (At h x) 5 (clearSignState_thread h) {()} (At h (clearSign x))"
    by (rule delivers_le [OF writes]) simp
  then show ?thesis unfolding clearSignStateByHandle_thread_def
    by (intro delivers_le [OF delivers_bind [where n = 5, OF on_session(4)]]) auto
qed

lemma delivers_C_Sign:
  assumes "authenticated sv token cfg cl" "lists sv c token signers" "unat (signKeyIndex x) < length signers"
    "length signers < 2 ^ 64" "prepareSign (signMech x) d = Inr (alg, data, dig)"
    "signs sv c token (ID (signers ! unat (signKeyIndex x))) alg data dig sig"
    "signActive x" "cachedSignature x = None" "length d < 2 ^ 31" "sig \<noteq> []" "length sig \<le> unat n"
  shows "delivers (process sv c token signers cfg) (At h x) 25
    (C_Sign_thread sv h (Some d) (of_nat (length d)) (Some buf) (Some n))
    {(CKR_OK, Some (overwrite sig buf), Some (of_nat (length sig)))} (At h (clearSign x))"
proof -
  let ?I = "process sv c token signers cfg"
  have "delivers ?I (At h x) (15 + 0) (catchT (signInternal_thread sv h x d) (\<lambda>r. case r of
      Inl err \<Rightarrow> bindT (clearSignState_thread h) (\<lambda>_. throwT err) | Inr sig \<Rightarrow> returnT sig)) {sig} (At h x)"
    by (rule delivers_catch [OF delivers_signInternal [OF assms(1-6)]]) (simp add: delivers_answer)
  then have "delivers ?I (At h x) (Suc (Suc (15 + 0))) (bindT (field h x signActive) (\<lambda>active.
      if \<not> active then throwT ErrSignNotActive
      else bindT (field h x cachedSignature) (\<lambda>kept. if kept \<noteq> None then k
        else catchT (signInternal_thread sv h x d) (\<lambda>r. case r of
          Inl err \<Rightarrow> bindT (clearSignState_thread h) (\<lambda>_. throwT err) | Inr sig \<Rightarrow> returnT sig)))) {sig} (At h x)" for k
    using assms(7,8)
    by (intro delivers_read) (simp only: not_True_eq_False if_False, intro delivers_read, simp)
  then have sign: "delivers ?I (At h x) (1 + Suc (Suc (15 + 0))) (Sign_thread sv h d) {sig} (At h x)"
    unfolding Sign_thread_def finishSign_thread_def bindT_basic
    by (intro delivers_bind [OF on_session(3)]) auto
  have "delivers ?I (At h x) 6 (handSignature_thread h buf n sig)
      {(CKR_OK, Some (overwrite sig buf), Some (of_nat (length sig)))} (At h (clearSign x))"
    unfolding handSignature_thread_def using assms(10,11)
    by (auto intro: delivers_map [OF delivers_clearByHandle])
  then have "delivers ?I (At h x) (1 + Suc (Suc (15 + 0)) + 6)
     (orElse_thread (Sign_thread sv h d) mem (\<lambda>sig. handSignature_thread h buf n sig))
     {(CKR_OK, Some (overwrite sig buf), Some (of_nat (length sig)))} (At h (clearSign x))" for mem
    unfolding orElse_thread_def by (intro delivers_catch [OF sign]) auto
  then have "delivers ?I (At h x) (1 + (1 + Suc (Suc (15 + 0)) + 6))
    (C_Sign_thread sv h (Some d) (of_nat (length d)) (Some buf) (Some n))
    {(CKR_OK, Some (overwrite sig buf), Some (of_nat (length sig)))} (At h (clearSign x))"
    unfolding C_Sign_thread_def guarded_thread_def using assms(9)
    by (intro delivers_bind [OF delivers_process(1)]) (auto simp: goBytes_length)
  then show ?thesis by simp
qed

lemma delivers_C_SignInit:
  assumes "loggedIn x" "\<not> signActive x"
  shows "delivers (process sv c token signers cfg) (At h x) 8 (C_SignInit_thread h (Some mech) key)
    {(CKR_OK, ())} (At h (startSign mech (snd (parseObjectHandle key)) x))"
proof -
  let ?I = "process sv c token signers cfg" and ?i = "snd (parseObjectHandle key)"
  have "delivers ?I (At h x) (1 + (1 + (1 + 1)))
     (bindT (assign h (\<lambda>s. s\<lparr>signActive := True\<rparr>)) (\<lambda>_.
      bindT (assign h (\<lambda>s. s\<lparr>signMech := mech\<rparr>)) (\<lambda>_.
      bindT (assign h (\<lambda>s. s\<lparr>signKeyIndex := ?i\<rparr>)) (\<lambda>_.
        assign h (\<lambda>s. s\<lparr>signBuffer := []\<rparr>))))) {()}
     (At h (x\<lparr>signActive := True, signMech := mech, signKeyIndex := ?i, signBuffer := []\<rparr>))"
    by (intro delivers_bind [OF on_session(2)] on_session(2))
  note writes = this [folded startSign_def]
  have "delivers ?I (At h x) (1 + Suc (Suc (1 + (1 + (1 + 1))))) (SignInit_thread h [mech] key) {()} (At h (startSign mech ?i x))"
    unfolding SignInit_thread_def
    by (rule delivers_bind [OF on_session(3)]) (use assms writes in \<open>auto intro!: delivers_read\<close>)
  then have "delivers ?I (At h x) (1 + Suc (Suc (1 + (1 + (1 + 1)))) + 0) (catchT (SignInit_thread h [mech] key) (\<lambda>r.
      case r of Inl err \<Rightarrow> k err | Inr _ \<Rightarrow> returnT (CKR_OK, ()))) {(CKR_OK, ())} (At h (startSign mech ?i x))" for k
    by (rule delivers_catch) (simp add: delivers_answer)
  then have "delivers ?I (At h x) (1 + (1 + Suc (Suc (1 + (1 + (1 + 1)))) + 0)) (C_SignInit_thread h (Some mech) key)
    {(CKR_OK, ())} (At h (startSign mech ?i x))"
    unfolding C_SignInit_thread_def guarded_thread_def
    by (intro delivers_bind [OF delivers_process(1)]) auto
  then show ?thesis by (rule delivers_le) simp
qed


section \<open>Opening a session of one's own\<close>

lemma leads_open:
  fixes I :: "'w backend \<Rightarrow> bool"
  assumes "\<And>s m. I (s\<lparr>manager := m\<rparr>) = I s"
  shows "leads I Start 1 (atom (bindE (getE (\<lambda>st. sm_open (manager st) slot)) (\<lambda>(handle, m).
      bindE (updateManager (\<lambda>_. m)) (\<lambda>_. returnE handle)))) UNIV (\<lambda>h. At h (new_session slot))"
proof (rule leads_atom)
  fix f and s :: "'w backend"
  let ?h = "nextID (manager s)" and ?t = "s\<lparr>manager := snd (sm_open (manager s) slot)\<rparr>"
  assume "owns I Start f s"
  then have "session_guar I f (Holding ?h) s ?t" "owns I (At ?h (new_session slot)) (Holding ?h) ?t"
    by (auto simp: owns_def session_guar_def assms sm_open_def sm_get_def Let_def)
  then show "\<exists>v k t. bindE (getE (\<lambda>st. sm_open (manager st) slot)) (\<lambda>(handle, m).
      bindE (updateManager (\<lambda>_. m)) (\<lambda>_. returnE handle)) s = Returns (Inr v, t)
    \<and> v \<in> UNIV \<and> session_guar I f k s t \<and> owns I (At v (new_session slot)) k t"
    by (intro exI [of _ ?h] exI [of _ "Holding ?h"] exI [of _ ?t])
      (simp add: sm_open_def updateManager_def Let_def)
qed

lemma delivers_login:
  assumes "\<And>s m. I (s\<lparr>manager := m\<rparr>) = I s"
  shows "delivers I (At h x) 1 (atom (updateManager (\<lambda>m. setLoggedIn m h True))) {()} (At h (x\<lparr>loggedIn := True\<rparr>))"
  by (rule leads_atom) (auto simp: assms owns_def session_guar_def updateManager_def setLoggedIn_def sm_get_update)

lemma leads_openIn:
  assumes "authenticated sv token cfg cl"
  shows "leads (process sv c token signers cfg) Start 4 (openIn_thread sv slot) UNIV
    (\<lambda>h. At h ((new_session slot)\<lparr>loggedIn := True\<rparr>))"
proof -
  let ?I = "process sv c token signers cfg" and ?x = "new_session slot"
  let ?A = "{a. isTokenAuth cfg \<or> hasConfigCredentials cfg \<and> a \<noteq> []}"
  have access: "delivers ?I (At h ?x) 1 (atom (accessToken sv)) ?A (At h ?x)" for h
    using assms by (intro delivers_shared)
      (auto simp: process_def steady_def authenticated_def accessToken_def GetAccessToken_def isTokenAuth_def
        split: if_splits)
  have login: "leads ?I (At h ?x) (1 + 0) (bindT (atom (updateManager (\<lambda>m. setLoggedIn m h True))) (\<lambda>_. returnT h))
      UNIV (\<lambda>h. At h (?x\<lparr>loggedIn := True\<rparr>))" for h
    by (rule delivers_bind [OF delivers_login [OF process_manager]]) (simp add: leads_return)
  have token: "leads ?I (At h ?x) (1 + (1 + 0)) (bindT (atom (accessToken sv)) (\<lambda>token.
      bindT (if isTokenAuth cfg \<or> hasConfigCredentials cfg \<and> token \<noteq> []
        then atom (updateManager (\<lambda>m. setLoggedIn m h True)) else returnT ()) (\<lambda>_. returnT h)))
      UNIV (\<lambda>h. At h (?x\<lparr>loggedIn := True\<rparr>))" for h
    by (rule delivers_bind [OF access]) (use login in \<open>simp only: mem_Collect_eq if_True\<close>)
  have "leads ?I (At h ?x) (1 + (1 + (1 + 0))) (bindT (atom (getE config)) (\<lambda>cfg.
      bindT (atom (accessToken sv)) (\<lambda>token.
      bindT (if isTokenAuth cfg \<or> hasConfigCredentials cfg \<and> token \<noteq> []
        then atom (updateManager (\<lambda>m. setLoggedIn m h True)) else returnT ()) (\<lambda>_. returnT h))))
      UNIV (\<lambda>h. At h (?x\<lparr>loggedIn := True\<rparr>))" for h
    by (rule delivers_bind [OF delivers_process(2)]) (use token in simp)
  then have "leads ?I Start (1 + (1 + (1 + (1 + 0)))) (openIn_thread sv slot) UNIV
      (\<lambda>h. At h (?x\<lparr>loggedIn := True\<rparr>))"
    unfolding openIn_thread_def by (rule leads_bind [OF leads_open [OF process_manager]])
  then show ?thesis by (rule leads_le) simp
qed

lemma leads_C_OpenSession:
  assumes "authenticated sv token cfg cl" "lists sv c token signers" "unat i < length signers"
    "length signers < 2 ^ 64"
  shows "leads (process sv c token signers cfg) Start 10 (C_OpenSession_thread sv i flags (Some ph))
    {r. \<exists>h. r = (CKR_OK, Some h)} (\<lambda>r. At (the (snd r)) ((new_session i)\<lparr>loggedIn := True\<rparr>))"
proof -
  let ?I = "process sv c token signers cfg" and ?x = "(new_session i)\<lparr>loggedIn := True\<rparr>"
  have "leads ?I Start (5 + 4) (OpenSession_thread sv i flags) UNIV (\<lambda>h. At h ?x)"
    unfolding OpenSession_thread_def
    by (rule delivers_bind [OF delivers_getSignerBySlot [OF assms]]) (rule leads_openIn [OF assms(1)])
  then have "leads ?I Start (5 + 4 + 0) (orElse_thread (OpenSession_thread sv i flags) (Some ph)
      (\<lambda>handle. returnT (CKR_OK, Some handle))) {r. \<exists>h. r = (CKR_OK, Some h)} (\<lambda>r. At (the (snd r)) ?x)"
    unfolding orElse_thread_def by (rule leads_catch) (simp add: leads_return)
  then have "leads ?I Start (1 + (5 + 4 + 0)) (C_OpenSession_thread sv i flags (Some ph))
      {r. \<exists>h. r = (CKR_OK, Some h)} (\<lambda>r. At (the (snd r)) ?x)"
    unfolding C_OpenSession_thread_def guarded_thread_def
    by (intro delivers_bind [OF delivers_process(1)]) auto
  then show ?thesis by (rule leads_le) simp
qed

section \<open>Any number of threads\<close>

text \<open>
  What one thread of an application does: it opens a session on the slot of its key, starts an
  operation and signs \<open>jData\<close> into a buffer of its own. \<open>jSig\<close> is the signature the server has for it.
\<close>

record job =
  jSlot :: uint
  jMech :: uint
  jData :: bytes
  jBuf :: bytes
  jLen :: uint
  jSig :: bytes

type_synonym job_output = "(ck_rv \<times> uint option) \<times> ck_rv \<times> ck_rv \<times> signature_out"

definition sign_job :: "'w services \<Rightarrow> job \<Rightarrow> uint \<Rightarrow> ('w backend, ck_rv \<times> ck_rv \<times> signature_out) thread" where
  "sign_job sv j h =
     bindT (C_SignInit_thread h (Some (jMech j)) (makePrivateKeyHandle (jSlot j))) (\<lambda>(rv, _).
     bindT (C_Sign_thread sv h (Some (jData j)) (of_nat (length (jData j))) (Some (jBuf j)) (Some (jLen j)))
       (\<lambda>r. returnT (rv, r)))"

definition job_thread :: "'w services \<Rightarrow> job \<Rightarrow> ('w backend, job_output) thread" where
  "job_thread sv j =
     bindT (C_OpenSession_thread sv (jSlot j) CKF_SERIAL_SESSION (Some 0)) (\<lambda>(rv, out).
     bindT (sign_job sv j (case out of None \<Rightarrow> 0 | Some h \<Rightarrow> h)) (\<lambda>r. returnT ((rv, out), r)))"

definition job_result :: "job \<Rightarrow> uint \<Rightarrow> job_output" where
  "job_result j h = ((CKR_OK, Some h), CKR_OK, CKR_OK,
     Some (overwrite (jSig j) (jBuf j)), Some (of_nat (length (jSig j))))"

text \<open>The slot exists, and the server signs the data of the job with its key.\<close>

definition doable ::
  "'w services \<Rightarrow> restyClient \<Rightarrow> string \<Rightarrow> signerResponse list \<Rightarrow> job \<Rightarrow> bool" where
  "doable sv c token signers j \<longleftrightarrow>
     unat (jSlot j) < length signers \<and> jSlot j < 2 ^ 28
     \<and> (\<exists>alg data dig. prepareSign (jMech j) (jData j) = Inr (alg, data, dig)
          \<and> signs sv c token (ID (signers ! unat (jSlot j))) alg data dig (jSig j))
     \<and> length (jData j) < 2 ^ 31 \<and> jSig j \<noteq> [] \<and> length (jSig j) \<le> unat (jLen j)"

lemma leads_job:
  assumes "doable sv c token signers j" "authenticated sv token cfg cl" "lists sv c token signers"
    "length signers < 2 ^ 64"
  shows "\<exists>q. leads (process sv c token signers cfg) Start 43 (job_thread sv j) (range (job_result j)) q
    \<and> (\<forall>h. \<exists>x. q (job_result j h) = At h x)"
proof -
  let ?I = "process sv c token signers cfg" and ?key = "makePrivateKeyHandle (jSlot j)"
  from assms(1) obtain alg data dig where slot: "unat (jSlot j) < length signers" "jSlot j < 2 ^ 28"
    and sign: "prepareSign (jMech j) (jData j) = Inr (alg, data, dig)"
      "signs sv c token (ID (signers ! unat (jSlot j))) alg data dig (jSig j)"
    and room: "length (jData j) < 2 ^ 31" "jSig j \<noteq> []" "length (jSig j) \<le> unat (jLen j)"
    by (auto simp: doable_def)
  have key: "snd (parseObjectHandle ?key) = jSlot j" using parse_make(1) [OF slot(2)] by simp
  let ?x = "(new_session (jSlot j))\<lparr>loggedIn := True\<rparr>" and ?r = "(CKR_OK, CKR_OK,
      Some (overwrite (jSig j) (jBuf j)), Some (of_nat (length (jSig j))))"
  let ?y = "startSign (jMech j) (jSlot j) ?x"
  have x: "loggedIn ?x" "\<not> signActive ?x" by (simp_all add: new_session_def)
  have y: "signKeyIndex ?y = jSlot j" "signMech ?y = jMech j" "signActive ?y" "cachedSignature ?y = None"
    by (simp_all add: startSign_def new_session_def)
  note signed = delivers_C_Sign [OF assms(2,3), of ?y, unfolded y(1,2), OF slot(1) assms(4) sign y(3,4) room]
  have "delivers ?I (At h ?x) (8 + 25) (sign_job sv j h) {?r} (At h (clearSign ?y))" for h
    unfolding sign_job_def
    by (rule delivers_bind [OF delivers_C_SignInit [OF x, of sv c token signers cfg h "jMech j" ?key, unfolded key]])
      (auto intro!: delivers_map [OF signed])
  note job = this
  let ?q = "\<lambda>out. At (the (snd (fst out))) (clearSign ?y)"
  have "leads ?I (At h ?x) (8 + 25 + 0) (bindT (sign_job sv j h) (\<lambda>r. returnT ((CKR_OK, Some h), r)))
      (range (job_result j)) ?q" for h
    by (rule delivers_bind [OF job]) (auto simp: job_result_def intro: leads_return)
  then have "leads ?I Start (10 + (8 + 25 + 0)) (job_thread sv j) (range (job_result j)) ?q"
    unfolding job_thread_def by (intro leads_bind [OF leads_C_OpenSession [OF assms(2,3) slot(1) assms(4)]]) auto
  then have "leads ?I Start 43 (job_thread sv j) (range (job_result j)) ?q" by (rule leads_le) simp
  then show ?thesis by (intro exI [of _ ?q]) (simp add: job_result_def)
qed

text \<open>
  C6: in an initialized process that has a token, any number of threads, each of which opens a
  session and signs with the key of its slot, all succeed, on sessions that are new and different,
  and each receives its own signature, in whatever order the threads take their steps: each is
  done when it has been given 43. This is under the conditions of a single signature, for each of
  them: the server answers every request for its signers with the same list, which a cached list
  is too, and every sign request of these threads; the slot of each exists and fits a handle,
  its mechanism, its data (shorter than 2^31 bytes) and its buffer are acceptable and the signature
  is not empty; and the counter of handles lasts for all of them.
\<close>

theorem concurrent_signing:
  assumes "steady sv c token signers s" "lists sv c token signers" "length signers < 2 ^ 64"
    "sm_inv (manager s)" "unat (nextID (manager s)) + length js < 2 ^ 64"
    "\<forall>j \<in> set js. doable sv c token signers j"
    "\<forall>i < length js. 43 \<le> count_list sched i"
  shows "\<exists>hs t. run_pool sched (map (job_thread sv) js) s
      = (map (\<lambda>(j, h). Finished (Inr (job_result j h))) (zip js hs), t)
    \<and> length hs = length js \<and> distinct hs \<and> (\<forall>h \<in> set hs. sm_get (manager s) h = None)"
proof -
  let ?I = "process sv c token signers (config s)" and ?N = "unat (nextID (manager s))"
  let ?ts = "map (job_thread sv) js" and ?fs = "replicate (length js) Opening"
  let ?Q = "\<lambda>i r f (t :: 'a backend). \<exists>h. r = Inr (job_result (js ! i) h) \<and> f = Holding h"
  obtain us u where run: "run_pool sched ?ts s = (us, u)" by (cases "run_pool sched ?ts s")
  have auth: "authenticated sv token (config s) (client s)" using assms(1) by (simp add: steady_def)
  have "{i. i < length js \<and> ?fs ! i = Opening} = {..<length js}" by auto
  then have start: "disjoint_sessions ?N s ?fs" using assms(5) by (simp add: disjoint_sessions_def)
  have course: "on_course (session_rely ?I) (session_guar ?I) (?Q i) 43 (?ts ! i) (?fs ! i) s"
    if "i < length ?ts" for i
  proof -
    have "doable sv c token signers (js ! i)" using assms(6) that by simp
    from leads_job [OF this auth assms(2,3)] obtain q where
      "leads ?I Start 43 (job_thread sv (js ! i)) (range (job_result (js ! i))) q"
      and q: "\<And>h. \<exists>x. q (job_result (js ! i) h) = At h x" by blast
    moreover have "owns ?I Start Opening s" using assms(1) by (simp add: owns_def process_def)
    ultimately have "on_course (session_rely ?I) (session_guar ?I)
        (\<lambda>r f s. \<exists>v. r = Inr v \<and> v \<in> range (job_result (js ! i)) \<and> owns ?I (q v) f s) 43
        (job_thread sv (js ! i)) Opening s" unfolding leads_def satisfies_def by blast
    moreover have "\<exists>h. r = Inr (job_result (js ! i) h) \<and> f = Holding h"
      if result: "\<exists>v. r = Inr v \<and> v \<in> range (job_result (js ! i)) \<and> owns ?I (q v) f t" for r f t
    proof -
      from result obtain h where h: "r = Inr (job_result (js ! i) h)" "owns ?I (q (job_result (js ! i) h)) f t"
        by blast
      obtain x where "q (job_result (js ! i) h) = At h x" using q by blast
      with h show ?thesis by (simp add: owns_def)
    qed
    ultimately have "on_course (session_rely ?I) (session_guar ?I) (?Q i) 43 (job_thread sv (js ! i)) Opening s"
      by (rule on_course_post)
    with that show ?thesis by simp
  qed
  obtain ks where ks: "length us = length js" "length ks = length js" "disjoint_sessions ?N u ks"
    "\<forall>i < length js. \<exists>r. us ! i = Finished r \<and> ?Q i r (ks ! i) u"
    using own.run_pool_ends [OF run start _ course] assms(7) by auto
  then obtain H where H: "\<And>i. i < length js \<Longrightarrow> us ! i = Finished (Inr (job_result (js ! i) (H i))) \<and> ks ! i = Holding (H i)"
    by metis
  let ?hs = "map H [0..<length js]"
  have "us = map (\<lambda>(j, h). Finished (Inr (job_result j h))) (zip js ?hs)"
    using H ks(1) by (intro nth_equalityI) auto
  moreover have "distinct ?hs"
    using H ks(2,3) by (auto simp: distinct_map inj_on_def disjoint_sessions_def)
  moreover have "sm_get (manager s) h = None" if "h \<in> set ?hs" for h
  proof -
    from that obtain i where "i < length js" "h = H i" by auto
    then have "?N \<le> unat h" using H ks(2,3) by (auto simp: disjoint_sessions_def)
    then show ?thesis using assms(4) by (auto simp: sm_inv_unat sm_get_def not_le [symmetric])
  qed
  ultimately show ?thesis using run by (intro exI [of _ ?hs] exI [of _ u]) auto
qed

text \<open>The instance: two threads, with the RSA signer and the EC signer, that take turns.\<close>

definition two_jobs :: "job list" where
  "two_jobs =
     [\<lparr>jSlot = 0, jMech = CKM_SHA256_RSA_PKCS_PSS, jData = [7], jBuf = [0, 0, 0, 0], jLen = 4, jSig = [1, 2, 3]\<rparr>,
      \<lparr>jSlot = 1, jMech = CKM_ECDSA, jData = replicate 32 1, jBuf = [0, 0, 0], jLen = 3, jSig = [1, 2, 3]\<rparr>]"

lemma two_jobs_doable:
  "\<forall>j \<in> set two_jobs. doable serving (httpClient example_client) ''t'' [rsa_signer, ec_signer] j"
proof -
  have "prepareSign CKM_ECDSA (replicate 32 1) = Inr (AlgECDSASHA256, replicate 32 1, True)"
    "prepareSign CKM_SHA256_RSA_PKCS_PSS [7] = Inr (AlgRSAPSSSHA256, [7], False)"
    by (simp_all add: prepareSign_def isPSSMechanism_def mechanismToAlgorithm_def const_vals)
  then show ?thesis
    using serving_facts(3) by (auto simp: two_jobs_def doable_def word_less_nat_alt)
qed

theorem concurrent_signing_witness:
  "\<exists>h k t. run_pool (concat (replicate 43 [0, 1])) (map (job_thread serving) two_jobs) (example_state 1)
    = ([Finished (Inr ((CKR_OK, Some h), CKR_OK, CKR_OK, Some [1, 2, 3, 0], Some 3)),
        Finished (Inr ((CKR_OK, Some k), CKR_OK, CKR_OK, Some [1, 2, 3], Some 3))], t) \<and> h \<noteq> k"
proof -
  have "count_list (concat (replicate n [0, 1])) i = n" if "i < 2" for n i :: nat
    using that by (induction n) auto
  then have sched: "\<forall>i < length two_jobs. 43 \<le> count_list (concat (replicate 43 [0, 1])) i"
    by (simp add: two_jobs_def)
  have m: "manager (example_state w) = newSessionManager" for w :: nat by (simp add: example_state_def)
  have room: "unat (nextID (manager (example_state (1 :: nat)))) + length two_jobs < 2 ^ 64"
    by (simp add: m newSessionManager_def two_jobs_def)
  obtain hs t where hs: "run_pool (concat (replicate 43 [0, 1])) (map (job_thread serving) two_jobs) (example_state 1)
      = (map (\<lambda>(j, h). Finished (Inr (job_result j h))) (zip two_jobs hs), t)"
    "length hs = length two_jobs" "distinct hs"
    using concurrent_signing [OF serving_facts(1,2) _ _ room two_jobs_doable sched] sm_inv_new m by auto
  from hs(2) obtain h k where "hs = [h, k]"
    by (auto simp: two_jobs_def length_Suc_conv)
  with hs show ?thesis by (auto simp: two_jobs_def job_result_def overwrite_def)
qed

section \<open>Two threads on one session\<close>

text \<open>
  C23: two threads that come back for a kept signature on the same session at the same time can
  crash the host: one finds the signature kept, the other takes it and clears it, and the first
  then hands out nil, whose first byte does not exist. One after the other, the second is told
  that no operation is active.
\<close>

theorem kept_signature_race:
  assumes "initialized s" "sm_get (manager s) h = Some x" "signActive x" "cachedSignature x = Some sig"
    "length sig \<le> unat len'" "sig \<noteq> []" "length d < 2 ^ 31" "length d' < 2 ^ 31"
  shows "(\<exists>sched t. run_pool sched
      [C_Sign_thread sv h (Some d) (of_nat (length d)) (Some buf) (Some len),
       C_Sign_thread sv h (Some d') (of_nat (length d')) (Some buf') (Some len')] s
      = ([Crashed, Finished (Inr (CKR_OK, Some (overwrite sig buf'), Some (of_nat (length sig))))], t))
    \<and> (\<exists>t. C_Sign sv h (Some d') (of_nat (length d')) (Some buf') (Some len') s
        = Returns (Inr (CKR_OK, Some (overwrite sig buf'), Some (of_nat (length sig))), t)
      \<and> C_Sign sv h (Some d) (of_nat (length d)) (Some buf) (Some len) t
        = Returns (Inr (CKR_OPERATION_NOT_INITIALIZED, Some buf, Some len), t))"
proof -
  let ?A = "C_Sign_thread sv h (Some d) (of_nat (length d)) (Some buf) (Some len)"
  let ?B = "C_Sign_thread sv h (Some d') (of_nat (length d')) (Some buf') (Some len')"
  let ?r = "Inr (CKR_OK, Some (overwrite sig buf'), Some (of_nat (length sig)))"
  let ?t = "s\<lparr>manager := sm_update (manager s) h clearSign\<rparr>"
  let ?A' = "orElse_thread (bindT (field h x cachedSignature) (\<lambda>sig.
      bindT (clearSignState_thread h) (\<lambda>_. returnT (case sig of None \<Rightarrow> [] | Some sig \<Rightarrow> sig))))
      (Some buf, Some len) (\<lambda>sig. handSignature_thread h buf len sig)"
  have cleared: "sm_get (manager ?t) h = Some (clearSign x)" using assms(2) by (simp add: sm_get_update)
  have B: "C_Sign sv h (Some d') (of_nat (length d')) (Some buf') (Some len') s = Returns (?r, ?t)"
    using assms C_Sign_run [OF assms(1,8)]
    by (simp add: orElse_run Sign_def finishSign_run handSignature_run sm_get_update sm_update_twice
        written_session clearSign_def)
  then have runB: "runT ?B s = Returns (?r, ?t)" by (simp only: thread_runs)
  have first: "run_pool [0, 0, 0, 0] [?A, ?B] s = ([?A', ?B], s)"
    using assms(1-4,7)
    by (simp add: C_Sign_thread_def guarded_thread_def orElse_thread_def Sign_thread_def
        finishSign_thread_def field_def goBytes_length checkInitialized_def getSession_run advance_bind)
  have last: "runT ?A' ?t = Panics"
    using cleared
    by (simp add: runT_frame sequential field_def runT_writes clearSignState_run bindE_Inr orElse_run
        clearSign_def handSignature_def)
  obtain n where n: "run_pool (replicate n 1) [?A', ?B] s = ([?A', Finished ?r], ?t)"
    using run_pool_one(1) [of 1 "[?A', ?B]" s] runB by auto
  obtain m t where "run_pool (replicate m 0) [?A', Finished ?r] ?t = ([Crashed, Finished ?r], t)"
    using run_pool_one(2) [of 0 "[?A', Finished ?r]" ?t] last by auto
  with first n have "run_pool ([0, 0, 0, 0] @ replicate n 1 @ replicate m 0) [?A, ?B] s
      = ([Crashed, Finished ?r], t)" by (simp add: run_pool_append del: run_pool.simps append_Cons)
  moreover have "C_Sign sv h (Some d) (of_nat (length d)) (Some buf) (Some len) ?t
      = Returns (Inr (CKR_OPERATION_NOT_INITIALIZED, Some buf, Some len), ?t)"
    using cleared assms(1) C_Sign_run [of ?t d sv h buf len] assms(7)
    by (simp add: orElse_run Sign_def finishSign_run clearSign_def mapErrorToRV_def)
  ultimately show ?thesis using B by blast
qed

theorem kept_signature_race_witness:
  "\<exists>s sched t. run_pool sched
      [C_Sign_thread serving 1 (Some [5]) (of_nat (length [5 :: byte])) (Some [0, 0, 0]) (Some 3),
       C_Sign_thread serving 1 (Some [5]) (of_nat (length [5 :: byte])) (Some [0, 0, 0]) (Some 3)] s
    = ([Crashed, Finished (Inr (CKR_OK, Some [1, 2, 3], Some 3))], t)"
proof -
  let ?x = "(signing_session CKM_ECDSA)\<lparr>cachedSignature := Some [1, 2, 3]\<rparr>"
  let ?s = "(example_state 0)\<lparr>manager := \<lparr>sessions = [1 \<mapsto> ?x], nextID = 2\<rparr>\<rparr>"
  have "sm_get (manager ?s) 1 = Some ?x" "initialized ?s" by (simp_all add: sm_get_def example_state_def)
  from kept_signature_race [OF this(2,1), of "[1, 2, 3]" 3 "[5]" "[5]" serving "[0, 0, 0]" 3 "[0, 0, 0]"]
  show ?thesis by (auto simp: overwrite_def)
qed

end
