(* ===== verification/C_Memory.thy ===== *)
theory C_Memory
  imports Prelude
begin

text \<open>
  The memory of the host process as the C side of the module sees it: bytes at addresses,
  numbers in little-endian order (every target of the module is a little-endian machine), and
  the layout of C structures with and without packing. \<^verbatim>\<open>CK_ULONG\<close> is C's \<^verbatim>\<open>unsigned long\<close>, of 8
  bytes on Linux and macOS and of 4 on 64-bit Windows, where the structures of PKCS#11 are
  packed.
\<close>

section \<open>Bytes\<close>

type_synonym host_memory = "nat \<Rightarrow> byte"

definition loadBytes :: "nat \<Rightarrow> host_memory \<Rightarrow> nat \<Rightarrow> bytes" where
  "loadBytes n m a = map m [a..<a + n]"

definition storeBytes :: "nat \<Rightarrow> bytes \<Rightarrow> host_memory \<Rightarrow> host_memory" where
  "storeBytes a bs m = (\<lambda>x. if a \<le> x \<and> x < a + length bs then bs ! (x - a) else m x)"

definition region :: "nat \<Rightarrow> nat \<Rightarrow> nat set" where
  "region a n = {a..<a + n}"

text \<open>Two memories that agree on a set of addresses.\<close>

definition agree :: "nat set \<Rightarrow> host_memory \<Rightarrow> host_memory \<Rightarrow> bool" where
  "agree A m m' \<longleftrightarrow> (\<forall>x \<in> A. m x = m' x)"

lemma agree_refl [simp]: "agree A m m"
  by (simp add: agree_def)

lemma agree_trans: "agree A m m' \<Longrightarrow> agree A m' m'' \<Longrightarrow> agree A m m''"
  by (simp add: agree_def)

lemma agree_mono: "agree A m m' \<Longrightarrow> B \<subseteq> A \<Longrightarrow> agree B m m'"
  by (auto simp: agree_def)

lemma length_loadBytes [simp]: "length (loadBytes n m a) = n"
  by (simp add: loadBytes_def)

lemma loadBytes_cong: "agree (region a n) m m' \<Longrightarrow> loadBytes n m a = loadBytes n m' a"
  by (simp add: loadBytes_def agree_def region_def)

lemma loadBytes_storeBytes: "length bs = n \<Longrightarrow> loadBytes n (storeBytes a bs m) a = bs"
  by (rule nth_equalityI) (simp_all add: loadBytes_def storeBytes_def)

lemma agree_storeBytes: "A \<inter> region a (length bs) = {} \<Longrightarrow> agree A m (storeBytes a bs m)"
  by (auto simp: agree_def storeBytes_def region_def)

lemma take_loadBytes: "k \<le> n \<Longrightarrow> take k (loadBytes n m a) = loadBytes k m a"
  by (simp add: loadBytes_def take_map)

text \<open>\<^verbatim>\<open>memcpy\<close> over the beginning of a buffer.\<close>

lemma loadBytes_overwrite:
  "length bs \<le> n \<Longrightarrow> loadBytes n (storeBytes a bs m) a = overwrite bs (loadBytes n m a)"
  by (rule nth_equalityI) (auto simp: loadBytes_def storeBytes_def overwrite_def nth_append)

section \<open>Numbers\<close>

fun le_nat :: "bytes \<Rightarrow> nat" where
  "le_nat [] = 0"
| "le_nat (b # bs) = unat b + 256 * le_nat bs"

fun number_bytes :: "nat \<Rightarrow> nat \<Rightarrow> bytes" where
  "number_bytes 0 v = []"
| "number_bytes (Suc n) v = of_nat v # number_bytes n (v div 256)"

lemma length_number_bytes [simp]: "length (number_bytes n v) = n"
  by (induction n arbitrary: v) simp_all

lemma unat_of_nat_u8: "unat (of_nat v :: byte) = v mod 256"
  by (simp add: unsigned_of_nat take_bit_eq_mod)

lemma le_nat_number_bytes: "le_nat (number_bytes n v) = v mod 256 ^ n"
proof (induction n arbitrary: v)
  case (Suc n)
  have "v mod (256 * 256 ^ n) = 256 * (v div 256 mod 256 ^ n) + v mod 256"
    by (rule mod_mult2_eq)
  with Suc show ?case by (simp add: unat_of_nat_u8)
qed simp

text \<open>A number of \<open>w\<close> bytes; storing one keeps its low \<open>w\<close> bytes, as \<^verbatim>\<open>C.ulong\<close> does.\<close>

definition load_word :: "nat \<Rightarrow> host_memory \<Rightarrow> nat \<Rightarrow> uint" where
  "load_word w m a = of_nat (le_nat (loadBytes w m a))"

definition store_word :: "nat \<Rightarrow> nat \<Rightarrow> uint \<Rightarrow> host_memory \<Rightarrow> host_memory" where
  "store_word w a v m = storeBytes a (number_bytes w (unat v)) m"

text \<open>
  A cell of memory: reading gives back what was written and depends on the cell's own bytes
  alone, and writing changes only these.
\<close>

locale cell =
  fixes get :: "host_memory \<Rightarrow> nat \<Rightarrow> 'a" and put :: "nat \<Rightarrow> 'a \<Rightarrow> host_memory \<Rightarrow> host_memory"
    and width :: nat and fits :: "'a \<Rightarrow> bool"
  assumes get_put: "fits v \<Longrightarrow> get (put a v m) a = v"
    and get_cong: "agree (region a width) m m' \<Longrightarrow> get m a = get m' a"
    and put_agree: "fits v \<Longrightarrow> A \<inter> region a width = {} \<Longrightarrow> agree A m (put a v m)"
begin

lemma get_after:
  assumes "fits v" "agree (region a width) (put a v m) m'"
  shows "get m' a = v"
  using get_cong [OF assms(2)] get_put [OF assms(1)] by simp

lemma put_elsewhere:
  assumes "fits v" "region b width \<inter> region a width = {}"
  shows "get (put a v m) b = get m b"
  using get_cong [OF put_agree [OF assms]] by simp

end

interpretation buffer: cell "loadBytes n" storeBytes n "\<lambda>bs. length bs = n" for n
proof (rule cell.intro, goal_cases)
  case 1
  then show ?case by (simp add: loadBytes_storeBytes)
next
  case 2
  then show ?case by (rule loadBytes_cong)
next
  case 3
  then show ?case by (metis agree_storeBytes)
qed

lemma load_store_word: "unat v < 256 ^ w \<Longrightarrow> load_word w (store_word w a v m) a = v"
  by (simp add: load_word_def store_word_def loadBytes_storeBytes le_nat_number_bytes)

interpretation number: cell "load_word w" "store_word w" w "\<lambda>v. unat v < 256 ^ w" for w
proof (rule cell.intro, goal_cases)
  case 1
  then show ?case by (rule load_store_word)
next
  case 2
  then show ?case by (simp add: load_word_def loadBytes_cong [OF 2])
next
  case (3 v A a m)
  then show ?case by (simp add: store_word_def agree_storeBytes)
qed

section \<open>Layouts\<close>

text \<open>
  The two application binary interfaces, and the types of the fields: arrays of bytes (a
  \<^verbatim>\<open>CK_VERSION\<close> is two of them), \<^verbatim>\<open>CK_ULONG\<close> and pointers.
\<close>

datatype abi = Unix | Win64

datatype ctype = Bytes nat | ULong | Pointer

fun ulong_size :: "abi \<Rightarrow> nat" where
  "ulong_size Unix = 8"
| "ulong_size Win64 = 4"

fun size_of :: "abi \<Rightarrow> ctype \<Rightarrow> nat" where
  "size_of abi (Bytes n) = n"
| "size_of abi ULong = ulong_size abi"
| "size_of abi Pointer = 8"

fun align_of :: "abi \<Rightarrow> ctype \<Rightarrow> nat" where
  "align_of abi (Bytes n) = 1"
| "align_of abi ULong = ulong_size abi"
| "align_of abi Pointer = 8"

text \<open>\<^verbatim>\<open>#pragma pack(n)\<close> limits the alignment of the fields; \<^const>\<open>None\<close> is no packing.\<close>

definition alignment :: "nat option \<Rightarrow> abi \<Rightarrow> ctype \<Rightarrow> nat" where
  "alignment pack abi t = (case pack of None \<Rightarrow> align_of abi t | Some p \<Rightarrow> min p (align_of abi t))"

definition round_up :: "nat \<Rightarrow> nat \<Rightarrow> nat" where
  "round_up n a = (n + a - 1) div a * a"

fun offsets :: "nat option \<Rightarrow> abi \<Rightarrow> nat \<Rightarrow> ctype list \<Rightarrow> nat list" where
  "offsets pack abi n [] = []"
| "offsets pack abi n (t # ts) =
     (let off = round_up n (alignment pack abi t)
      in off # offsets pack abi (off + size_of abi t) ts)"

fun fields_end :: "nat option \<Rightarrow> abi \<Rightarrow> nat \<Rightarrow> ctype list \<Rightarrow> nat" where
  "fields_end pack abi n [] = n"
| "fields_end pack abi n (t # ts) =
     fields_end pack abi (round_up n (alignment pack abi t) + size_of abi t) ts"

definition struct_size :: "nat option \<Rightarrow> abi \<Rightarrow> ctype list \<Rightarrow> nat" where
  "struct_size pack abi ts =
     round_up (fields_end pack abi 0 ts) (fold max (map (alignment pack abi) ts) 1)"

text \<open>The fields of a structure follow each other without overlap.\<close>

lemma alignment_pos: "pack \<noteq> Some 0 \<Longrightarrow> 0 < alignment pack abi t"
  by (cases t; cases abi) (auto simp: alignment_def split: option.splits)

lemma round_up_ge:
  assumes "0 < a"
  shows "n \<le> round_up n a"
proof -
  have "n + a - 1 = round_up n a + (n + a - 1) mod a"
    unfolding round_up_def by (rule div_mult_mod_eq [symmetric])
  moreover have "(n + a - 1) mod a \<le> a - 1" using mod_less_divisor [OF assms, of "n + a - 1"] by linarith
  ultimately show ?thesis using assms by linarith
qed

lemma length_offsets [simp]: "length (offsets pack abi n ts) = length ts"
  by (induction ts arbitrary: n) (simp_all add: Let_def)

lemma offsets_ge:
  assumes "pack \<noteq> Some 0" "i < length ts"
  shows "n \<le> offsets pack abi n ts ! i"
  using assms(2)
proof (induction ts arbitrary: n i)
  case (Cons t ts)
  have n: "n \<le> round_up n (alignment pack abi t)" by (rule round_up_ge [OF alignment_pos [OF assms(1)]])
  show ?case
  proof (cases i)
    case (Suc j)
    have "n \<le> round_up n (alignment pack abi t) + size_of abi t" using n by simp
    also have "\<dots> \<le> offsets pack abi (round_up n (alignment pack abi t) + size_of abi t) ts ! j"
      using Cons Suc by simp
    finally show ?thesis using Suc by (simp add: Let_def)
  qed (use n in \<open>simp add: Let_def\<close>)
qed simp

lemma offsets_apart:
  assumes "pack \<noteq> Some 0" "i < j" "j < length ts"
  shows "offsets pack abi n ts ! i + size_of abi (ts ! i) \<le> offsets pack abi n ts ! j"
  using assms(2,3)
proof (induction ts arbitrary: n i j)
  case (Cons t ts)
  then obtain k where j: "j = Suc k" by (cases j) auto
  show ?case using Cons offsets_ge [OF assms(1)] j by (cases i) (simp_all add: Let_def)
qed simp

end
