(* ===== verification/Bridge.thy ===== *)
theory Bridge
  imports C_Memory Module
begin

text \<open>
  \<^verbatim>\<open>pkcs11_bridge.c\<close> and the functions of \<^verbatim>\<open>main.go\<close> that go through it, on the bytes of the host's
  memory. The other theories take the structures of the caller as records and his buffers as
  lists; here the same functions read and write memory at the offsets the C compiler gives the
  packed structures, and are shown to do what the records say, to write nothing outside the
  caller's template and buffers, and to need the bridge exactly where packing matters.
\<close>

section \<open>The structures\<close>

datatype ck_structure =
    CK_INFO | CK_SLOT_INFO | CK_TOKEN_INFO | CK_MECHANISM | CK_MECHANISM_INFO | CK_SESSION_INFO
  | CK_ATTRIBUTE

text \<open>The fields in \<^verbatim>\<open>pkcs11_types.h\<close>, which Go accesses in their natural layout.\<close>

fun ck_fields :: "ck_structure \<Rightarrow> ctype list" where
  "ck_fields CK_INFO = [Bytes 2, Bytes 32, ULong, Bytes 32, Bytes 2]"
| "ck_fields CK_SLOT_INFO = [Bytes 64, Bytes 32, ULong, Bytes 2, Bytes 2]"
| "ck_fields CK_TOKEN_INFO =
     [Bytes 32, Bytes 32, Bytes 16, Bytes 16, ULong, ULong, ULong, ULong, ULong, ULong, ULong,
      ULong, ULong, ULong, ULong, Bytes 2, Bytes 2, Bytes 16]"
| "ck_fields CK_MECHANISM = [ULong, Pointer, ULong]"
| "ck_fields CK_MECHANISM_INFO = [ULong, ULong, ULong]"
| "ck_fields CK_SESSION_INFO = [ULong, ULong, ULong, ULong]"
| "ck_fields CK_ATTRIBUTE = [ULong, Pointer, ULong]"

text \<open>The structures of the bridge, packed on Windows as PKCS#11 wants it.\<close>

definition P11_INFO :: "ctype list" where
  "P11_INFO = [Bytes 2, Bytes 32, ULong, Bytes 32, Bytes 2]"

definition P11_MECHANISM :: "ctype list" where
  "P11_MECHANISM = [ULong, Pointer, ULong]"

definition P11_ATTRIBUTE :: "ctype list" where
  "P11_ATTRIBUTE = [ULong, Pointer, ULong]"

fun p11_pack :: "abi \<Rightarrow> nat option" where
  "p11_pack Unix = None"
| "p11_pack Win64 = Some 1"

section \<open>The accessors\<close>

definition padded_copy :: "nat \<Rightarrow> string \<Rightarrow> nat \<Rightarrow> host_memory \<Rightarrow> host_memory" where
  "padded_copy dest src n = storeBytes dest (copyPaddedString src n)"

definition info_field :: "abi \<Rightarrow> nat \<Rightarrow> nat \<Rightarrow> nat" where
  "info_field abi p k = p + offsets (p11_pack abi) abi 0 P11_INFO ! k"

definition bridge_fill_info ::
  "abi \<Rightarrow> nat \<Rightarrow> byte \<Rightarrow> byte \<Rightarrow> string \<Rightarrow> uint \<Rightarrow> string \<Rightarrow> byte \<Rightarrow> byte \<Rightarrow> host_memory \<Rightarrow> host_memory" where
  "bridge_fill_info abi p vMajor vMinor mfr flags desc lvMajor lvMinor m0 =
     (let m1 = storeBytes (info_field abi p 0) [vMajor] m0;
          m2 = storeBytes (info_field abi p 0 + 1) [vMinor] m1;
          m3 = padded_copy (info_field abi p 1) mfr 32 m2;
          m4 = store_word (ulong_size abi) (info_field abi p 2) flags m3;
          m5 = padded_copy (info_field abi p 3) desc 32 m4;
          m6 = storeBytes (info_field abi p 4) [lvMajor] m5
      in storeBytes (info_field abi p 4 + 1) [lvMinor] m6)"

definition bridge_get_mech_type :: "abi \<Rightarrow> host_memory \<Rightarrow> nat \<Rightarrow> uint" where
  "bridge_get_mech_type abi m p =
     load_word (ulong_size abi) m (p + offsets (p11_pack abi) abi 0 P11_MECHANISM ! 0)"

definition attr_size :: "abi \<Rightarrow> nat" where
  "attr_size abi = struct_size (p11_pack abi) abi P11_ATTRIBUTE"

definition attr_at :: "abi \<Rightarrow> nat \<Rightarrow> nat \<Rightarrow> nat" where
  "attr_at abi base idx = base + idx * attr_size abi"

definition attr_field :: "abi \<Rightarrow> nat \<Rightarrow> nat \<Rightarrow> nat \<Rightarrow> nat" where
  "attr_field abi base idx k = attr_at abi base idx + offsets (p11_pack abi) abi 0 P11_ATTRIBUTE ! k"

definition bridge_attr_type :: "abi \<Rightarrow> host_memory \<Rightarrow> nat \<Rightarrow> nat \<Rightarrow> uint" where
  "bridge_attr_type abi m base idx = load_word (ulong_size abi) m (attr_field abi base idx 0)"

definition bridge_attr_pvalue :: "abi \<Rightarrow> host_memory \<Rightarrow> nat \<Rightarrow> nat \<Rightarrow> uint" where
  "bridge_attr_pvalue abi m base idx = load_word 8 m (attr_field abi base idx 1)"

definition bridge_attr_vallen :: "abi \<Rightarrow> host_memory \<Rightarrow> nat \<Rightarrow> nat \<Rightarrow> uint" where
  "bridge_attr_vallen abi m base idx = load_word (ulong_size abi) m (attr_field abi base idx 2)"

definition bridge_attr_set_vallen :: "abi \<Rightarrow> nat \<Rightarrow> nat \<Rightarrow> uint \<Rightarrow> host_memory \<Rightarrow> host_memory" where
  "bridge_attr_set_vallen abi base idx len = store_word (ulong_size abi) (attr_field abi base idx 2) len"

definition bridge_attr_copy_to_pvalue :: "abi \<Rightarrow> nat \<Rightarrow> nat \<Rightarrow> bytes \<Rightarrow> host_memory \<Rightarrow> host_memory" where
  "bridge_attr_copy_to_pvalue abi base idx src m =
     bridge_attr_set_vallen abi base idx (of_nat (length src))
       (storeBytes (unat (bridge_attr_pvalue abi m base idx)) src m)"

section \<open>The exported functions that use them\<close>

definition C_GetInfo_memory :: "abi \<Rightarrow> uint \<Rightarrow> host_memory \<Rightarrow> ck_rv \<times> host_memory" where
  "C_GetInfo_memory abi pInfo m =
     (if pInfo = 0 then (CKR_ARGUMENTS_BAD, m)
      else (CKR_OK, bridge_fill_info abi (unat pInfo) 2 40 ''Infisical'' 0 ''Infisical PKCS#11 Module''
              1 0 m))"

definition C_SignInit_memory ::
  "abi \<Rightarrow> host_memory \<Rightarrow> uint \<Rightarrow> uint \<Rightarrow> uint \<Rightarrow> ('w, ck_rv \<times> unit) call" where
  "C_SignInit_memory abi m hSession pMechanism hKey =
     C_SignInit hSession
       (if pMechanism = 0 then None else Some (bridge_get_mech_type abi m (unat pMechanism))) hKey"

text \<open>
  The loop of \<^verbatim>\<open>C_FindObjectsInit\<close>, from entry \<open>i\<close> on, with \<open>n\<close> entries to go. \<^verbatim>\<open>C.GoBytes\<close> reads as
  many bytes as the low 32 bits of the length say.
\<close>

fun readTemplate_memory :: "abi \<Rightarrow> host_memory \<Rightarrow> nat \<Rightarrow> nat \<Rightarrow> nat \<Rightarrow> Attribute list outcome" where
  "readTemplate_memory abi m base i 0 = Returns []"
| "readTemplate_memory abi m base i (Suc n) =
     (let attrType = bridge_attr_type abi m base i;
          pValue = bridge_attr_pvalue abi m base i;
          valLen = bridge_attr_vallen abi m base i
      in case (if pValue \<noteq> 0 \<and> valLen > 0
               then if c_int valLen < 0 then Panics
                    else Returns (Some (loadBytes (nat (c_int valLen)) m (unat pValue)))
               else Returns None) of
           Panics \<Rightarrow> Panics
         | Returns val \<Rightarrow>
             (case readTemplate_memory abi m base (Suc i) n of
                Panics \<Rightarrow> Panics
              | Returns attrs \<Rightarrow> Returns (\<lparr>Type = attrType, Value = val\<rparr> # attrs)))"

definition C_FindObjectsInit_memory ::
  "'w services \<Rightarrow> abi \<Rightarrow> host_memory \<Rightarrow> uint \<Rightarrow> uint \<Rightarrow> uint \<Rightarrow> ('w, ck_rv \<times> unit) call" where
  "C_FindObjectsInit_memory sv abi m hSession pTemplate ulCount =
     guarded ()
       (if ulCount > maxTemplateAttrs then returnE (CKR_ARGUMENTS_BAD, ())
        else
          bindE (liftOut (if ulCount > 0 \<and> pTemplate \<noteq> 0
              then readTemplate_memory abi m (unat pTemplate) 0 (unat ulCount)
              else Returns [])) (\<lambda>attrs.
          orElse (FindObjectsInit sv hSession attrs) () (\<lambda>_. returnE (CKR_OK, ()))))"

text \<open>The loop of \<^verbatim>\<open>C_GetAttributeValue\<close> over the results, which is at entry \<open>i\<close> of \<open>count\<close>.\<close>

fun copyResults_memory ::
  "abi \<Rightarrow> nat \<Rightarrow> nat \<Rightarrow> nat \<Rightarrow> Attribute list \<Rightarrow> host_memory \<Rightarrow> ck_rv \<times> host_memory" where
  "copyResults_memory abi base count i [] m = (CKR_OK, m)"
| "copyResults_memory abi base count i (r # rs) m =
     (if i \<ge> count then (CKR_OK, m)
      else
        let val = value_of r;
            valLen = of_nat (length val)
        in if bridge_attr_pvalue abi m base i = 0 then
             copyResults_memory abi base count (Suc i) rs (bridge_attr_set_vallen abi base i valLen m)
           else if val = [] then
             copyResults_memory abi base count (Suc i) rs (bridge_attr_set_vallen abi base i 0 m)
           else if unat (bridge_attr_vallen abi m base i) \<ge> length val then
             copyResults_memory abi base count (Suc i) rs (bridge_attr_copy_to_pvalue abi base i val m)
           else (CKR_BUFFER_TOO_SMALL, bridge_attr_set_vallen abi base i valLen m))"

definition C_GetAttributeValue_memory ::
  "'w services \<Rightarrow> abi \<Rightarrow> host_memory \<Rightarrow> uint \<Rightarrow> uint \<Rightarrow> uint \<Rightarrow> uint \<Rightarrow> ('w, ck_rv \<times> host_memory) call" where
  "C_GetAttributeValue_memory sv abi m hSession hObject pTemplate ulCount =
     guarded m
       (if pTemplate = 0 then returnE (CKR_ARGUMENTS_BAD, m)
        else if ulCount > maxTemplateAttrs then returnE (CKR_ARGUMENTS_BAD, m)
        else
          let base = unat pTemplate;
              count = unat ulCount;
              template = map (\<lambda>i. \<lparr>Type = bridge_attr_type abi m base i, Value = None\<rparr>) [0..<count]
          in orElse (GetAttributeValue sv hSession hObject template) m (\<lambda>results.
               returnE (copyResults_memory abi base count 0 results m)))"

section \<open>Layouts\<close>

text \<open>The bridge's structures have the fields of the originals.\<close>

lemma bridge_fields:
  "P11_INFO = ck_fields CK_INFO" "P11_MECHANISM = ck_fields CK_MECHANISM"
  "P11_ATTRIBUTE = ck_fields CK_ATTRIBUTE"
  by (simp_all add: P11_INFO_def P11_MECHANISM_def P11_ATTRIBUTE_def)

text \<open>Packing would also move the fields of \<^verbatim>\<open>CK_INFO\<close> on Unix, where the bridge does not pack.\<close>

lemma packing_on_unix:
  "offsets (Some 1) Unix 0 P11_INFO = [0, 2, 34, 42, 74]" "offsets None Unix 0 P11_INFO = [0, 2, 40, 48, 80]"
  by code_simp+

section \<open>Entries of a template\<close>

lemma attr_offsets:
  "offsets None Unix 0 P11_ATTRIBUTE = [0, 8, 16]" "offsets (Some (Suc 0)) Win64 0 P11_ATTRIBUTE = [0, 4, 12]"
  by code_simp+

lemma attr_sizes: "attr_size Unix = 24" "attr_size Win64 = 16"
  by code_simp+

lemma attr_addresses:
  "attr_at Unix base i = base + i * 24" "attr_at Win64 base i = base + i * 16"
  "attr_field Unix base i 0 = base + i * 24" "attr_field Win64 base i 0 = base + i * 16"
  "attr_field Unix base i (Suc 0) = base + i * 24 + 8" "attr_field Win64 base i (Suc 0) = base + i * 16 + 4"
  "attr_field Unix base i 2 = base + i * 24 + 16" "attr_field Win64 base i 2 = base + i * 16 + 12"
  by (simp_all add: attr_at_def attr_sizes attr_field_def attr_offsets)

lemmas attr_layout = attr_sizes attr_addresses region_def

definition entries :: "abi \<Rightarrow> nat \<Rightarrow> nat \<Rightarrow> nat \<Rightarrow> nat set" where
  "entries abi base i n = region (attr_at abi base i) (n * attr_size abi)"

lemma entries_Suc:
  "entries abi base i (Suc n) = entries abi base i 1 \<union> entries abi base (Suc i) n"
  by (cases abi) (auto simp: entries_def attr_layout)

lemma entries_apart: "entries abi base i 1 \<inter> entries abi base (Suc i) n = {}"
  by (cases abi) (auto simp: entries_def attr_layout)

text \<open>The accessors of an entry read that entry alone.\<close>

lemma attr_fields_within:
  "region (attr_field abi base i 0) (ulong_size abi) \<subseteq> entries abi base i 1"
  "region (attr_field abi base i 1) 8 \<subseteq> entries abi base i 1"
  "region (attr_field abi base i 2) (ulong_size abi) \<subseteq> entries abi base i 1"
  by (cases abi; auto simp: entries_def attr_layout)+

lemma attr_fields_apart:
  "region (attr_field abi base i 0) (ulong_size abi) \<inter> region (attr_field abi base i 2) (ulong_size abi) = {}"
  "region (attr_field abi base i 1) 8 \<inter> region (attr_field abi base i 2) (ulong_size abi) = {}"
  by (cases abi; auto simp: attr_layout)+

definition same_entry :: "abi \<Rightarrow> nat \<Rightarrow> nat \<Rightarrow> host_memory \<Rightarrow> host_memory \<Rightarrow> bool" where
  "same_entry abi base i m m' \<longleftrightarrow>
     bridge_attr_type abi m' base i = bridge_attr_type abi m base i
     \<and> bridge_attr_pvalue abi m' base i = bridge_attr_pvalue abi m base i
     \<and> bridge_attr_vallen abi m' base i = bridge_attr_vallen abi m base i"

lemma same_entryI: "agree (entries abi base i 1) m m' \<Longrightarrow> same_entry abi base i m m'"
  unfolding same_entry_def bridge_attr_type_def bridge_attr_pvalue_def bridge_attr_vallen_def
  by (intro conjI; rule number.get_cong [symmetric]; erule agree_mono) (rule attr_fields_within)+

lemma set_vallen_entry:
  assumes "unat v < 256 ^ ulong_size abi"
  shows "bridge_attr_type abi (bridge_attr_set_vallen abi base i v m) base i = bridge_attr_type abi m base i"
    "bridge_attr_pvalue abi (bridge_attr_set_vallen abi base i v m) base i = bridge_attr_pvalue abi m base i"
    "bridge_attr_vallen abi (bridge_attr_set_vallen abi base i v m) base i = v"
  unfolding bridge_attr_type_def bridge_attr_pvalue_def bridge_attr_vallen_def bridge_attr_set_vallen_def
proof -
  show "load_word (ulong_size abi) (store_word (ulong_size abi) (attr_field abi base i 2) v m)
      (attr_field abi base i 0) = load_word (ulong_size abi) m (attr_field abi base i 0)"
    by (rule number.put_elsewhere [OF assms attr_fields_apart(1)])
  show "load_word 8 (store_word (ulong_size abi) (attr_field abi base i 2) v m)
      (attr_field abi base i 1) = load_word 8 m (attr_field abi base i 1)"
    by (rule number.get_cong [symmetric], rule number.put_agree [OF assms attr_fields_apart(2)])
qed (rule number.get_put [OF assms])

lemma set_vallen_agree:
  assumes "unat v < 256 ^ ulong_size abi" "A \<inter> entries abi base i 1 = {}"
  shows "agree A m (bridge_attr_set_vallen abi base i v m)"
  unfolding bridge_attr_set_vallen_def
  using attr_fields_within(3) [of abi base i] assms(2) by (intro number.put_agree [OF assms(1)]) auto

section \<open>What a template in memory stands for\<close>

text \<open>
  \<open>laid_out\<close>: from entry \<open>i\<close> on, the memory holds the entries \<open>as\<close>, whose pointers are \<open>ps\<close>, and
  the buffers they point to. \<open>owned\<close> is the memory of these buffers; \<open>apart\<close> says that they overlap
  neither each other nor a set of addresses, which is the caller's business.
\<close>

definition buffer_at :: "uint \<Rightarrow> ck_attribute \<Rightarrow> nat set" where
  "buffer_at p a = (case attr_pValue a of None \<Rightarrow> {} | Some buf \<Rightarrow> region (unat p) (length buf))"

definition entry_holds :: "abi \<Rightarrow> nat \<Rightarrow> host_memory \<Rightarrow> nat \<Rightarrow> uint \<Rightarrow> ck_attribute \<Rightarrow> bool" where
  "entry_holds abi base m i p a \<longleftrightarrow>
     bridge_attr_type abi m base i = attr_type a \<and> bridge_attr_pvalue abi m base i = p
     \<and> bridge_attr_vallen abi m base i = attr_vallen a
     \<and> (case attr_pValue a of
          None \<Rightarrow> p = 0
        | Some buf \<Rightarrow> p \<noteq> 0 \<and> loadBytes (length buf) m (unat p) = buf)"

fun laid_out :: "abi \<Rightarrow> nat \<Rightarrow> host_memory \<Rightarrow> nat \<Rightarrow> uint list \<Rightarrow> ck_attribute list \<Rightarrow> bool" where
  "laid_out abi base m i [] [] = True"
| "laid_out abi base m i (p # ps) (a # as) =
     (entry_holds abi base m i p a \<and> laid_out abi base m (Suc i) ps as)"
| "laid_out abi base m i _ _ = False"

fun owned :: "uint list \<Rightarrow> ck_attribute list \<Rightarrow> nat set" where
  "owned (p # ps) (a # as) = buffer_at p a \<union> owned ps as"
| "owned _ _ = {}"

fun apart :: "nat set \<Rightarrow> uint list \<Rightarrow> ck_attribute list \<Rightarrow> bool" where
  "apart A (p # ps) (a # as) = (buffer_at p a \<inter> A = {} \<and> apart (A \<union> buffer_at p a) ps as)"
| "apart A _ _ = True"

lemma apart_mono: "apart A ps as \<Longrightarrow> B \<subseteq> A \<Longrightarrow> apart B ps as"
proof (induction A ps as arbitrary: B rule: apart.induct)
  case (1 A p ps a as)
  then have "apart (B \<union> buffer_at p a) ps as" by (intro "1.IH" [of "B \<union> buffer_at p a"]) auto
  with 1 show ?case by auto
qed auto

lemma apart_owned: "apart A ps as \<Longrightarrow> A \<inter> owned ps as = {}"
  by (induction A ps as rule: apart.induct) auto

lemma laid_out_length: "laid_out abi base m i ps as \<Longrightarrow> length ps = length as"
  by (induction abi base m i ps as rule: laid_out.induct) auto

lemma entry_holds_cong:
  assumes "entry_holds abi base m i p a" "agree (entries abi base i 1) m m'"
    "agree (buffer_at p a) m m'"
  shows "entry_holds abi base m' i p a"
proof -
  have "loadBytes (length buf) m (unat p) = loadBytes (length buf) m' (unat p)"
    if "attr_pValue a = Some buf" for buf
    using that assms(3) by (intro loadBytes_cong) (simp add: buffer_at_def)
  with assms(1) same_entryI [OF assms(2)] show ?thesis
    by (auto simp: entry_holds_def same_entry_def split: option.splits)
qed

lemma laid_out_cong:
  "laid_out abi base m i ps as \<Longrightarrow> agree (entries abi base i (length as)) m m' \<Longrightarrow>
   agree (owned ps as) m m' \<Longrightarrow> laid_out abi base m' i ps as"
proof (induction abi base m i ps as rule: laid_out.induct)
  case (2 abi base m i p ps a as)
  have "agree (entries abi base i 1) m m'" "agree (entries abi base (Suc i) (length as)) m m'"
    using 2(3) entries_Suc [of abi base i "length as"] by (auto intro: agree_mono)
  moreover have "agree (buffer_at p a) m m'" "agree (owned ps as) m m'"
    using 2(4) by (auto intro: agree_mono)
  ultimately show ?case using 2(1,2) by (auto intro: entry_holds_cong)
qed simp_all

section \<open>Writing the answers\<close>

text \<open>One entry: its new length, and its value where it fits.\<close>

lemma entry_set_vallen:
  assumes "entry_holds abi base m i p a" "unat v < 256 ^ ulong_size abi"
    "buffer_at p a \<inter> entries abi base i 1 = {}"
  shows "entry_holds abi base (bridge_attr_set_vallen abi base i v m) i p (a\<lparr>attr_vallen := v\<rparr>)"
proof -
  have "agree (buffer_at p a) m (bridge_attr_set_vallen abi base i v m)"
    by (rule set_vallen_agree [OF assms(2,3)])
  then have "loadBytes (length buf) m (unat p)
      = loadBytes (length buf) (bridge_attr_set_vallen abi base i v m) (unat p)"
    if "attr_pValue a = Some buf" for buf
    using that by (intro loadBytes_cong) (simp add: buffer_at_def)
  with assms(1) set_vallen_entry [OF assms(2)] show ?thesis
    by (auto simp: entry_holds_def split: option.splits)
qed

lemma length_fits: "n < 256 ^ w \<Longrightarrow> unat (of_nat n :: uint) < 256 ^ w"
  by (simp add: unsigned_of_nat take_bit_eq_mod)

lemma entry_copy:
  assumes "entry_holds abi base m i p a" "attr_pValue a = Some buf" "length val \<le> length buf"
    "length val < 256 ^ ulong_size abi" "buffer_at p a \<inter> entries abi base i 1 = {}"
  shows "entry_holds abi base (bridge_attr_copy_to_pvalue abi base i val m) i p
      (a\<lparr>attr_pValue := Some (overwrite val buf), attr_vallen := of_nat (length val)\<rparr>)"
proof -
  let ?m = "storeBytes (unat p) val m"
  have len: "unat (of_nat (length val) :: uint) < 256 ^ ulong_size abi"
    using assms(4) by (rule length_fits)
  have "region (unat p) (length val) \<subseteq> buffer_at p a"
    using assms(2,3) by (auto simp: buffer_at_def region_def)
  then have "agree (entries abi base i 1) m ?m" using assms(5) by (intro agree_storeBytes) auto
  then have same: "same_entry abi base i m ?m" by (rule same_entryI)
  have "loadBytes (length buf) ?m (unat p) = overwrite val buf"
    using assms(1-3) by (simp add: loadBytes_overwrite entry_holds_def)
  then have "entry_holds abi base ?m i p (a\<lparr>attr_pValue := Some (overwrite val buf)\<rparr>)"
    using assms(1,2,3) same by (auto simp: entry_holds_def same_entry_def max_def)
  moreover have "buffer_at p (a\<lparr>attr_pValue := Some (overwrite val buf)\<rparr>) = buffer_at p a"
    using assms(2,3) by (simp add: buffer_at_def max_def)
  ultimately have "entry_holds abi base (bridge_attr_set_vallen abi base i (of_nat (length val)) ?m) i p
      (a\<lparr>attr_pValue := Some (overwrite val buf), attr_vallen := of_nat (length val)\<rparr>)"
    using entry_set_vallen [OF _ len, of base ?m i p "a\<lparr>attr_pValue := Some (overwrite val buf)\<rparr>"] assms(5)
    by simp
  then show ?thesis using assms(1) by (simp add: bridge_attr_copy_to_pvalue_def entry_holds_def)
qed

lemma copy_agree:
  assumes "entry_holds abi base m i p a" "attr_pValue a = Some buf" "length val \<le> length buf"
    "length val < 256 ^ ulong_size abi" "A \<inter> (entries abi base i 1 \<union> buffer_at p a) = {}"
  shows "agree A m (bridge_attr_copy_to_pvalue abi base i val m)"
proof -
  have len: "unat (of_nat (length val) :: uint) < 256 ^ ulong_size abi"
    using assms(4) by (rule length_fits)
  have "region (unat p) (length val) \<subseteq> buffer_at p a"
    using assms(2,3) by (auto simp: buffer_at_def region_def)
  then have "agree A m (storeBytes (unat p) val m)" using assms(5) by (intro agree_storeBytes) auto
  moreover have "agree A (storeBytes (unat p) val m)
      (bridge_attr_set_vallen abi base i (of_nat (length val)) (storeBytes (unat p) val m))"
    using assms(5) by (intro set_vallen_agree [OF len]) auto
  ultimately show ?thesis
    using assms(1) by (auto simp: bridge_attr_copy_to_pvalue_def entry_holds_def intro: agree_trans)
qed

text \<open>The rest of the template while an entry is written, and the entry while the rest is.\<close>

lemma laid_out_step:
  assumes "laid_out abi base m i (p # ps) (a # as)"
    "apart (entries abi base i (Suc (length as))) (p # ps) (a # as)"
    "agree (- (entries abi base i 1 \<union> buffer_at p a)) m m1"
  shows "laid_out abi base m1 (Suc i) ps as" "apart (entries abi base (Suc i) (length as)) ps as"
proof -
  let ?rest = "entries abi base (Suc i) (length as)"
  have all: "entries abi base i (Suc (length as)) = entries abi base i 1 \<union> ?rest" by (rule entries_Suc)
  have "apart (entries abi base i 1 \<union> ?rest \<union> buffer_at p a) ps as" using assms(2) all by simp
  then have own: "(entries abi base i 1 \<union> buffer_at p a) \<inter> owned ps as = {}" using apart_owned by fastforce
  have "agree ?rest m m1" using assms(2,3) all entries_apart [of abi base i "length as"]
    by (auto elim!: agree_mono)
  moreover have "agree (owned ps as) m m1" using own assms(3) by (auto elim!: agree_mono)
  ultimately show "laid_out abi base m1 (Suc i) ps as" using assms(1) by (auto intro: laid_out_cong)
  show "apart ?rest ps as" using assms(2) all by (auto elim: apart_mono)
qed

lemma laid_out_back:
  assumes "apart (entries abi base i (Suc (length as))) (p # ps) (a # as)"
    "entry_holds abi base m1 i p b" "buffer_at p b = buffer_at p a"
    "agree (- (entries abi base i 1 \<union> buffer_at p a)) m m1"
    "agree (- (entries abi base (Suc i) (length as) \<union> owned ps as)) m1 m'"
  shows "entry_holds abi base m' i p b"
    "agree (- (entries abi base i (Suc (length as)) \<union> owned (p # ps) (a # as))) m m'"
proof -
  let ?rest = "entries abi base (Suc i) (length as)"
  have all: "entries abi base i (Suc (length as)) = entries abi base i 1 \<union> ?rest" by (rule entries_Suc)
  have "apart (entries abi base i 1 \<union> ?rest \<union> buffer_at p a) ps as" using assms(1) all by simp
  then have own: "(entries abi base i 1 \<union> buffer_at p a) \<inter> owned ps as = {}" using apart_owned by fastforce
  have "agree (entries abi base i 1) m1 m'" "agree (buffer_at p b) m1 m'"
    using own assms(1,3,5) all entries_apart [of abi base i "length as"] by (auto elim!: agree_mono)
  with assms(2) show "entry_holds abi base m' i p b" by (rule entry_holds_cong)
  have "agree (- (entries abi base i (Suc (length as)) \<union> owned (p # ps) (a # as))) m m1"
    using assms(4) all by (auto elim: agree_mono)
  moreover have "agree (- (entries abi base i (Suc (length as)) \<union> owned (p # ps) (a # as))) m1 m'"
    using assms(5) all by (auto elim: agree_mono)
  ultimately show "agree (- (entries abi base i (Suc (length as)) \<union> owned (p # ps) (a # as))) m m'"
    by (rule agree_trans)
qed

text \<open>One turn of the loop, in memory and on the records.\<close>

definition loop_turn ::
  "abi \<Rightarrow> nat \<Rightarrow> nat \<Rightarrow> Attribute \<Rightarrow> uint \<Rightarrow> ck_attribute \<Rightarrow> host_memory \<Rightarrow> bool \<Rightarrow> ck_attribute \<Rightarrow>
   host_memory \<Rightarrow> bool" where
  "loop_turn abi base i r p a m stop b m1 \<longleftrightarrow>
     entry_holds abi base m1 i p b \<and> buffer_at p b = buffer_at p a
     \<and> agree (- (entries abi base i 1 \<union> buffer_at p a)) m m1
     \<and> (\<forall>rs as. copyResults (r # rs) (a # as) =
          (if stop then (CKR_BUFFER_TOO_SMALL, b # as) else apsnd ((#) b) (copyResults rs as)))
     \<and> (\<forall>count rs. i < count \<longrightarrow> copyResults_memory abi base count i (r # rs) m =
          (if stop then (CKR_BUFFER_TOO_SMALL, m1)
           else copyResults_memory abi base count (Suc i) rs m1))"

lemma loop_turn_exists:
  assumes "entry_holds abi base m i p a" "buffer_at p a \<inter> entries abi base i 1 = {}"
    "covers (attr_pValue a) (attr_vallen a)" "length (value_of r) < 256 ^ ulong_size abi"
  shows "\<exists>stop b m1. loop_turn abi base i r p a m stop b m1"
proof -
  let ?v = "of_nat (length (value_of r)) :: uint"
  have vallen: "entry_holds abi base (bridge_attr_set_vallen abi base i v m) i p (a\<lparr>attr_vallen := v\<rparr>)"
    "agree (- (entries abi base i 1 \<union> buffer_at p a)) m (bridge_attr_set_vallen abi base i v m)"
    if "unat v < 256 ^ ulong_size abi" for v
    by (rule entry_set_vallen [OF assms(1) that assms(2)], rule set_vallen_agree [OF that], blast)
  note v = vallen [OF length_fits [OF assms(4)]]
  have p: "bridge_attr_pvalue abi m base i = p" "bridge_attr_vallen abi m base i = attr_vallen a"
    using assms(1) by (simp_all add: entry_holds_def)
  show ?thesis
  proof (cases "attr_pValue a")
    case None
    then have "loop_turn abi base i r p a m False (a\<lparr>attr_vallen := ?v\<rparr>)
        (bridge_attr_set_vallen abi base i ?v m)"
      using v p assms(1) by (simp add: loop_turn_def copyResults_Cons Let_def buffer_at_def
          entry_holds_def del: copyResults.simps(1))
    then show ?thesis by blast
  next
    case (Some buf)
    then have pos: "p \<noteq> 0" using assms(1) by (simp add: entry_holds_def)
    consider (empty) "value_of r = []" | (small) "unat (attr_vallen a) < length (value_of r)"
      | (copied) "value_of r \<noteq> []" "length (value_of r) \<le> unat (attr_vallen a)" by fastforce
    then show ?thesis
    proof cases
      case empty
      then have "loop_turn abi base i r p a m False (a\<lparr>attr_vallen := 0\<rparr>)
          (bridge_attr_set_vallen abi base i 0 m)"
        using vallen [of 0] pos p Some by (simp add: loop_turn_def copyResults_Cons Let_def
            buffer_at_def del: copyResults.simps(1))
      then show ?thesis by blast
    next
      case small
      then have "loop_turn abi base i r p a m True (a\<lparr>attr_vallen := ?v\<rparr>)
          (bridge_attr_set_vallen abi base i ?v m)"
        using v pos p Some by (auto simp: loop_turn_def copyResults_Cons Let_def buffer_at_def
            simp del: copyResults.simps(1))
      then show ?thesis by blast
    next
      case copied
      then have le: "length (value_of r) \<le> length buf" using assms(3) Some by (auto simp: covers_def)
      have same: "agree (- (entries abi base i 1 \<union> buffer_at p a)) m
          (bridge_attr_copy_to_pvalue abi base i (value_of r) m)"
        by (rule copy_agree [OF assms(1) Some le assms(4)]) blast
      have "loop_turn abi base i r p a m False
          (a\<lparr>attr_pValue := Some (overwrite (value_of r) buf), attr_vallen := ?v\<rparr>)
          (bridge_attr_copy_to_pvalue abi base i (value_of r) m)"
        using entry_copy [OF assms(1) Some le assms(4,2)] same pos p Some copied le
        by (simp add: loop_turn_def copyResults_Cons Let_def buffer_at_def max_def
            del: copyResults.simps(1))
      then show ?thesis by blast
    qed
  qed
qed

lemma copyResults_in_memory:
  assumes "laid_out abi base m i ps as" "apart (entries abi base i (length as)) ps as"
    "\<forall>a \<in> set as. covers (attr_pValue a) (attr_vallen a)"
    "\<forall>r \<in> set rs. length (value_of r) < 256 ^ ulong_size abi"
    "copyResults rs as = (rv, bs)"
  shows "\<exists>m'. copyResults_memory abi base (i + length as) i rs m = (rv, m')
    \<and> laid_out abi base m' i ps bs
    \<and> agree (- (entries abi base i (length as) \<union> owned ps as)) m m'"
  using assms
proof (induction as arbitrary: m i ps rs rv bs)
  case Nil
  then show ?case by (cases rs) auto
next
  case (Cons a as)
  obtain p ps' where ps: "ps = p # ps'" using Cons.prems(1) laid_out_length by (cases ps) auto
  show ?case
  proof (cases rs)
    case Nil
    then show ?thesis using Cons.prems by auto
  next
    case (Cons r rs')
    have out: "laid_out abi base m i (p # ps') (a # as)"
      and off: "apart (entries abi base i (Suc (length as))) (p # ps') (a # as)"
      using Cons.prems(1,2) ps by simp_all
    obtain stop b m1 where turn: "loop_turn abi base i r p a m stop b m1"
      using loop_turn_exists [of abi base m i p a r] out off Cons.prems(3,4) Cons
        entries_Suc [of abi base i "length as"] by fastforce
    then have b: "entry_holds abi base m1 i p b" "buffer_at p b = buffer_at p a"
      "agree (- (entries abi base i 1 \<union> buffer_at p a)) m m1" by (simp_all add: loop_turn_def)
    note rest = laid_out_step [OF out off b(3)]
    show ?thesis
    proof (cases stop)
      case True
      then have "copyResults_memory abi base (i + length (a # as)) i rs m = (rv, m1)" "bs = b # as"
        using turn Cons.prems(5) Cons by (auto simp: loop_turn_def simp del: copyResults_memory.simps)
      with laid_out_back(2) [OF off b agree_refl] b(1) rest(1) ps show ?thesis by auto
    next
      case False
      then have "apsnd ((#) b) (copyResults rs' as) = (rv, bs)"
        "copyResults_memory abi base (i + length (a # as)) i rs m
          = copyResults_memory abi base (Suc i + length as) (Suc i) rs' m1"
        using turn Cons.prems(5) Cons by (auto simp: loop_turn_def simp del: copyResults_memory.simps)
      moreover from this(1) obtain cs where cs: "copyResults rs' as = (rv, cs)" "bs = b # cs"
        by (cases "copyResults rs' as") auto
      moreover obtain m' where m': "copyResults_memory abi base (Suc i + length as) (Suc i) rs' m1 = (rv, m')"
        "laid_out abi base m' (Suc i) ps' cs"
        "agree (- (entries abi base (Suc i) (length as) \<union> owned ps' as)) m1 m'"
        using Cons.IH [OF rest _ _ cs(1)] Cons.prems(3,4) Cons by (auto simp del: copyResults_memory.simps)
      ultimately show ?thesis using laid_out_back [OF off b m'(3)] m'(2) ps by auto
    qed
  qed
qed

lemma laid_out_types:
  "laid_out abi base m i ps as \<Longrightarrow>
   map (\<lambda>j. bridge_attr_type abi m base j) [i..<i + length as] = map attr_type as"
proof (induction abi base m i ps as rule: laid_out.induct)
  case (2 abi base m i p ps a as)
  have "[i..<i + length (a # as)] = i # [Suc i..<Suc i + length as]"
    by (simp add: upt_conv_Cons del: upt_Suc)
  with 2 show ?case by (simp add: entry_holds_def del: upt_Suc)
qed simp_all

lemma template_types:
  assumes "laid_out abi base m 0 ps as"
  shows "map (\<lambda>j. \<lparr>Type = bridge_attr_type abi m base j, Value = None\<rparr>) [0..<length as]
    = map (\<lambda>a. \<lparr>Type = attr_type a, Value = None\<rparr>) as"
  using arg_cong [OF laid_out_types [OF assms], of "map (\<lambda>ty. \<lparr>Type = ty, Value = None\<rparr>)"]
  by (simp add: comp_def)

text \<open>
  C14: \<^verbatim>\<open>C_GetAttributeValue\<close> on the bytes of the host's memory does what it does on the records:
  with a template of entries and buffers that do not overlap, it returns the same code, leaves
  the entries the other definition returns, and changes nothing but the template and its
  buffers, in the layout of Unix and in the packed one of Windows.
\<close>

theorem attributes_in_memory:
  assumes "C_GetAttributeValue sv h obj (Some as) n s = Returns (Inr (rv, Some bs), t)"
    "pTemplate \<noteq> 0" "length as = unat n" "laid_out abi (unat pTemplate) m 0 ps as"
    "apart (entries abi (unat pTemplate) 0 (unat n)) ps as"
    "\<forall>a \<in> set as. covers (attr_pValue a) (attr_vallen a)"
    "\<And>results u r. GetAttributeValue sv h obj (map (\<lambda>a. \<lparr>Type = attr_type a, Value = None\<rparr>) as) s
        = Returns (Inr results, u) \<Longrightarrow> r \<in> set results \<Longrightarrow>
      length (value_of r) < 256 ^ ulong_size abi"
  shows "\<exists>m'. C_GetAttributeValue_memory sv abi m h obj pTemplate n s = Returns (Inr (rv, m'), t)
    \<and> laid_out abi (unat pTemplate) m' 0 ps bs
    \<and> agree (- (entries abi (unat pTemplate) 0 (unat n) \<union> owned ps as)) m m'"
proof (cases "initialized s \<and> \<not> maxTemplateAttrs < n")
  case False
  then have "C_GetAttributeValue_memory sv abi m h obj pTemplate n s = Returns (Inr (rv, m), t)" "bs = as"
    using assms(1,2) by (auto simp: C_GetAttributeValue_memory_def C_GetAttributeValue_def guarded_run
        Let_def split: if_splits)
  with assms(4) show ?thesis by (intro exI [of _ m]) simp
next
  case True
  let ?get = "GetAttributeValue sv h obj (map (\<lambda>a. \<lparr>Type = attr_type a, Value = None\<rparr>) as) s"
  have memory: "C_GetAttributeValue_memory sv abi m h obj pTemplate n s
      = orElse (GetAttributeValue sv h obj (map (\<lambda>a. \<lparr>Type = attr_type a, Value = None\<rparr>) as)) m
          (\<lambda>results. returnE (copyResults_memory abi (unat pTemplate) (unat n) 0 results m)) s"
    using True assms(2,3) template_types [OF assms(4)]
    by (simp add: C_GetAttributeValue_memory_def guarded_run Let_def)
  show ?thesis
  proof (cases "\<exists>results u. ?get = Returns (Inr results, u)")
    case False
    then have "C_GetAttributeValue_memory sv abi m h obj pTemplate n s = Returns (Inr (rv, m), t)" "bs = as"
      using assms(1,3) True unfolding memory by (auto simp: C_GetAttributeValue_def guarded_run Let_def
          orElse_run split: outcome.splits sum.splits)
    with assms(4) show ?thesis by (intro exI [of _ m]) simp
  next
    case ok: True
    then obtain results u where get: "?get = Returns (Inr results, u)" by blast
    have copy: "copyResults results as = (rv, bs)" "u = t"
      using C_GetAttributeValue_run [OF _ _ assms(3) get] True assms(1) by (auto split: prod.splits)
    have "laid_out abi (unat pTemplate) m 0 ps as"
      "apart (entries abi (unat pTemplate) 0 (length as)) ps as" using assms(3-5) by simp_all
    from copyResults_in_memory [OF this assms(6) _ copy(1)] assms(7) [OF get]
    show ?thesis using get copy(2) assms(3) unfolding memory by (auto simp: orElse_run)
  qed
qed

section \<open>Reading a search template\<close>

lemma c_int_le: "0 \<le> c_int n \<Longrightarrow> nat (c_int n) \<le> unat n"
proof -
  assume n: "0 \<le> c_int n"
  have "c_int n = (uint (ucast n :: int32) + 2 ^ 31) mod 2 ^ 32 - 2 ^ 31"
    by (simp add: c_int_def sint_uint signed_take_bit_eq_take_bit_shift take_bit_eq_mod)
  moreover have "uint (ucast n :: int32) < 2 ^ 32" "0 \<le> uint (ucast n :: int32)"
    using uint_bounded [of "ucast n :: int32"] by simp_all
  moreover have "(uint (ucast n :: int32) + 2 ^ 31) mod 2 ^ 32 \<le> uint (ucast n :: int32) + 2 ^ 31"
    by (rule zmod_le_nonneg_dividend) simp
  ultimately have "c_int n \<le> uint (ucast n :: int32)" by linarith
  also have "\<dots> \<le> uint n" by (simp add: unsigned_ucast_eq take_bit_int_less_eq_self_iff)
  finally show ?thesis by (simp add: nat_le_iff)
qed

lemma readTemplate_in_memory:
  "laid_out abi base m i ps as \<Longrightarrow> \<forall>a \<in> set as. covers (attr_pValue a) (attr_vallen a) \<Longrightarrow>
   readTemplate_memory abi m base i (length as) = readTemplate as"
proof (induction abi base m i ps as rule: laid_out.induct)
  case (2 abi base m i p ps a as)
  then have holds: "entry_holds abi base m i p a" and rest:
    "readTemplate_memory abi m base (Suc i) (length as) = readTemplate as" by simp_all
  have "loadBytes (nat (c_int (attr_vallen a))) m (unat p) = take (nat (c_int (attr_vallen a))) buf"
    if "attr_pValue a = Some buf" "0 \<le> c_int (attr_vallen a)" for buf
  proof -
    have "nat (c_int (attr_vallen a)) \<le> length buf"
      using c_int_le [OF that(2)] 2(3) that(1) by (auto simp: covers_def)
    moreover have "loadBytes (length buf) m (unat p) = buf"
      using holds that(1) by (simp add: entry_holds_def)
    ultimately show ?thesis using take_loadBytes by metis
  qed
  with holds rest show ?case
    by (auto simp: entry_holds_def goBytes_def Let_def not_less split: option.splits outcome.splits)
qed simp_all

text \<open>A search reads its template from memory as the records say.\<close>

lemma search_in_memory:
  assumes "laid_out abi (unat pTemplate) m 0 ps as" "pTemplate \<noteq> 0" "length as = unat n"
    "\<forall>a \<in> set as. covers (attr_pValue a) (attr_vallen a)"
  shows "C_FindObjectsInit_memory sv abi m h pTemplate n s = C_FindObjectsInit sv h (Some as) n s"
  using readTemplate_in_memory [OF assms(1,4)] assms(2,3)
  by (cases "n = 0") (simp_all add: C_FindObjectsInit_memory_def C_FindObjectsInit_def word_gt_0)

section \<open>Filling the information\<close>

text \<open>What the application finds in the structure, in the layout PKCS#11 prescribes.\<close>

definition info_at :: "abi \<Rightarrow> host_memory \<Rightarrow> nat \<Rightarrow> ck_info" where
  "info_at abi m p =
     \<lparr>cryptokiVersion = (m (info_field abi p 0), m (info_field abi p 0 + 1)),
      ci_manufacturerID = loadBytes 32 m (info_field abi p 1),
      ci_flags = load_word (ulong_size abi) m (info_field abi p 2),
      libraryDescription = loadBytes 32 m (info_field abi p 3),
      libraryVersion = (m (info_field abi p 4), m (info_field abi p 4 + 1))\<rparr>"

lemma info_offsets:
  "offsets None Unix 0 P11_INFO = [0, 2, 40, 48, 80]"
  "offsets (Some (Suc 0)) Win64 0 P11_INFO = [0, 2, 34, 38, 70]"
  "struct_size None Unix P11_INFO = 88" "struct_size (Some (Suc 0)) Win64 P11_INFO = 72"
  by code_simp+

lemma info_field_values:
  "info_field Unix p 0 = p" "info_field Unix p (Suc 0) = p + 2" "info_field Unix p 2 = p + 40"
  "info_field Unix p 3 = p + 48" "info_field Unix p 4 = p + 80"
  "info_field Win64 p 0 = p" "info_field Win64 p (Suc 0) = p + 2" "info_field Win64 p 2 = p + 34"
  "info_field Win64 p 3 = p + 38" "info_field Win64 p 4 = p + 70"
  by (simp_all add: info_field_def info_offsets)

lemma loadBytes_other: "region b n \<inter> region a (length bs) = {} \<Longrightarrow>
    loadBytes n (storeBytes a bs m) b = loadBytes n m b"
  by (rule loadBytes_cong [symmetric]) (rule agree_storeBytes)

lemma load_word_other: "region b w \<inter> region a (length bs) = {} \<Longrightarrow>
    load_word w (storeBytes a bs m) b = load_word w m b"
  by (simp add: load_word_def loadBytes_other)

lemma load_number: "unat v < 256 ^ w \<Longrightarrow> load_word w (storeBytes a (number_bytes w (unat v)) m) a = v"
  using load_store_word [of v w a m] by (simp add: store_word_def)

lemma storeBytes_at:
  "storeBytes a bs m x = (if a \<le> x \<and> x < a + length bs then bs ! (x - a) else m x)"
  by (simp add: storeBytes_def)

text \<open>The application finds what \<^const>\<open>C_GetInfo\<close> answers, and nothing else has changed.\<close>

lemma info_in_memory:
  assumes "pInfo \<noteq> 0"
  shows "\<exists>m'. C_GetInfo_memory abi pInfo m = (CKR_OK, m')
    \<and> C_GetInfo (Some i) s = Returns (Inr (CKR_OK, Some (info_at abi m' (unat pInfo))), s)
    \<and> agree (- region (unat pInfo) (struct_size (p11_pack abi) abi P11_INFO)) m m'"
proof -
  let ?p = "unat pInfo"
  let ?m = "bridge_fill_info abi ?p 2 40 ''Infisical'' 0 ''Infisical PKCS#11 Module'' 1 0 m"
  have "info_at abi ?m ?p = \<lparr>cryptokiVersion = (2, 40), ci_manufacturerID = copyPaddedString ''Infisical'' 32,
      ci_flags = 0, libraryDescription = copyPaddedString ''Infisical PKCS#11 Module'' 32,
      libraryVersion = (1, 0)\<rparr>"
    by (cases abi) (simp_all add: info_at_def bridge_fill_info_def padded_copy_def info_field_values
        loadBytes_other load_word_other loadBytes_storeBytes storeBytes_at store_word_def region_def
        length_copyPaddedString load_number load_number [of 0, simplified] Let_def)
  moreover have "agree (- region ?p (struct_size (p11_pack abi) abi P11_INFO)) m ?m"
    by (cases abi) (auto simp: agree_def region_def bridge_fill_info_def padded_copy_def store_word_def
        storeBytes_def info_field_values info_offsets length_copyPaddedString Let_def)
  ultimately show ?thesis using assms by (simp add: C_GetInfo_memory_def C_GetInfo_def)
qed

text \<open>
  The instance: two entries at address 8, whose buffers of 1 and 8 bytes follow them.
\<close>

definition example_memory :: host_memory where
  "example_memory = storeBytes 8
     (number_bytes 8 0x162 @ number_bytes 8 56 @ number_bytes 8 1
      @ number_bytes 8 3 @ number_bytes 8 57 @ number_bytes 8 8)
     (\<lambda>_. 0)"

definition example_template :: "ck_attribute list" where
  "example_template =
     [\<lparr>attr_type = CKA_EXTRACTABLE, attr_pValue = Some [0], attr_vallen = 1\<rparr>,
      \<lparr>attr_type = CKA_LABEL, attr_pValue = Some (replicate 8 0), attr_vallen = 8\<rparr>]"

lemma example_template_memory:
  "laid_out Unix 8 example_memory 0 [56, 57] example_template"
  "apart (entries Unix 8 0 2) [56, 57] example_template"
  by code_simp+

definition example_answer :: "ck_attribute list" where
  "example_answer =
     [\<lparr>attr_type = CKA_EXTRACTABLE, attr_pValue = Some [0], attr_vallen = 1\<rparr>,
      \<lparr>attr_type = CKA_LABEL, attr_pValue = Some (bytes_of_string ''release'' @ [0]), attr_vallen = 7\<rparr>]"

lemma length_release: "length (bytes_of_string ''release'') = 7"
  by simp

lemma example_record_call:
  "\<exists>t. C_GetAttributeValue (example_services ok_server) 1 (makePrivateKeyHandle 0)
      (Some example_template) 2 policy_state = Returns (Inr (CKR_OK, Some example_answer), t)
    \<and> (\<forall>results u r. GetAttributeValue (example_services ok_server) 1 (makePrivateKeyHandle 0)
        (map (\<lambda>a. \<lparr>Type = attr_type a, Value = None\<rparr>) example_template) policy_state
          = Returns (Inr results, u) \<longrightarrow> r \<in> set results \<longrightarrow> length (value_of r) < 256 ^ 8)"
proof -
  let ?types = "map (\<lambda>a. \<lparr>Type = attr_type a, Value = None\<rparr>) example_template"
  let ?rs = "[\<lparr>Type = CKA_EXTRACTABLE, Value = Some [0]\<rparr>,
      \<lparr>Type = CKA_LABEL, Value = Some (bytes_of_string ''release'')\<rparr>]"
  have types: "?types = [\<lparr>Type = CKA_EXTRACTABLE, Value = None\<rparr>, \<lparr>Type = CKA_LABEL, Value = None\<rparr>]"
    by (simp add: example_template_def)
  obtain t where get: "GetAttributeValue (example_services ok_server) 1 (makePrivateKeyHandle 0) ?types
      policy_state = Returns (Inr ?rs, t)"
    unfolding types using example_attributes by blast
  have copy: "copyResults ?rs example_template = (CKR_OK, example_answer)"
    by (simp add: copyResults_Cons example_template_def example_answer_def value_of_def overwrite_def
        bytes_of_string_def del: copyResults.simps(1))
  have "initialized policy_state" by (simp add: policy_state_def example_state_def)
  from C_GetAttributeValue_run [OF this _ _ get, of 2] copy
  have "C_GetAttributeValue (example_services ok_server) 1 (makePrivateKeyHandle 0)
      (Some example_template) 2 policy_state = Returns (Inr (CKR_OK, Some example_answer), t)"
    by (simp add: const_vals example_template_def)
  then show ?thesis using get by (intro exI [of _ t] conjI) (auto simp: value_of_def)
qed

theorem attributes_in_memory_witness:
  "\<exists>t m'. C_GetAttributeValue_memory (example_services ok_server) Unix example_memory 1
      (makePrivateKeyHandle 0) 8 2 policy_state = Returns (Inr (CKR_OK, m'), t)
    \<and> laid_out Unix 8 m' 0 [56, 57] example_answer"
proof -
  obtain t where run: "C_GetAttributeValue (example_services ok_server) 1 (makePrivateKeyHandle 0)
      (Some example_template) 2 policy_state = Returns (Inr (CKR_OK, Some example_answer), t)"
    and len: "\<And>results u r. GetAttributeValue (example_services ok_server) 1 (makePrivateKeyHandle 0)
        (map (\<lambda>a. \<lparr>Type = attr_type a, Value = None\<rparr>) example_template) policy_state
          = Returns (Inr results, u) \<Longrightarrow> r \<in> set results \<Longrightarrow> length (value_of r) < 256 ^ ulong_size Unix"
    using example_record_call by fastforce
  have "covers (attr_pValue a) (attr_vallen a)" if "a \<in> set example_template" for a
    using that by (auto simp: example_template_def covers_def)
  moreover have "length example_template = unat (2 :: uint)" by (simp add: example_template_def)
  ultimately obtain m' where
    "C_GetAttributeValue_memory (example_services ok_server) Unix example_memory 1
      (makePrivateKeyHandle 0) 8 2 policy_state = Returns (Inr (CKR_OK, m'), t)"
    "laid_out Unix (unat (8 :: uint)) m' 0 [56, 57] example_answer"
    using attributes_in_memory [OF run, where pTemplate = 8 and ps = "[56, 57]" and abi = Unix
        and m = example_memory] example_template_memory len by fastforce
  then show ?thesis by auto
qed

end
