(* ===== verification/Function_List.thy ===== *)
theory Function_List
  imports Bridge
begin

text \<open>
  \<^verbatim>\<open>function_list.c\<close> and \<^verbatim>\<open>function_list.go\<close>: the table of function pointers an application asks
  for with \<^verbatim>\<open>C_GetFunctionList\<close>, and through which it makes every other call. The theorems say
  that no pointer of it is null, that each leads to the function of its name where the module
  has one, and where the pointers lie.
\<close>

section \<open>The table\<close>

text \<open>What a pointer leads to: a function of \<^verbatim>\<open>main.go\<close>, or one of the three of \<^verbatim>\<open>function_list.c\<close>.\<close>

datatype c_function = Go string | Impl | StubCombined | StubLegacy

text \<open>The fields of \<^verbatim>\<open>struct CK_FUNCTION_LIST\<close> after the version, in order.\<close>

definition function_fields :: "string list" where
  "function_fields =
     [''C_Initialize'', ''C_Finalize'', ''C_GetInfo'', ''C_GetFunctionList'',
      ''C_GetSlotList'', ''C_GetSlotInfo'', ''C_GetTokenInfo'', ''C_GetMechanismList'',
      ''C_GetMechanismInfo'', ''C_InitToken'', ''C_InitPIN'', ''C_SetPIN'', ''C_OpenSession'',
      ''C_CloseSession'', ''C_CloseAllSessions'', ''C_GetSessionInfo'',
      ''C_GetOperationState'', ''C_SetOperationState'', ''C_Login'', ''C_Logout'',
      ''C_CreateObject'', ''C_CopyObject'', ''C_DestroyObject'', ''C_GetObjectSize'',
      ''C_GetAttributeValue'', ''C_SetAttributeValue'', ''C_FindObjectsInit'',
      ''C_FindObjects'', ''C_FindObjectsFinal'', ''C_EncryptInit'', ''C_Encrypt'',
      ''C_EncryptUpdate'', ''C_EncryptFinal'', ''C_DecryptInit'', ''C_Decrypt'',
      ''C_DecryptUpdate'', ''C_DecryptFinal'', ''C_DigestInit'', ''C_Digest'',
      ''C_DigestUpdate'', ''C_DigestKey'', ''C_DigestFinal'', ''C_SignInit'', ''C_Sign'',
      ''C_SignUpdate'', ''C_SignFinal'', ''C_SignRecoverInit'', ''C_SignRecover'',
      ''C_VerifyInit'', ''C_Verify'', ''C_VerifyUpdate'', ''C_VerifyFinal'',
      ''C_VerifyRecoverInit'', ''C_VerifyRecover'', ''C_DigestEncryptUpdate'',
      ''C_DecryptDigestUpdate'', ''C_SignEncryptUpdate'', ''C_DecryptVerifyUpdate'',
      ''C_GenerateKey'', ''C_GenerateKeyPair'', ''C_WrapKey'', ''C_UnwrapKey'',
      ''C_DeriveKey'', ''C_SeedRandom'', ''C_GenerateRandom'', ''C_GetFunctionStatus'',
      ''C_CancelFunction'', ''C_WaitForSlotEvent'']"

definition function_struct :: "ctype list" where
  "function_struct = Bytes 2 # map (\<lambda>_. Pointer) function_fields"

text \<open>The initializers of \<^verbatim>\<open>function_list\<close>; a field without one would be a null pointer.\<close>

definition function_list :: "(string \<times> c_function) list" where
  "function_list =
     [(''C_Initialize'', Go ''C_Initialize''), (''C_Finalize'', Go ''C_Finalize''),
      (''C_GetInfo'', Go ''C_GetInfo''), (''C_GetFunctionList'', Impl),
      (''C_GetSlotList'', Go ''C_GetSlotList''), (''C_GetSlotInfo'', Go ''C_GetSlotInfo''),
      (''C_GetTokenInfo'', Go ''C_GetTokenInfo''),
      (''C_GetMechanismList'', Go ''C_GetMechanismList''),
      (''C_GetMechanismInfo'', Go ''C_GetMechanismInfo''),
      (''C_InitToken'', Go ''C_InitToken''), (''C_InitPIN'', Go ''C_InitPIN''),
      (''C_SetPIN'', Go ''C_SetPIN''), (''C_OpenSession'', Go ''C_OpenSession''),
      (''C_CloseSession'', Go ''C_CloseSession''),
      (''C_CloseAllSessions'', Go ''C_CloseAllSessions''),
      (''C_GetSessionInfo'', Go ''C_GetSessionInfo''),
      (''C_GetOperationState'', Go ''C_GetOperationState''),
      (''C_SetOperationState'', Go ''C_SetOperationState''), (''C_Login'', Go ''C_Login''),
      (''C_Logout'', Go ''C_Logout''), (''C_CreateObject'', Go ''C_CreateObject''),
      (''C_CopyObject'', Go ''C_CopyObject''), (''C_DestroyObject'', Go ''C_DestroyObject''),
      (''C_GetObjectSize'', Go ''C_GetObjectSize''),
      (''C_GetAttributeValue'', Go ''C_GetAttributeValue''),
      (''C_SetAttributeValue'', Go ''C_SetAttributeValue''),
      (''C_FindObjectsInit'', Go ''C_FindObjectsInit''),
      (''C_FindObjects'', Go ''C_FindObjects''),
      (''C_FindObjectsFinal'', Go ''C_FindObjectsFinal''),
      (''C_EncryptInit'', Go ''C_EncryptInit''), (''C_Encrypt'', Go ''C_Encrypt''),
      (''C_EncryptUpdate'', Go ''C_EncryptUpdate''),
      (''C_EncryptFinal'', Go ''C_EncryptFinal''), (''C_DecryptInit'', Go ''C_DecryptInit''),
      (''C_Decrypt'', Go ''C_Decrypt''), (''C_DecryptUpdate'', Go ''C_DecryptUpdate''),
      (''C_DecryptFinal'', Go ''C_DecryptFinal''), (''C_DigestInit'', Go ''C_DigestInit''),
      (''C_Digest'', Go ''C_Digest''), (''C_DigestUpdate'', Go ''C_DigestUpdate''),
      (''C_DigestKey'', Go ''C_DigestKey''), (''C_DigestFinal'', Go ''C_DigestFinal''),
      (''C_SignInit'', Go ''C_SignInit''), (''C_Sign'', Go ''C_Sign''),
      (''C_SignUpdate'', Go ''C_SignUpdate''), (''C_SignFinal'', Go ''C_SignFinal''),
      (''C_SignRecoverInit'', Go ''C_SignRecoverInit''),
      (''C_SignRecover'', Go ''C_SignRecover''), (''C_VerifyInit'', Go ''C_VerifyInit''),
      (''C_Verify'', Go ''C_Verify''), (''C_VerifyUpdate'', Go ''C_VerifyUpdate''),
      (''C_VerifyFinal'', Go ''C_VerifyFinal''),
      (''C_VerifyRecoverInit'', Go ''C_VerifyRecoverInit''),
      (''C_VerifyRecover'', Go ''C_VerifyRecover''), (''C_DigestEncryptUpdate'', StubCombined),
      (''C_DecryptDigestUpdate'', StubCombined), (''C_SignEncryptUpdate'', StubCombined),
      (''C_DecryptVerifyUpdate'', StubCombined), (''C_GenerateKey'', Go ''C_GenerateKey''),
      (''C_GenerateKeyPair'', Go ''C_GenerateKeyPair''), (''C_WrapKey'', Go ''C_WrapKey''),
      (''C_UnwrapKey'', Go ''C_UnwrapKey''), (''C_DeriveKey'', Go ''C_DeriveKey''),
      (''C_SeedRandom'', Go ''C_SeedRandom''), (''C_GenerateRandom'', Go ''C_GenerateRandom''),
      (''C_GetFunctionStatus'', StubLegacy), (''C_CancelFunction'', StubLegacy),
      (''C_WaitForSlotEvent'', Go ''C_WaitForSlotEvent'')]"

definition function_version :: "byte \<times> byte" where
  "function_version = (2, 40)"

definition function_pointer :: "string \<Rightarrow> c_function option" where
  "function_pointer f = map_of function_list f"

text \<open>\<^verbatim>\<open>stub_not_supported_2\<close> and \<^verbatim>\<open>stub_legacy\<close>.\<close>

definition stub :: "c_function \<Rightarrow> ck_rv option" where
  "stub f = (if f = StubCombined \<or> f = StubLegacy then Some CKR_FUNCTION_NOT_SUPPORTED else None)"

definition C_GetFunctionList_impl :: "'p option \<Rightarrow> ck_rv \<times> (string \<rightharpoonup> c_function) option" where
  "C_GetFunctionList_impl ppFunctionList =
     (case ppFunctionList of
        None \<Rightarrow> (CKR_ARGUMENTS_BAD, None)
      | Some _ \<Rightarrow> (CKR_OK, Some function_pointer))"

definition C_GetFunctionList :: "'p option \<Rightarrow> ck_rv \<times> (string \<rightharpoonup> c_function) option" where
  "C_GetFunctionList ppFunctionList = C_GetFunctionList_impl ppFunctionList"

section \<open>What the table holds\<close>

lemma function_list_fields: "map fst function_list = function_fields"
  by (simp add: function_list_def function_fields_def)

lemma function_list_pointers:
  "(f, g) \<in> set function_list \<Longrightarrow> g = Go f \<or> (g, f) \<in> {(Impl, ''C_GetFunctionList''),
     (StubCombined, ''C_DigestEncryptUpdate''), (StubCombined, ''C_DecryptDigestUpdate''),
     (StubCombined, ''C_SignEncryptUpdate''), (StubCombined, ''C_DecryptVerifyUpdate''),
     (StubLegacy, ''C_GetFunctionStatus''), (StubLegacy, ''C_CancelFunction'')}"
  by (auto simp: function_list_def)

text \<open>
  Every field of the table the application receives is set, to the function of the field's name
  where the module exports one; the others answer that they are not supported.
\<close>

lemma function_table_complete:
  assumes "C_GetFunctionList p = (CKR_OK, Some table)" "f \<in> set function_fields"
  shows "\<exists>g. table f = Some g \<and> (g = Go f \<or> g = Impl \<and> f = ''C_GetFunctionList''
    \<or> stub g = Some CKR_FUNCTION_NOT_SUPPORTED)"
proof -
  have table: "table = function_pointer"
    using assms(1) by (auto simp: C_GetFunctionList_def C_GetFunctionList_impl_def const_vals split: option.splits)
  have "f \<in> fst ` set function_list" using assms(2) function_list_fields by (metis set_map)
  then obtain g where g: "map_of function_list f = Some g" by (metis map_of_eq_None_iff not_None_eq)
  from function_list_pointers [OF map_of_SomeD [OF g]] g show ?thesis
    by (auto simp: table function_pointer_def stub_def)
qed

section \<open>Where the pointers lie\<close>

lemma round_up_multiple:
  assumes "0 < a" "a dvd n"
  shows "round_up n a = n"
proof -
  obtain k where n: "n = k * a" using assms(2) by (metis dvdE mult.commute)
  have "n + a - 1 = (a - 1) + k * a" using assms(1) n by simp
  then have "(n + a - 1) div a = k" using assms(1) div_mult_self1 [of a "a - 1" k] by simp
  then show ?thesis by (simp add: round_up_def n)
qed

lemma offsets_pointers:
  "alignment pack abi Pointer = a \<Longrightarrow> 0 < a \<Longrightarrow> a dvd 8 \<Longrightarrow>
   offsets pack abi n (replicate k Pointer) = map (\<lambda>i. round_up n a + 8 * i) [0..<k]"
proof (induction k arbitrary: n)
  case (Suc k)
  have "a dvd round_up n a + 8" using Suc.prems(3) by (simp add: round_up_def)
  then have "round_up (round_up n a + 8) a = round_up n a + 8" by (rule round_up_multiple [OF Suc.prems(2)])
  moreover have "[0..<Suc k] = 0 # map Suc [0..<k]" by (simp add: map_Suc_upt upt_conv_Cons del: upt_Suc)
  ultimately show ?case using Suc by (simp add: Let_def comp_def del: upt_Suc)
qed simp

text \<open>
  With the packing of Windows the first pointer follows the two bytes of the version at once;
  without it, as on Unix, six bytes of padding come between.
\<close>

lemma function_pointer_offsets:
  "offsets (p11_pack Unix) Unix 0 function_struct = 0 # map (\<lambda>i. 8 + 8 * i) [0..<68]"
  "offsets (p11_pack Win64) Win64 0 function_struct = 0 # map (\<lambda>i. 2 + 8 * i) [0..<68]"
  "offsets None Win64 0 function_struct = 0 # map (\<lambda>i. 8 + 8 * i) [0..<68]"
proof -
  have "length function_fields = 68" by (simp add: function_fields_def)
  then have fields: "map (\<lambda>_. Pointer) function_fields = replicate 68 Pointer"
    by (simp only: map_replicate_const)
  have "offsets None abi 2 (replicate 68 Pointer) = map (\<lambda>i. round_up 2 8 + 8 * i) [0..<68]" for abi
    by (rule offsets_pointers) (simp_all add: alignment_def)
  moreover have "offsets (Some 1) Win64 2 (replicate 68 Pointer) = map (\<lambda>i. round_up 2 1 + 8 * i) [0..<68]"
    by (rule offsets_pointers) (simp_all add: alignment_def)
  moreover have "round_up 2 8 = 8" "round_up 2 1 = 2" "round_up 0 1 = 0" by (simp_all add: round_up_def)
  moreover have "alignment None abi (Bytes 2) = 1" "alignment (Some 1) abi (Bytes 2) = 1" for abi
    by (simp_all add: alignment_def)
  ultimately show "offsets (p11_pack Unix) Unix 0 function_struct = 0 # map (\<lambda>i. 8 + 8 * i) [0..<68]"
    "offsets (p11_pack Win64) Win64 0 function_struct = 0 # map (\<lambda>i. 2 + 8 * i) [0..<68]"
    "offsets None Win64 0 function_struct = 0 # map (\<lambda>i. 8 + 8 * i) [0..<68]"
    unfolding function_struct_def fields by (simp_all add: Let_def del: One_nat_def upt_Suc add_2_eq_Suc add_2_eq_Suc')
qed

end
