(* ===== verification/Logging.thy ===== *)
theory Logging
  imports Config
begin

text \<open>
  \<^verbatim>\<open>initLogger\<close> of \<^verbatim>\<open>backend.go\<close>: where the log goes and what it lets through. Whether a file can be
  opened is the operating system's answer, an argument. The messages themselves are output
  that nothing else of the module depends on.
\<close>

section \<open>The logger\<close>

datatype log_writer = Stderr | LogTo string

datatype log_level = TraceLevel | DebugLevel | InfoLevel | WarnLevel | ErrorLevel

record logger =
  log_out :: log_writer
  log_noColor :: bool
  log_level :: log_level
  log_component :: string

definition logLevel :: "Config \<Rightarrow> log_level" where
  "logLevel cfg =
     (let l = toLower (LogLevel cfg)
      in if l = ''trace'' then TraceLevel
         else if l = ''debug'' then DebugLevel
         else if l = ''warn'' then WarnLevel
         else if l = ''error'' then ErrorLevel
         else InfoLevel)"

definition initLogger :: "(string \<Rightarrow> bool) \<Rightarrow> Config \<Rightarrow> logger" where
  "initLogger opens cfg =
     \<lparr>log_out = (if LogFile cfg \<noteq> [] \<and> opens (LogFile cfg) then LogTo (LogFile cfg) else Stderr),
      log_noColor = (LogFile cfg \<noteq> []), log_level = logLevel cfg,
      log_component = ''infisical-pkcs11''\<rparr>"

section \<open>What the logger does with the configuration\<close>

text \<open>A log file never gets colour codes, and a file that cannot be opened never stops the module.\<close>

lemma log_file_plain: "log_out (initLogger opens cfg) = LogTo f \<Longrightarrow> log_noColor (initLogger opens cfg)"
  by (auto simp: initLogger_def split: if_splits)

lemma log_unopened: "\<not> opens (LogFile cfg) \<Longrightarrow> log_out (initLogger opens cfg) = Stderr"
  by (simp add: initLogger_def)

text \<open>
  The level does not depend on upper and lower case; a missing or an unknown one counts as
  \<^verbatim>\<open>info\<close>.
\<close>

lemma toLower_idem: "toLower (toLower s) = toLower s"
proof -
  have "lower_char (lower_char c) = lower_char c" for c
    by (cases c) (simp add: lower_char_def)
  then show ?thesis by (simp add: toLower_def)
qed

lemma level_ignores_case: "logLevel (c\<lparr>LogLevel := toLower l\<rparr>) = logLevel (c\<lparr>LogLevel := l\<rparr>)"
  by (simp add: logLevel_def toLower_idem)

lemma default_level: "LogLevel c = [] \<Longrightarrow> logLevel (setDefaults c) = logLevel c"
  by (simp add: logLevel_def setDefaults_def Let_def toLower_def lower_char_def)

end
