(* ===== verification/Key_Handles.thy ===== *)
theory Key_Handles
  imports Signing_Contract
begin

text \<open>
  What the handle of a key stands for: the position of a signer in the list the server sent
  last. While a list is cached that is one signer (\<^verbatim>\<open>slot_list_resolves\<close>); across its expiry it is
  whichever signer the next list has there.
\<close>

section \<open>A list that is fetched\<close>

context observed_services
begin

lemma getSigners_miss:
  assumes "getSigners sv s = Returns (Inr signers, t)"
    "sc_get (signer_cache s) (fst (sv_now sv (world s))) = None"
  shows "\<exists>rs resp. log (world t) = log (world s) @ rs \<and> rs \<noteq> [] \<and> snd (last rs) = Inr resp
    \<and> sv_decode_signers sv resp = Inr signers"
proof -
  let ?s = "s\<lparr>world := snd (sv_now sv (world s))\<rparr>"
  let ?fetch = "withRetryOnAuth sv (\<lambda>token. apiE (\<lambda>c. ListSigners sv c token))"
  obtain u where fetch: "?fetch ?s = Returns (Inr signers, u)" and now: "world t = snd (sv_now sv (world u))"
    using assms by (auto simp: getSigners_def nowE_def elim!: bindE_InrE split: prod.splits option.splits)
  obtain rs where "log (world u) = log (world ?s) @ rs" "answered sv ''list-signers'' (sv_decode_signers sv) rs (Inr signers)"
    using retry_log [of "''list-signers''" listSigners_request "sv_decode_signers sv"] fetch
    unfolding ListSigners_def by blast
  then show ?thesis using now log_now by (auto simp: answered_def)
qed

lemma getSignerBySlot_miss:
  assumes "getSignerBySlot sv i s = Returns (Inr signer, t)"
    "sc_get (signer_cache s) (fst (sv_now sv (world s))) = None"
  shows "\<exists>rs resp signers. log (world t) = log (world s) @ rs \<and> rs \<noteq> [] \<and> snd (last rs) = Inr resp
    \<and> sv_decode_signers sv resp = Inr signers \<and> unat i < length signers \<and> signer = signers ! unat i"
proof -
  obtain signers where "getSigners sv s = Returns (Inr signers, t)" "\<not> of_nat (length signers) \<le> i"
    "signer = signers ! unat i"
    using assms(1) by (auto simp: getSignerBySlot_def elim!: bindE_InrE split: if_splits)
  moreover from this(2) have "unat i < length signers"
    by (simp add: word_le_nat_alt not_le) (metis unat_of_nat mod_less_eq_dividend order_less_le_trans)
  ultimately show ?thesis using getSigners_miss [OF _ assms(2)] by blast
qed

end

section \<open>The key of an operation\<close>

text \<open>
  C24: once the list of signers has expired, an operation signs with the signer the server's
  next list has at the position its key handle was made from: every sign request names this
  signer, whatever signer was there when the application found the key and started to sign.
\<close>

theorem key_is_a_position:
  assumes "Sign (traced sv) sh data s = Returns (Inr sig, t)"
    "sm_get (manager s) sh = Some x" "cachedSignature x = None"
    "sc_get (signer_cache s) (fst (sv_now (traced sv) (world s))) = None"
  shows "\<exists>rs resp signers xs req. exchanges t = exchanges s @ rs @ xs
    \<and> rs \<noteq> [] \<and> snd (last rs) = Inr resp \<and> sv_decode_signers sv resp = Inr signers
    \<and> unat (signKeyIndex x) < length signers \<and> xs \<noteq> []
    \<and> (\<forall>y \<in> set xs. \<exists>token. fst y = sign_request (httpClient (client s)) token
        (ID (signers ! unat (signKeyIndex x))) req)"
proof -
  have "signInternal (traced sv) x data s = Returns (Inr sig, t)"
    using finishSign_fresh [OF assms(1) [unfolded Sign_def] assms(2,3)] .
  then show ?thesis
  proof (cases rule: traced.signInternal_log)
    case (sent signer s1 alg d dig ctx xs ys)
    obtain rs resp signers where "exchanges s1 = exchanges s @ rs" "rs \<noteq> []" "snd (last rs) = Inr resp"
      "sv_decode_signers sv resp = Inr signers" "unat (signKeyIndex x) < length signers"
      "signer = signers ! unat (signKeyIndex x)"
      using traced.getSignerBySlot_miss [OF sent(1) assms(4)] by auto
    moreover have "ys = []" "xs \<noteq> []" using sent(6) by (auto simp: signatureAnswered_def)
    moreover have "\<exists>token. fst y = sign_request (httpClient (client s)) token (ID signer)
        (signRequestFor alg d dig ctx)" if "y \<in> set xs" for y
      using sent(4) that by (auto simp: retried_def split: list.splits)
    ultimately show ?thesis using sent(3)
      by (intro exI [of _ rs] exI [of _ resp] exI [of _ signers] exI [of _ xs]
          exI [of _ "signRequestFor alg d dig ctx"]) simp
  qed auto
qed

text \<open>
  The instance: until second 300 the signer of the session's key is \<open>ec_signer\<close>; on the server
  another signer has since taken its place in the list, and at second 301 the data go to that one.
\<close>

definition other_signer :: signerResponse where
  "other_signer = ec_signer\<lparr>ID := ''ec-2'', Name := ''staging''\<rparr>"

definition reordered_services :: "nat services" where
  "reordered_services = (example_services ok_server)\<lparr>sv_now := (\<lambda>w. (int w * 1000000000, w)),
     sv_decode_signers := (\<lambda>r. Inr [rsa_signer, other_signer])\<rparr>"

definition reordered_state :: "nat \<Rightarrow> (nat \<times> exchange list) backend" where
  "reordered_state n = (signing_state CKM_ECDSA)\<lparr>world := (n, []),
     signer_cache := sc_set (newSignerCache 300) [rsa_signer, ec_signer] 0\<rparr>"

lemma reordered_before:
  "getSignerBySlot (traced reordered_services) 1 (reordered_state 299)
    = Returns (Inr ec_signer, reordered_state 299)"
  by (simp add: getSignerBySlot_def getSigners_def bindE_def catchE_def nowE_def traced_def
      reordered_services_def reordered_state_def example_services_def signing_state_def example_state_def
      newSignerCache_def cache_defs seconds_exact word_le_nat_alt)

lemma reordered_session:
  "sm_get (manager (reordered_state n)) 1 = Some (signing_session CKM_ECDSA)"
  "sc_get (signer_cache (reordered_state 301)) (fst (sv_now (traced reordered_services) (world (reordered_state 301)))) = None"
  by (simp_all add: reordered_state_def signing_state_def example_state_def sm_get_def
      newSignerCache_def cache_defs seconds_exact reordered_services_def traced_def)

lemma reordered_sign:
  "\<exists>t. Sign (traced reordered_services) 1 (replicate 32 1) (reordered_state 301) = Returns (Inr [1, 2, 3], t)
    \<and> length (exchanges t) = 2"
  by (simp add: Sign_def finishSign_run reordered_session)
     (simp add: signing_example_defs reordered_services_def reordered_state_def signing_state_def
      ok_server_def b64_AQID const_vals word_le_nat_alt)

theorem key_is_a_position_witness:
  "getSignerBySlot (traced reordered_services) 1 (reordered_state 299)
      = Returns (Inr ec_signer, reordered_state 299)
    \<and> (\<exists>t token req. Sign (traced reordered_services) 1 (replicate 32 1) (reordered_state 301)
          = Returns (Inr [1, 2, 3], t)
        \<and> fst (last (exchanges t)) = sign_request (httpClient example_client) token ''ec-2'' req)"
proof -
  obtain t where t: "Sign (traced reordered_services) 1 (replicate 32 1) (reordered_state 301)
      = Returns (Inr [1, 2, 3], t)" using reordered_sign by blast
  obtain rs resp signers xs req where *: "exchanges t = exchanges (reordered_state 301) @ rs @ xs"
    "sv_decode_signers reordered_services resp = Inr signers" "xs \<noteq> []"
    "\<forall>y \<in> set xs. \<exists>token. fst y = sign_request (httpClient (client (reordered_state 301))) token
        (ID (signers ! unat (signKeyIndex (signing_session CKM_ECDSA)))) req"
    using key_is_a_position [OF t reordered_session(1) _ reordered_session(2)] by auto
  have "ID (signers ! unat (signKeyIndex (signing_session CKM_ECDSA))) = ''ec-2''"
    using *(2) by (auto simp: reordered_services_def other_signer_def)
  moreover have "last (exchanges t) = last xs" "last xs \<in> set xs" using *(1,3) by simp_all
  moreover have "client (reordered_state 301) = example_client"
    by (simp add: reordered_state_def signing_state_def example_state_def)
  ultimately show ?thesis using t *(4) reordered_before by metis
qed

end
