(* ===== verification/Spec2Isabelle.thy ===== *)
theory Spec2Isabelle
  imports Provenance Interleaving Signing_Runs Sign_Threads Function_List Logging Key_Handles
begin

text \<open>
  \<^bold>\<open>A verification development for the Infisical PKCS#11 module.\<close>

  \<^bold>\<open>The program.\<close> The module is a shared library an application loads as a PKCS#11 token. Its
  keys are kept by the Infisical server: a slot is a signer on the server, and signing sends
  a digest to it over HTTPS. The exported C functions (\<^verbatim>\<open>main.go\<close>) check and convert their
  arguments and call one method each of the backend (\<^verbatim>\<open>backend.go\<close>), which keeps the sessions
  (\<^verbatim>\<open>slots.go\<close>), two caches (\<^verbatim>\<open>cache.go\<close>), the configuration (\<^verbatim>\<open>config.go\<close>) and the client of
  the server's API (\<^verbatim>\<open>client.go\<close>), chooses algorithms (\<^verbatim>\<open>mechanism.go\<close>), describes the signing
  process to the server (\<^verbatim>\<open>signing_context.go\<close> and its platform files) and maps errors to
  return codes (\<^verbatim>\<open>errors.go\<close>).

  \<^bold>\<open>The theories.\<close>
  \<^item> \<^verbatim>\<open>Prelude\<close>, \<^verbatim>\<open>Go_Strings\<close>, \<^verbatim>\<open>Go_Encoding\<close>, \<^verbatim>\<open>Go_Sha2\<close>, \<^verbatim>\<open>Go_Monad\<close>: machine types, theorem
    collections, the parts of Go's standard library the code uses (strings, base64, hex, DER,
    SHA-2), and the form of an operation: a function on a state that returns a value or an
    error, or panics. \<^verbatim>\<open>frame_relation\<close> is the contract of a relation every step of a
    computation keeps; \<^verbatim>\<open>invariant_system\<close> that of an invariant of a machine.
  \<^item> \<^verbatim>\<open>Pkcs11\<close>: the numbers of PKCS#11. \<^verbatim>\<open>Errors\<close>: \<^verbatim>\<open>errors.go\<close> and \<^verbatim>\<open>mapErrorToRV\<close>.
  \<^item> \<^verbatim>\<open>Slots\<close>: \<^verbatim>\<open>slots.go\<close>; handles, the session record, the session manager as an
    interpretation of a store of handles (\<^verbatim>\<open>handle_store\<close>). \<^verbatim>\<open>Cache\<close>: \<^verbatim>\<open>cache.go\<close>; both caches as
    interpretations of a cache with a lifetime (\<^verbatim>\<open>ttl_cache\<close>).
  \<^item> \<^verbatim>\<open>Mechanism\<close>: \<^verbatim>\<open>mechanism.go\<close>, with the parser of DigestInfo. \<^verbatim>\<open>Signing_Context\<close>: what the
    module tells the server about the process, and the redaction of command lines. \<^verbatim>\<open>Config\<close>:
    \<^verbatim>\<open>config.go\<close>. \<^verbatim>\<open>Client\<close>: \<^verbatim>\<open>client.go\<close> and the record \<^verbatim>\<open>services\<close> of everything outside.
  \<^item> \<^verbatim>\<open>Backend\<close>, \<^verbatim>\<open>Slot_Ops\<close>, \<^verbatim>\<open>Object_Keys\<close>, \<^verbatim>\<open>Object_Ops\<close>, \<^verbatim>\<open>Sign_Ops\<close>: \<^verbatim>\<open>backend.go\<close> in the order
    of its methods, on the state \<^verbatim>\<open>backend\<close>. \<^verbatim>\<open>Requests\<close> follows the exchanges with the server
    (\<^verbatim>\<open>observed_services\<close>, interpreted by services that carry their log).
  \<^item> \<^verbatim>\<open>Logging\<close>: \<^verbatim>\<open>initLogger\<close>, what the configuration makes of the log.
  \<^item> \<^verbatim>\<open>Main_Api\<close>: \<^verbatim>\<open>main.go\<close>. \<^verbatim>\<open>Module\<close>: a call of any exported function, \<^verbatim>\<open>exec\<close>, and what all calls
    have in common. \<^verbatim>\<open>Invariants\<close>: the reachable states of a process.
  \<^item> \<^verbatim>\<open>C_Memory\<close>, \<^verbatim>\<open>Bridge\<close>, \<^verbatim>\<open>Function_List\<close>: the C side. Bytes at addresses, cells of memory
    (\<^verbatim>\<open>cell\<close>) and the layout of structures; \<^verbatim>\<open>pkcs11_bridge.c\<close> and the exported functions that use
    it, on memory instead of records; the table of function pointers.
  \<^item> \<^verbatim>\<open>Signing\<close>, \<^verbatim>\<open>Signing_Contract\<close>, \<^verbatim>\<open>Signing_Runs\<close>: one signature, one call of the signing
    functions against an abstract machine, and whole runs of calls against runs of the machine.
  \<^item> \<^verbatim>\<open>Workflow\<close>: the whole sequence of calls by which an application signs, for a process that
    has a token and a server that answers (\<^verbatim>\<open>steady\<close>, \<^verbatim>\<open>lists\<close>, \<^verbatim>\<open>signs\<close>).
  \<^item> \<^verbatim>\<open>Threads\<close>, \<^verbatim>\<open>Sign_Threads\<close>: calls that run at the same time. A thread is a computation that
    stops at every access to what threads share; \<^verbatim>\<open>parallel\<close> is the contract by which threads
    leave each other's part of the state alone (rely, guarantee and footprints). The calls that
    open a session and sign as threads: alone they do what the calls do (\<^verbatim>\<open>thread_runs\<close>), on
    sessions of their own they all succeed, on one session they can crash.
  \<^item> \<^verbatim>\<open>History\<close>, \<^verbatim>\<open>Fetched\<close>, \<^verbatim>\<open>Provenance\<close>: histories of a process, with the log of its exchanges.
    \<^verbatim>\<open>session_relation\<close> is the contract of a relation between a session before and after a call;
    \<^verbatim>\<open>gives\<close> states what a computation that succeeds returns and leaves in the caches. They lead
    to what a process can say or sign at all: only what the server sent it.
  \<^item> \<^verbatim>\<open>Key_Handles\<close>: which signer a key handle stands for when the list of signers changes.
  \<^item> \<^verbatim>\<open>Interleaving\<close>: calls on different sessions commute. \<^verbatim>\<open>Api_Properties\<close>: the properties of the
    whole interface. The calls that take a session handle are those of \<^verbatim>\<open>session_of\<close>; a login or
    logout also reaches the other sessions of the slot, so those properties name it.

  \<^bold>\<open>How state and operations correspond.\<close> The Go variable \<^verbatim>\<open>backend\<close> is the record of the same
  name; a method of it is a definition of the same name that threads this record. A method
  that writes through a \<^verbatim>\<open>*session\<close> updates the record stored under its handle. Names that
  clash have a prefix (\<^verbatim>\<open>sm_get\<close> for \<^verbatim>\<open>sessionManager.get\<close>, \<^verbatim>\<open>client_Sign\<close> for
  \<^verbatim>\<open>InfisicalClient.Sign\<close>); a long method is split where it returns early, and its parts are
  named after what they do. \<^verbatim>\<open>uint\<close> is a 64-bit word, a byte an 8-bit word, a Go \<^verbatim>\<open>int\<close> that only
  counts a natural number, a string the list of its bytes, a nil slice \<^verbatim>\<open>None\<close> where the code
  tells it from an empty one.

  \<^bold>\<open>What is outside.\<close> resty, the Infisical SDK, the JSON decoders, \<^verbatim>\<open>url.Parse\<close>, \<^verbatim>\<open>net.ParseIP\<close>, PEM
  and X.509 parsing, \<^verbatim>\<open>pkcs11.NewAttribute\<close>, the operating system and the clock are fields of
  \<^verbatim>\<open>services\<close>, arguments of the definitions, on a world of any type: theorems hold for every
  behaviour of them. Where a theorem assumes something of them it says so, with an instance: the
  coordinates of a point fit the field of its curve (\<^verbatim>\<open>points_on_curve\<close>), the server sends
  no empty signature (\<^verbatim>\<open>signatures_nonempty\<close>), and its signatures have less than 2^64 bytes
  (\<^verbatim>\<open>signatures_bounded\<close>). That signing succeeds at all is shown for a server that lists its
  signers and answers the sign request (\<^verbatim>\<open>lists\<close>, \<^verbatim>\<open>signs\<close>), and for a cached list of signers, if
  there is one, that is the server's (\<^verbatim>\<open>steady\<close>): a list that changed while it is cached can make
  the module refuse a slot or sign with another key (\<^verbatim>\<open>key_is_a_position\<close>).

  \<^bold>\<open>What the lemmas show.\<close> The requests: at most one retry, only after a 401 and with a new
  token; signatures are the server's answer; approvals only where they are wanted; of the
  requests of the module's own client (the log of exchanges does not see the SDK's logins) only
  those of signing can be anything but a GET. The sessions: fresh handles, login by slot, isolation. The
  objects: searches enumerate their results, attributes match the template, a private key
  never claims more than signing, keys decode to what the certificate holds. Signing: the
  data fit the mechanism, parts add up, the calls refine an abstract machine, alone and in
  runs, and where they do not (\<^verbatim>\<open>stale_signature\<close>). The histories: no signature without a login
  and a start, no signature and no attribute the server did not send. The exported functions:
  codes, memory, no overflow, no panic, the invariant of every reachable state, and the order
  of calls on different sessions. Threads: in any order of their steps they open sessions and
  sign on them; two on one session race for a kept signature. The C side: memory holds what
  the records say, nothing else is written, no function pointer is missing.

  \<^bold>\<open>Bounds.\<close> No fuel: every loop of the code is structural recursion or has a measure. The 43
  steps of \<^verbatim>\<open>concurrent_signing\<close> are enough for a thread that opens, starts and signs while the
  server answers; they are added up call by call. Handles are counted with 64 bits and sessions
  opened while the counter lasts. Lengths the caller passes are converted as the code converts
  them (\<^verbatim>\<open>c_int\<close>, \<^verbatim>\<open>go_int\<close>); Go slices are taken to be shorter than 2^63, as Go guarantees.

  \<^bold>\<open>Not modelled.\<close> The messages of the log; calls at the same time other than
  \<^verbatim>\<open>C_OpenSession\<close>, \<^verbatim>\<open>C_SignInit\<close>, \<^verbatim>\<open>C_Sign\<close> and \<^verbatim>\<open>C_SignFinal\<close> (in the other theories each call
  runs alone, as PKCS#11 asks of an application that has not enabled locking; that the order of
  calls on different sessions does not matter is \<^verbatim>\<open>different_sessions_commute\<close>); among threads
  the weak memory of unlocked fields and what is written to a session after it was closed; the
  reset of Go's signal handlers; the
  32 bits of \<^verbatim>\<open>CK_ULONG\<close> on Windows outside \<^verbatim>\<open>Bridge\<close>; the warning about permissions of the
  configuration file; lower case beyond ASCII; reads past the end of a buffer whose length the
  caller overstates; the part of the check of \<^verbatim>\<open>unsafe.Slice\<close> that depends on the address of the
  array.
\<close>

end
